(* ===== verification/Api_Types.thy ===== *)
theory Api_Types
  imports Prelude
begin

text \<open>
  The custom resources of \<^verbatim>\<open>api/v1\<close>: \<^verbatim>\<open>SourceRef\<close>, \<^verbatim>\<open>Overlay\<close>, \<^verbatim>\<open>Projection\<close> and
  \<^verbatim>\<open>ClusterProjection\<close> with their specs and statuses, field by field, and the
  admission rules that the kubebuilder markers put on them, as executable predicates.
  Types that the API machinery supplies (object metadata, conditions, label selectors)
  are records of the fields this program reads or writes.
\<close>

section \<open>Types of the API machinery that the resources are made of\<close>

datatype conditionStatus = ConditionTrue | ConditionFalse | ConditionUnknown

text \<open>
  \<^verbatim>\<open>metav1.Condition\<close>: the fields \<^verbatim>\<open>setConditionOn\<close> fills; the transition time is
  filled by the API machinery and never read here.
\<close>

record condition =
  c_Type :: string
  c_Status :: conditionStatus
  c_Reason :: string
  c_Message :: string

record objectMeta =
  m_Name :: string
  m_Namespace :: string
  m_UID :: string
  m_ResourceVersion :: string
  m_CreationTimestamp :: int
  m_DeletionTimestamp :: "int option"
  m_Finalizers :: "string list"
  m_Labels :: str_map

record labelRequirement =
  lr_Key :: string
  lr_Operator :: string
  lr_Values :: "string list"

record labelSelector =
  ls_MatchLabels :: str_map
  ls_MatchExpressions :: "labelRequirement list"

section \<open>\<^verbatim>\<open>source_types.go\<close>\<close>

record sourceRef =
  sr_Group :: string
  sr_Version :: string
  sr_Kind :: string
  sr_Namespace :: string
  sr_Name :: string

text \<open>A nil map of the overlay and an empty one range over the same (no) entries.\<close>

record overlay =
  ov_Labels :: str_map
  ov_Annotations :: str_map

section \<open>\<^verbatim>\<open>projection_types.go\<close>\<close>

record projectionDestination =
  pd_Name :: string

record projectionSpec =
  ps_Source :: sourceRef
  ps_Destination :: projectionDestination
  ps_Overlay :: overlay

record projectionStatus =
  pst_Conditions :: "condition list"
  pst_DestinationName :: string

record projection =
  p_ObjectMeta :: objectMeta
  p_Spec :: projectionSpec
  p_Status :: projectionStatus

section \<open>\<^verbatim>\<open>clusterprojection_types.go\<close>\<close>

record clusterProjectionDestination =
  cpd_Namespaces :: "string list"
  cpd_NamespaceSelector :: "labelSelector option"
  cpd_Name :: string

record clusterProjectionSpec =
  cps_Source :: sourceRef
  cps_Destination :: clusterProjectionDestination
  cps_Overlay :: overlay

text \<open>The two counts are \<^verbatim>\<open>int32\<close>.\<close>

record clusterProjectionStatus =
  cst_Conditions :: "condition list"
  cst_DestinationName :: string
  cst_NamespacesWritten :: "32 word"
  cst_NamespacesFailed :: "32 word"

record clusterProjection =
  cp_ObjectMeta :: objectMeta
  cp_Spec :: clusterProjectionSpec
  cp_Status :: clusterProjectionStatus

section \<open>Admission rules: the validation patterns\<close>

text \<open>
  Each pattern is recognised by a small scanner over the characters. A DNS-1123 label is
  \<^verbatim>\<open>^[a-z0-9]([-a-z0-9]*[a-z0-9])?$\<close>, a subdomain is such labels joined by dots.
\<close>

definition is_lower :: "char \<Rightarrow> bool" where
  "is_lower c \<longleftrightarrow> CHR ''a'' \<le> c \<and> c \<le> CHR ''z''"

definition is_upper :: "char \<Rightarrow> bool" where
  "is_upper c \<longleftrightarrow> CHR ''A'' \<le> c \<and> c \<le> CHR ''Z''"

definition is_digit :: "char \<Rightarrow> bool" where
  "is_digit c \<longleftrightarrow> CHR ''0'' \<le> c \<and> c \<le> CHR ''9''"

definition is_lower_alnum :: "char \<Rightarrow> bool" where
  "is_lower_alnum c \<longleftrightarrow> is_lower c \<or> is_digit c"

definition dns1123_label :: "string \<Rightarrow> bool" where
  "dns1123_label s \<longleftrightarrow> s \<noteq> [] \<and> is_lower_alnum (hd s) \<and> is_lower_alnum (last s) \<and>
     list_all (\<lambda>c. is_lower_alnum c \<or> c = CHR ''-'') s"

fun split_on :: "char \<Rightarrow> string \<Rightarrow> string list" where
  "split_on c [] = [[]]"
| "split_on c (x # xs) =
     (if x = c then [] # split_on c xs
      else (case split_on c xs of [] \<Rightarrow> [[x]] | y # ys \<Rightarrow> (x # y) # ys))"

definition dns1123_subdomain :: "string \<Rightarrow> bool" where
  "dns1123_subdomain s \<longleftrightarrow> list_all dns1123_label (split_on CHR ''.'' s)"

text \<open>\<^verbatim>\<open>^[A-Z][a-zA-Z0-9]*$\<close>\<close>

definition kind_pattern :: "string \<Rightarrow> bool" where
  "kind_pattern s \<longleftrightarrow> s \<noteq> [] \<and> is_upper (hd s) \<and>
     list_all (\<lambda>c. is_lower c \<or> is_upper c \<or> is_digit c) (tl s)"

text \<open>\<^verbatim>\<open>^$|^v[0-9]+((alpha|beta)[0-9]+)?$\<close>\<close>

definition all_digits1 :: "string \<Rightarrow> bool" where
  "all_digits1 s \<longleftrightarrow> s \<noteq> [] \<and> list_all is_digit s"

definition version_suffix :: "string \<Rightarrow> bool" where
  "version_suffix s \<longleftrightarrow> s = [] \<or>
     (take 5 s = ''alpha'' \<and> all_digits1 (drop 5 s)) \<or>
     (take 4 s = ''beta'' \<and> all_digits1 (drop 4 s))"

definition version_pattern :: "string \<Rightarrow> bool" where
  "version_pattern s \<longleftrightarrow> s = [] \<or>
     (hd s = CHR ''v'' \<and> takeWhile is_digit (tl s) \<noteq> [] \<and>
      version_suffix (dropWhile is_digit (tl s)))"

definition admit_sourceRef :: "sourceRef \<Rightarrow> bool" where
  "admit_sourceRef s \<longleftrightarrow>
     (sr_Group s = [] \<or> dns1123_subdomain (sr_Group s)) \<and>
     version_pattern (sr_Version s) \<and>
     kind_pattern (sr_Kind s) \<and>
     dns1123_label (sr_Namespace s) \<and> length (sr_Namespace s) \<le> 63 \<and>
     dns1123_subdomain (sr_Name s) \<and> length (sr_Name s) \<le> 253"

text \<open>
  A field with \<^verbatim>\<open>omitempty\<close> is absent when empty, and an absent optional field is not
  validated.
\<close>

definition admit_dest_name :: "string \<Rightarrow> bool" where
  "admit_dest_name n \<longleftrightarrow> n = [] \<or> (dns1123_subdomain n \<and> length n \<le> 253)"

definition admit_projection :: "projection \<Rightarrow> bool" where
  "admit_projection p \<longleftrightarrow> admit_sourceRef (ps_Source (p_Spec p)) \<and>
     admit_dest_name (pd_Name (ps_Destination (p_Spec p)))"

text \<open>
  The two CEL rules: \<^verbatim>\<open>namespaces\<close> and \<^verbatim>\<open>namespaceSelector\<close> are mutually exclusive and one
  of them is set; \<^verbatim>\<open>listType=set\<close> makes the list duplicate-free.
\<close>

definition admit_clusterDestination :: "clusterProjectionDestination \<Rightarrow> bool" where
  "admit_clusterDestination d \<longleftrightarrow>
     \<not> (cpd_Namespaces d \<noteq> [] \<and> cpd_NamespaceSelector d \<noteq> None) \<and>
     (cpd_Namespaces d \<noteq> [] \<or> cpd_NamespaceSelector d \<noteq> None) \<and>
     distinct (cpd_Namespaces d) \<and> admit_dest_name (cpd_Name d)"

definition admit_clusterProjection :: "clusterProjection \<Rightarrow> bool" where
  "admit_clusterProjection cp \<longleftrightarrow> admit_sourceRef (cps_Source (cp_Spec cp)) \<and>
     admit_clusterDestination (cps_Destination (cp_Spec cp))"

section \<open>No slash in an admitted name\<close>

lemma split_on_set: "x \<in> set s \<Longrightarrow> x \<noteq> c \<Longrightarrow> \<exists>l \<in> set (split_on c s). x \<in> set l"
  by (induction s) (auto split: list.splits)

lemma lower_alnum_no_slash [simp]: "\<not> is_lower_alnum CHR ''/''"
  by (simp add: is_lower_alnum_def is_lower_def is_digit_def less_eq_char_def)

lemma dns1123_label_no_slash: "dns1123_label s \<Longrightarrow> CHR ''/'' \<notin> set s"
  by (auto simp: dns1123_label_def list_all_iff)

lemma dns1123_subdomain_no_slash: "dns1123_subdomain s \<Longrightarrow> CHR ''/'' \<notin> set s"
  using split_on_set [of "CHR ''/''" s "CHR ''.''"]
  by (auto simp: dns1123_subdomain_def list_all_iff dest: dns1123_label_no_slash)

lemma kind_pattern_no_slash: "kind_pattern s \<Longrightarrow> CHR ''/'' \<notin> set s"
  by (cases s)
    (auto simp: kind_pattern_def list_all_iff is_lower_def is_upper_def is_digit_def
      less_eq_char_def)

lemmas no_slash = dns1123_label_no_slash dns1123_subdomain_no_slash kind_pattern_no_slash

lemma admit_sourceRef_no_slash:
  assumes "admit_sourceRef s"
  shows "CHR ''/'' \<notin> set (sr_Group s)" and "CHR ''/'' \<notin> set (sr_Kind s)"
    and "CHR ''/'' \<notin> set (sr_Namespace s)" and "CHR ''/'' \<notin> set (sr_Name s)"
  using assms by (auto simp: admit_sourceRef_def dest: no_slash)

end
