(* ===== verification/Kube.thy ===== *)
theory Kube
  imports Api_Types
begin

text \<open>
  What the controller is written against: JSON objects as \<^verbatim>\<open>unstructured.Unstructured\<close>
  holds them, errors, and the third-party code it calls. That code (the API machinery's
  accessors, the controller-runtime client, the dynamic client, the REST mapper, the
  event recorder) is not part of the repository, so it enters as two records of
  functions: \<open>lib\<close> for pure library functions and \<open>deps\<close> for everything that talks to
  the API server, whose state is the unconstrained type variable \<open>'w\<close>. The documented
  behaviour of the pure part that some properties rely on is collected in \<open>lib_ok\<close>;
  nothing is assumed about the API server.
\<close>

section \<open>JSON objects\<close>

text \<open>
  Values of \<^verbatim>\<open>interface{}\<close> that a decoded object holds. \<^verbatim>\<open>reflect.DeepEqual\<close> on two of them
  is equality of the model: maps are compared by key, \<^verbatim>\<open>int64\<close> and \<^verbatim>\<open>float64\<close> are distinct
  dynamic types.
\<close>

datatype json =
    JNull
  | JBool bool
  | JInt int
  | JFloat real
  | JString string
  | JArray "json list"
  | JObject "(string, json) fmap"

type_synonym obj = "(string, json) fmap"

text \<open>Reading a Go map: the zero value for a missing key.\<close>

definition get_or_nil :: "obj \<Rightarrow> string \<Rightarrow> json" where
  "get_or_nil m k = (case fmlookup m k of None \<Rightarrow> JNull | Some v \<Rightarrow> v)"

definition get_or_empty :: "str_map \<Rightarrow> string \<Rightarrow> string" where
  "get_or_empty m k = (case fmlookup m k of None \<Rightarrow> '''' | Some v \<Rightarrow> v)"

text \<open>A nil map reads as an empty one.\<close>

definition nil_map :: "str_map option \<Rightarrow> str_map" where
  "nil_map m = (case m of None \<Rightarrow> fmempty | Some m' \<Rightarrow> m')"

lemma get_or_empty_upd [simp]:
  "get_or_empty (fmupd k v m) k' = (if k = k' then v else get_or_empty m k')"
  by (simp add: get_or_empty_def)

lemma nil_map_simps [simp]: "nil_map None = fmempty" "nil_map (Some m) = m"
  by (simp_all add: nil_map_def)

section \<open>Errors\<close>

datatype error =
    ApiError string string  \<comment> \<open>an API status error: its reason and its text\<close>
  | Errorf string           \<comment> \<open>\<^verbatim>\<open>fmt.Errorf\<close> without \<^verbatim>\<open>%w\<close>\<close>
  | Wrap string error       \<comment> \<open>\<^verbatim>\<open>fmt.Errorf("...: %w", err)\<close>\<close>

primrec Error :: "error \<Rightarrow> string" where
  "Error (ApiError _ msg) = msg"
| "Error (Errorf msg) = msg"
| "Error (Wrap pre e) = pre @ '': '' @ Error e"

section \<open>Identifiers\<close>

record gvk =
  gvk_Group :: string
  gvk_Version :: string
  gvk_Kind :: string

record gvr =
  gvr_Group :: string
  gvr_Version :: string
  gvr_Resource :: string

record groupKind =
  gk_Group :: string
  gk_Kind :: string

datatype restScope = RESTScopeNamespace | RESTScopeRoot

record restMapping =
  rm_Resource :: gvr
  rm_GroupVersionKind :: gvk
  rm_Scope :: restScope

record objectKey =
  ok_Namespace :: string
  ok_Name :: string

text \<open>\<^verbatim>\<open>labels.Selector\<close> is an interface; a value of it is its methods.\<close>

datatype selector = Selector (sel_Empty: bool) (sel_Matches: "str_map \<Rightarrow> bool")

record namespaceObj =
  ns_Name :: string
  ns_Labels :: str_map
  ns_DeletionTimestamp :: "int option"

section \<open>The pure library functions\<close>

text \<open>
  Accessors of \<^verbatim>\<open>unstructured.Unstructured\<close>, the finalizer helpers, \<^verbatim>\<open>SetStatusCondition\<close>,
  the selector conversion and the error classifiers. \<open>None\<close> stands for a nil map.
\<close>

record lib =
  GetAnnotations :: "obj \<Rightarrow> str_map option"
  SetAnnotations :: "obj \<Rightarrow> str_map \<Rightarrow> obj"
  GetLabels :: "obj \<Rightarrow> str_map option"
  SetLabels :: "obj \<Rightarrow> str_map \<Rightarrow> obj"
  GetNamespace :: "obj \<Rightarrow> string"
  SetNamespace :: "obj \<Rightarrow> string \<Rightarrow> obj"
  GetName :: "obj \<Rightarrow> string"
  SetName :: "obj \<Rightarrow> string \<Rightarrow> obj"
  GetResourceVersion :: "obj \<Rightarrow> string"
  SetResourceVersion :: "obj \<Rightarrow> string \<Rightarrow> obj"
  GroupVersionKind :: "obj \<Rightarrow> gvk"
  GVK_String :: "gvk \<Rightarrow> string"
  RemoveNestedField :: "obj \<Rightarrow> string list \<Rightarrow> obj"
  NestedFieldCopy :: "obj \<Rightarrow> string list \<Rightarrow> error + json option"
  SetNestedField :: "obj \<Rightarrow> json \<Rightarrow> string list \<Rightarrow> obj"
  ContainsFinalizer :: "objectMeta \<Rightarrow> string \<Rightarrow> bool"
  AddFinalizer :: "objectMeta \<Rightarrow> string \<Rightarrow> objectMeta"
  RemoveFinalizer :: "objectMeta \<Rightarrow> string \<Rightarrow> objectMeta"
  SetStatusCondition :: "condition list \<Rightarrow> condition \<Rightarrow> condition list"
  LabelSelectorAsSelector :: "labelSelector \<Rightarrow> error + selector"
  IsNotFound :: "error \<Rightarrow> bool"

section \<open>The API calls and their record\<close>

text \<open>
  Every call the controller makes to the outside is appended, with its result, to a
  list. The list is what the safety properties talk about: which objects were read
  before which object was written or deleted.
\<close>

datatype regarding = OnProjection projection | OnClusterProjection clusterProjection

datatype eventType = EventTypeNormal | EventTypeWarning

record event =
  ev_Regarding :: regarding
  ev_Type :: eventType
  ev_Reason :: string
  ev_Action :: string
  ev_Message :: string

datatype watchKind = SourceWatch | DestWatch string  \<comment> \<open>the UID label that filters it\<close>

datatype tier = Namespaced | ClusterTier

datatype call =
    GetProjection objectKey "error + projection"
  | UpdateProjection projection "error + projection"
  | StatusUpdateProjection projection "error + projection"
  | ListProjections string string "error + projection list"
  | GetClusterProjection string "error + clusterProjection"
  | UpdateClusterProjection clusterProjection "error + clusterProjection"
  | StatusUpdateClusterProjection clusterProjection "error + clusterProjection"
  | ListClusterProjections "(string \<times> string) option" "error + clusterProjection list"
  | ListNamespaces selector "error + namespaceObj list"
  | GetObject gvk objectKey "error + obj"
  | CreateObject obj "error + obj"
  | UpdateObject obj "error + obj"
  | DynGet gvr string string "error + obj"
  | DynList gvr string "error + obj list"
  | DynDelete gvr string string "error option"
  | RESTMap groupKind "string option" "error + restMapping"
  | Eventf event
  | Watch tier watchKind gvk "error option"

section \<open>The clients\<close>

text \<open>
  \<^verbatim>\<open>ControllerDeps\<close>: the typed client, the dynamic client, the REST mapper and the
  recorder (nil in tests), each operation a function of the outside state. The watch
  operation of the controller handle, the clock and the pure library stand beside them.
\<close>

record 'w deps =
  library :: lib
  client_Get_Projection :: "objectKey \<Rightarrow> 'w \<Rightarrow> (error + projection) \<times> 'w"
  client_Update_Projection :: "projection \<Rightarrow> 'w \<Rightarrow> (error + projection) \<times> 'w"
  client_StatusUpdate_Projection :: "projection \<Rightarrow> 'w \<Rightarrow> (error + projection) \<times> 'w"
  client_List_Projection :: "string \<Rightarrow> string \<Rightarrow> 'w \<Rightarrow> (error + projection list) \<times> 'w"
  client_Get_ClusterProjection :: "string \<Rightarrow> 'w \<Rightarrow> (error + clusterProjection) \<times> 'w"
  client_Update_ClusterProjection ::
    "clusterProjection \<Rightarrow> 'w \<Rightarrow> (error + clusterProjection) \<times> 'w"
  client_StatusUpdate_ClusterProjection ::
    "clusterProjection \<Rightarrow> 'w \<Rightarrow> (error + clusterProjection) \<times> 'w"
  client_List_ClusterProjection ::
    "(string \<times> string) option \<Rightarrow> 'w \<Rightarrow> (error + clusterProjection list) \<times> 'w"
  client_List_Namespace :: "selector \<Rightarrow> 'w \<Rightarrow> (error + namespaceObj list) \<times> 'w"
  client_Get :: "gvk \<Rightarrow> objectKey \<Rightarrow> 'w \<Rightarrow> (error + obj) \<times> 'w"
  client_Create :: "obj \<Rightarrow> 'w \<Rightarrow> (error + obj) \<times> 'w"
  client_Update :: "obj \<Rightarrow> 'w \<Rightarrow> (error + obj) \<times> 'w"
  dyn_Get :: "gvr \<Rightarrow> string \<Rightarrow> string \<Rightarrow> 'w \<Rightarrow> (error + obj) \<times> 'w"
  dyn_List :: "gvr \<Rightarrow> string \<Rightarrow> 'w \<Rightarrow> (error + obj list) \<times> 'w"
  dyn_Delete :: "gvr \<Rightarrow> string \<Rightarrow> string \<Rightarrow> 'w \<Rightarrow> error option \<times> 'w"
  RESTMapping :: "groupKind \<Rightarrow> string option \<Rightarrow> 'w \<Rightarrow> (error + restMapping) \<times> 'w"
  Recorder :: "(event \<Rightarrow> 'w \<Rightarrow> 'w) option"
  controller_Watch :: "tier \<Rightarrow> watchKind \<Rightarrow> gvk \<Rightarrow> 'w \<Rightarrow> error option \<times> 'w"
  clock_Now :: "'w \<Rightarrow> int"

end
