(* ===== verification/Library.thy ===== *)
theory Library
  imports Kube
begin

text \<open>
  The documented behaviour of the API machinery's pure functions, as the predicate
  \<open>lib_ok\<close> on the record of library functions, stated over paths into JSON objects; the
  facts the components use of it; and a library that satisfies it.
\<close>

section \<open>Paths into objects\<close>

definition metadata_of :: "obj \<Rightarrow> obj option" where
  "metadata_of x = (case fmlookup x ''metadata'' of Some (JObject m) \<Rightarrow> Some m | _ \<Rightarrow> None)"

definition with_metadata :: "obj \<Rightarrow> obj \<Rightarrow> obj" where
  "with_metadata x m = fmupd ''metadata'' (JObject m) x"

fun get_path :: "string list \<Rightarrow> obj \<Rightarrow> json option" where
  "get_path [] x = Some (JObject x)"
| "get_path [k] x = fmlookup x k"
| "get_path (k # k' # ks) x =
     (case fmlookup x k of Some (JObject m) \<Rightarrow> get_path (k' # ks) m | _ \<Rightarrow> None)"

fun remove_path :: "string list \<Rightarrow> obj \<Rightarrow> obj" where
  "remove_path [] x = x"
| "remove_path [k] x = fmdrop k x"
| "remove_path (k # k' # ks) x =
     (case fmlookup x k of
        Some (JObject m) \<Rightarrow> fmupd k (JObject (remove_path (k' # ks) m)) x
      | _ \<Rightarrow> x)"

fun set_path :: "string list \<Rightarrow> json \<Rightarrow> obj \<Rightarrow> obj" where
  "set_path [] v x = x"
| "set_path [k] v x = fmupd k v x"
| "set_path (k # k' # ks) v x =
     (case fmlookup x k of
        None \<Rightarrow> fmupd k (JObject (set_path (k' # ks) v fmempty)) x
      | Some (JObject m) \<Rightarrow> fmupd k (JObject (set_path (k' # ks) v m)) x
      | Some _ \<Rightarrow> x)"

text \<open>String-valued readings of a field: wrong types read as absent.\<close>

definition read_str :: "json option \<Rightarrow> string" where
  "read_str v = (case v of Some (JString s) \<Rightarrow> s | _ \<Rightarrow> '''')"

text \<open>Setting a string field of the metadata; the empty string removes it.\<close>

definition set_str :: "string \<Rightarrow> string \<Rightarrow> obj \<Rightarrow> obj" where
  "set_str f v m = (if v = '''' then fmdrop f m else fmupd f (JString v) m)"

definition un_str :: "json \<Rightarrow> string" where
  "un_str v = (case v of JString s \<Rightarrow> s | _ \<Rightarrow> '''')"

definition is_str :: "json \<Rightarrow> bool" where
  "is_str v = (case v of JString _ \<Rightarrow> True | _ \<Rightarrow> False)"

definition read_str_map :: "json option \<Rightarrow> str_map option" where
  "read_str_map v = (case v of
     Some (JObject a) \<Rightarrow> if fmpred (\<lambda>_ x. is_str x) a then Some (fmmap un_str a) else None
   | _ \<Rightarrow> None)"

definition find_condition :: "condition list \<Rightarrow> string \<Rightarrow> condition option" where
  "find_condition cs t = find (\<lambda>c. c_Type c = t) cs"

lemma fmpred_fmmap_JString: "fmpred (\<lambda>_ x. is_str x) (fmmap JString a)"
  by (rule fmpredI) (auto simp: is_str_def)

lemma fmmap_un_str [simp]: "fmmap un_str (fmmap JString a) = a"
  by (rule fmap_ext) (simp add: option.map_comp comp_def un_str_def option.map_ident)

lemma read_str_map_simps [simp]:
  "read_str_map None = None"
  "read_str_map (Some (JObject (fmmap JString a))) = Some a"
  using fmpred_fmmap_JString [of a] by (simp_all add: read_str_map_def)

lemma read_str_simps [simp]: "read_str None = ''''" "read_str (Some (JString s)) = s"
  by (simp_all add: read_str_def)

lemma lookup_set_str [simp]:
  "fmlookup (set_str f v m) k =
     (if k = f then (if v = '''' then None else Some (JString v)) else fmlookup m k)"
  by (simp add: set_str_def)

lemma read_set_str [simp]: "read_str (fmlookup (set_str f v m) f) = v"
  by simp

lemma metadata_of_with [simp]: "metadata_of (with_metadata x m) = Some m"
  by (simp add: metadata_of_def with_metadata_def)

lemma metadata_of_upd [simp]:
  "k \<noteq> ''metadata'' \<Longrightarrow> metadata_of (fmupd k v x) = metadata_of x"
  "k \<noteq> ''metadata'' \<Longrightarrow> metadata_of (fmdrop k x) = metadata_of x"
  by (simp_all add: metadata_of_def)

lemma with_metadata_idem [simp]: "with_metadata (with_metadata x m) m' = with_metadata x m'"
  by (simp add: with_metadata_def)

lemma lookup_with_metadata [simp]:
  "k \<noteq> ''metadata'' \<Longrightarrow> fmlookup (with_metadata x m) k = fmlookup x k"
  by (simp add: with_metadata_def)

section \<open>Laws of paths\<close>

lemma lookup_remove_path_other [simp]:
  "ks \<noteq> [] \<Longrightarrow> hd ks \<noteq> k \<Longrightarrow> fmlookup (remove_path ks x) k = fmlookup x k"
  by (induction ks x rule: remove_path.induct) (auto split: option.splits json.splits)

lemma lookup_set_path_other [simp]:
  "ks \<noteq> [] \<Longrightarrow> hd ks \<noteq> k \<Longrightarrow> fmlookup (set_path ks v x) k = fmlookup x k"
  by (cases "(ks, v, x)" rule: set_path.cases) (auto split: option.splits json.splits)

lemma get_path_remove_path: "ks \<noteq> [] \<Longrightarrow> get_path ks (remove_path ks x) = None"
  by (induction ks x rule: remove_path.induct) (auto split: option.splits json.splits)

lemma metadata_of_remove_path [simp]:
  "ks \<noteq> [] \<Longrightarrow> hd ks \<noteq> ''metadata'' \<Longrightarrow> metadata_of (remove_path ks x) = metadata_of x"
  by (simp add: metadata_of_def)

section \<open>The documented behaviour\<close>

definition accessors_ok :: "lib \<Rightarrow> bool" where
  "accessors_ok L \<longleftrightarrow> (\<forall>x m. metadata_of x = Some m \<longrightarrow>
     GetAnnotations L x = read_str_map (fmlookup m ''annotations'') \<and>
     GetLabels L x = read_str_map (fmlookup m ''labels'') \<and>
     GetNamespace L x = read_str (fmlookup m ''namespace'') \<and>
     GetName L x = read_str (fmlookup m ''name'') \<and>
     GetResourceVersion L x = read_str (fmlookup m ''resourceVersion'') \<and>
     (\<forall>a. SetAnnotations L x a =
        with_metadata x (fmupd ''annotations'' (JObject (fmmap JString a)) m)) \<and>
     (\<forall>a. SetLabels L x a =
        with_metadata x (fmupd ''labels'' (JObject (fmmap JString a)) m)) \<and>
     (\<forall>v. SetNamespace L x v = with_metadata x (set_str ''namespace'' v m)) \<and>
     (\<forall>v. SetName L x v = with_metadata x (set_str ''name'' v m)) \<and>
     (\<forall>v. SetResourceVersion L x v = with_metadata x (set_str ''resourceVersion'' v m)))"

definition paths_ok :: "lib \<Rightarrow> bool" where
  "paths_ok L \<longleftrightarrow> (\<forall>x ks. ks \<noteq> [] \<longrightarrow>
     RemoveNestedField L x ks = remove_path ks x \<and>
     (\<forall>v. NestedFieldCopy L x ks = Inr (Some v) \<longleftrightarrow> get_path ks x = Some v) \<and>
     (\<forall>v. SetNestedField L x v ks = set_path ks v x))"

definition gvk_ok :: "lib \<Rightarrow> bool" where
  "gvk_ok L \<longleftrightarrow> (\<forall>x y. fmlookup x ''apiVersion'' = fmlookup y ''apiVersion'' \<longrightarrow>
     fmlookup x ''kind'' = fmlookup y ''kind'' \<longrightarrow> GroupVersionKind L x = GroupVersionKind L y)"

definition finalizers_ok :: "lib \<Rightarrow> bool" where
  "finalizers_ok L \<longleftrightarrow> (\<forall>m f.
     (ContainsFinalizer L m f \<longleftrightarrow> f \<in> set (m_Finalizers m)) \<and>
     AddFinalizer L m f = (if f \<in> set (m_Finalizers m) then m
                           else m\<lparr>m_Finalizers := m_Finalizers m @ [f]\<rparr>) \<and>
     RemoveFinalizer L m f = m\<lparr>m_Finalizers := filter (\<lambda>g. g \<noteq> f) (m_Finalizers m)\<rparr>)"

definition conditions_ok :: "lib \<Rightarrow> bool" where
  "conditions_ok L \<longleftrightarrow> (\<forall>cs c t. find_condition (SetStatusCondition L cs c) t =
     (if t = c_Type c then Some c else find_condition cs t))"

definition lib_ok :: "lib \<Rightarrow> bool" where
  "lib_ok L \<longleftrightarrow> accessors_ok L \<and> paths_ok L \<and> gvk_ok L \<and> finalizers_ok L \<and> conditions_ok L"

lemmas lib_ok_parts = lib_ok_def accessors_ok_def paths_ok_def finalizers_ok_def conditions_ok_def

lemma lib_getters:
  assumes "lib_ok L" and "metadata_of x = Some m"
  shows "GetAnnotations L x = read_str_map (fmlookup m ''annotations'')"
    and "GetLabels L x = read_str_map (fmlookup m ''labels'')"
    and "GetNamespace L x = read_str (fmlookup m ''namespace'')"
    and "GetName L x = read_str (fmlookup m ''name'')"
    and "GetResourceVersion L x = read_str (fmlookup m ''resourceVersion'')"
  using assms by (simp_all add: lib_ok_def accessors_ok_def)

lemma lib_setters:
  assumes "lib_ok L" and "metadata_of x = Some m"
  shows "SetAnnotations L x a =
      with_metadata x (fmupd ''annotations'' (JObject (fmmap JString a)) m)"
    and "SetLabels L x a = with_metadata x (fmupd ''labels'' (JObject (fmmap JString a)) m)"
    and "SetNamespace L x v = with_metadata x (set_str ''namespace'' v m)"
    and "SetName L x v = with_metadata x (set_str ''name'' v m)"
    and "SetResourceVersion L x v = with_metadata x (set_str ''resourceVersion'' v m)"
  using assms by (simp_all add: lib_ok_def accessors_ok_def)

lemma lib_paths:
  assumes "lib_ok L" and "ks \<noteq> []"
  shows "RemoveNestedField L x ks = remove_path ks x"
    and "NestedFieldCopy L x ks = Inr (Some v) \<longleftrightarrow> get_path ks x = Some v"
    and "SetNestedField L x v ks = set_path ks v x"
  using assms by (simp_all add: lib_ok_def paths_ok_def)

lemma lib_gvk:
  assumes "lib_ok L" and "fmlookup x ''apiVersion'' = fmlookup y ''apiVersion''"
    and "fmlookup x ''kind'' = fmlookup y ''kind''"
  shows "GroupVersionKind L x = GroupVersionKind L y"
  using assms unfolding lib_ok_def gvk_ok_def by blast

lemma lib_finalizers:
  assumes "lib_ok L"
  shows "ContainsFinalizer L m f \<longleftrightarrow> f \<in> set (m_Finalizers m)"
    and "AddFinalizer L m f = (if f \<in> set (m_Finalizers m) then m
                               else m\<lparr>m_Finalizers := m_Finalizers m @ [f]\<rparr>)"
    and "RemoveFinalizer L m f = m\<lparr>m_Finalizers := filter (\<lambda>g. g \<noteq> f) (m_Finalizers m)\<rparr>"
  using assms unfolding lib_ok_def finalizers_ok_def by blast+

lemma lib_conditions:
  assumes "lib_ok L"
  shows "find_condition (SetStatusCondition L cs c) t =
     (if t = c_Type c then Some c else find_condition cs t)"
  using assms by (simp add: lib_ok_def conditions_ok_def)

section \<open>A library with this behaviour\<close>

text \<open>
  A concrete library, used where a property that assumes \<open>lib_ok\<close> is applied to a
  concrete input. Selectors are read from \<^verbatim>\<open>matchLabels\<close> only.
\<close>

definition ref_get :: "(json option \<Rightarrow> 'a) \<Rightarrow> string \<Rightarrow> obj \<Rightarrow> 'a" where
  "ref_get rd f x = (case metadata_of x of None \<Rightarrow> rd None | Some m \<Rightarrow> rd (fmlookup m f))"

definition ref_set :: "(obj \<Rightarrow> obj) \<Rightarrow> obj \<Rightarrow> obj" where
  "ref_set f x =
     with_metadata x (f (case metadata_of x of None \<Rightarrow> fmempty | Some m \<Rightarrow> m))"

definition ref_gvk :: "obj \<Rightarrow> gvk" where
  "ref_gvk x = (let av = read_str (fmlookup x ''apiVersion''); k = read_str (fmlookup x ''kind'')
     in if CHR ''/'' \<in> set av
        then \<lparr>gvk_Group = takeWhile (\<lambda>c. c \<noteq> CHR ''/'') av,
              gvk_Version = tl (dropWhile (\<lambda>c. c \<noteq> CHR ''/'') av), gvk_Kind = k\<rparr>
        else \<lparr>gvk_Group = '''', gvk_Version = av, gvk_Kind = k\<rparr>)"

fun ref_SetStatusCondition :: "condition list \<Rightarrow> condition \<Rightarrow> condition list" where
  "ref_SetStatusCondition [] c = [c]"
| "ref_SetStatusCondition (d # ds) c =
     (if c_Type d = c_Type c then c # ds else d # ref_SetStatusCondition ds c)"

definition ref_lib :: lib where
  "ref_lib = \<lparr>
     GetAnnotations = ref_get read_str_map ''annotations'',
     SetAnnotations = (\<lambda>x a. ref_set (fmupd ''annotations'' (JObject (fmmap JString a))) x),
     GetLabels = ref_get read_str_map ''labels'',
     SetLabels = (\<lambda>x a. ref_set (fmupd ''labels'' (JObject (fmmap JString a))) x),
     GetNamespace = ref_get read_str ''namespace'',
     SetNamespace = (\<lambda>x v. ref_set (set_str ''namespace'' v) x),
     GetName = ref_get read_str ''name'',
     SetName = (\<lambda>x v. ref_set (set_str ''name'' v) x),
     GetResourceVersion = ref_get read_str ''resourceVersion'',
     SetResourceVersion = (\<lambda>x v. ref_set (set_str ''resourceVersion'' v) x),
     GroupVersionKind = ref_gvk,
     GVK_String = (\<lambda>g. gvk_Group g @ ''/'' @ gvk_Version g @ '', Kind='' @ gvk_Kind g),
     RemoveNestedField = (\<lambda>x ks. remove_path ks x),
     NestedFieldCopy = (\<lambda>x ks. Inr (get_path ks x)),
     SetNestedField = (\<lambda>x v ks. set_path ks v x),
     ContainsFinalizer = (\<lambda>m f. f \<in> set (m_Finalizers m)),
     AddFinalizer = (\<lambda>m f. if f \<in> set (m_Finalizers m) then m
                           else m\<lparr>m_Finalizers := m_Finalizers m @ [f]\<rparr>),
     RemoveFinalizer = (\<lambda>m f. m\<lparr>m_Finalizers := filter (\<lambda>g. g \<noteq> f) (m_Finalizers m)\<rparr>),
     SetStatusCondition = ref_SetStatusCondition,
     LabelSelectorAsSelector = (\<lambda>s. if ls_MatchExpressions s \<noteq> []
        then Inl (Errorf ''matchExpressions'')
        else Inr (Selector (ls_MatchLabels s = fmempty)
               (\<lambda>m. fmpred (\<lambda>k v. fmlookup m k = Some v) (ls_MatchLabels s)))),
     IsNotFound = (\<lambda>e. case e of ApiError r _ \<Rightarrow> r = ''NotFound'' | _ \<Rightarrow> False)\<rparr>"

lemma find_ref_SetStatusCondition:
  "find_condition (ref_SetStatusCondition cs c) t =
     (if t = c_Type c then Some c else find_condition cs t)"
  by (induction cs) (auto simp: find_condition_def)

lemma ref_lib_ok: "lib_ok ref_lib"
  unfolding lib_ok_def
proof (intro conjI)
  show "accessors_ok ref_lib" by (simp add: accessors_ok_def ref_lib_def ref_get_def ref_set_def)
  show "paths_ok ref_lib" by (simp add: paths_ok_def ref_lib_def)
  show "gvk_ok ref_lib" by (simp add: gvk_ok_def ref_lib_def ref_gvk_def)
  show "finalizers_ok ref_lib" by (simp add: finalizers_ok_def ref_lib_def)
  show "conditions_ok ref_lib"
    by (simp add: conditions_ok_def ref_lib_def find_ref_SetStatusCondition)
qed

section \<open>Removing several paths\<close>

lemma get_path_Cons:
  "get_path (k # ks) x =
     (case fmlookup x k of
        None \<Rightarrow> None
      | Some v \<Rightarrow> (if ks = [] then Some v else case v of JObject m \<Rightarrow> get_path ks m | _ \<Rightarrow> None))"
  by (cases ks) (auto split: option.splits json.splits)

text \<open>A path that is absent stays absent when another is removed.\<close>

lemma get_path_remove_None:
  "get_path ps x = None \<Longrightarrow> get_path ps (remove_path qs x) = None"
proof (induction qs x arbitrary: ps rule: remove_path.induct)
  case (2 k x)
  then show ?case by (cases ps) (auto simp: get_path_Cons split: option.splits)
next
  case (3 k k' ks x)
  show ?case
  proof (cases ps)
    case (Cons p ps')
    with 3 show ?thesis
      by (auto simp: get_path_Cons split: option.splits json.splits if_splits)
  qed (use 3 in simp)
qed simp

lemma get_path_removed:
  assumes "lib_ok L" and "\<And>q. q \<in> set qs \<Longrightarrow> q \<noteq> []" and "p \<in> set qs \<or> get_path p x = None"
  shows "get_path p (fold (\<lambda>path d. RemoveNestedField L d path) qs x) = None"
  using assms(2,3)
proof (induction qs arbitrary: x)
  case (Cons q qs)
  have "RemoveNestedField L x q = remove_path q x"
    using Cons.prems(1) by (simp add: lib_paths [OF assms(1)])
  moreover have "p \<in> set qs \<or> get_path p (remove_path q x) = None"
    using Cons.prems by (auto simp: get_path_remove_path get_path_remove_None)
  ultimately show ?case using Cons by simp
qed simp

section \<open>Paths that part\<close>

text \<open>Neither path leads through the other: they differ at some field that both have.\<close>

fun apart :: "string list \<Rightarrow> string list \<Rightarrow> bool" where
  "apart (a # p) (b # q) \<longleftrightarrow> a \<noteq> b \<or> apart p q"
| "apart _ _ \<longleftrightarrow> False"

lemma apart_sym: "apart p q \<Longrightarrow> apart q p"
  by (induction p q rule: apart.induct) auto

lemma apart_Nil [simp]: "\<not> apart p []"
  by (cases p) auto

text \<open>Removing a field leaves everything alone that is not on its path.\<close>

lemma get_path_remove_apart: "apart p q \<Longrightarrow> get_path p (remove_path q x) = get_path p x"
proof (induction p arbitrary: q x)
  case (Cons a p)
  then obtain b q' where q: "q = b # q'" by (cases q) auto
  show ?case
  proof (cases "a = b")
    case True
    with Cons.prems q have ap: "apart p q'" by simp
    then obtain c p' d q'' where pq: "p = c # p'" "q' = d # q''" by (cases p; cases q') auto
    with Cons.IH [OF ap] True show ?thesis
      by (auto simp: q get_path_Cons [of a] split: option.splits json.splits)
  next
    case False
    then have "fmlookup (remove_path q x) a = fmlookup x a" by (simp add: q)
    then show ?thesis by (simp add: get_path_Cons [of a])
  qed
qed simp

lemma get_path_removed_apart:
  assumes "lib_ok L" and "list_all (apart p) qs"
  shows "get_path p (fold (\<lambda>path d. RemoveNestedField L d path) qs x) = get_path p x"
  using assms(2)
proof (induction qs arbitrary: x)
  case (Cons q qs)
  then have "q \<noteq> []" by auto
  with Cons show ?case by (simp add: lib_paths [OF assms(1)] get_path_remove_apart)
qed simp

end
