(* ===== verification/Runtime.thy ===== *)
theory Runtime
  imports Library
begin

text \<open>
  The state a running controller process has: the outside world, the calls made to it,
  the two reconcilers (\<^verbatim>\<open>projection_controller.go\<close>, \<^verbatim>\<open>cluster_projection_controller.go\<close>) and
  the metrics of \<^verbatim>\<open>metrics.go\<close>; the operations that call out and record the call; and
  \<^verbatim>\<open>emit\<close> of \<^verbatim>\<open>deps.go\<close>.
\<close>

section \<open>The reconcilers\<close>

text \<open>
  \<^verbatim>\<open>ProjectionReconciler\<close>. The controller handle and the cache are present or nil; the two
  watch maps are Go maps, \<open>None\<close> when nil. Durations are nanoseconds.
\<close>

record projectionReconciler =
  pr_SourceMode :: string
  pr_RequeueInterval :: int
  pr_Controller :: bool
  pr_Cache :: bool
  pr_watched :: "(gvk, bool) fmap option"
  pr_watchedDests :: "(gvk, bool) fmap option"

record clusterProjectionReconciler =
  cpr_SourceMode :: string
  cpr_RequeueInterval :: int
  cpr_SelectorWriteConcurrency :: int
  cpr_Controller :: bool
  cpr_Cache :: bool
  cpr_watched :: "(gvk, bool) fmap option"
  cpr_watchedDests :: "(gvk, bool) fmap option"

text \<open>\<^verbatim>\<open>ctrl.Result\<close> with the error of a reconcile; a zero \<^verbatim>\<open>RequeueAfter\<close> is no requeue.\<close>

record ctrl_result =
  RequeueAfter :: int

definition Result_empty :: ctrl_result where
  "Result_empty = \<lparr>RequeueAfter = 0\<rparr>"

type_synonym reconcile_result = "ctrl_result \<times> error option"

section \<open>The process state\<close>

record 'w sys =
  world :: 'w
  calls :: "call list"
  np :: projectionReconciler
  cpr :: clusterProjectionReconciler
  reconcileTotal :: "string \<times> string \<Rightarrow> nat"
  watchedGvks :: nat
  watchedDestGvks :: nat
  e2eSeconds :: "(string \<times> string \<times> int) list"

type_synonym ('w, 'a) action = "('w sys, 'a) state"

section \<open>Calling out\<close>

definition api_call :: "('w \<Rightarrow> 'r \<times> 'w) \<Rightarrow> ('r \<Rightarrow> call) \<Rightarrow> ('w, 'r) action" where
  "api_call f c = State (\<lambda>s. case f (world s) of
     (r, w') \<Rightarrow> (r, s\<lparr>world := w', calls := calls s @ [c r]\<rparr>))"

definition get_Projection :: "'w deps \<Rightarrow> objectKey \<Rightarrow> ('w, error + projection) action" where
  "get_Projection D k = api_call (client_Get_Projection D k) (GetProjection k)"

definition update_Projection :: "'w deps \<Rightarrow> projection \<Rightarrow> ('w, error + projection) action" where
  "update_Projection D p = api_call (client_Update_Projection D p) (UpdateProjection p)"

definition statusUpdate_Projection ::
  "'w deps \<Rightarrow> projection \<Rightarrow> ('w, error + projection) action" where
  "statusUpdate_Projection D p =
     api_call (client_StatusUpdate_Projection D p) (StatusUpdateProjection p)"

definition list_Projection ::
  "'w deps \<Rightarrow> string \<Rightarrow> string \<Rightarrow> ('w, error + projection list) action" where
  "list_Projection D f v = api_call (client_List_Projection D f v) (ListProjections f v)"

definition get_ClusterProjection ::
  "'w deps \<Rightarrow> string \<Rightarrow> ('w, error + clusterProjection) action" where
  "get_ClusterProjection D n = api_call (client_Get_ClusterProjection D n) (GetClusterProjection n)"

definition update_ClusterProjection ::
  "'w deps \<Rightarrow> clusterProjection \<Rightarrow> ('w, error + clusterProjection) action" where
  "update_ClusterProjection D c =
     api_call (client_Update_ClusterProjection D c) (UpdateClusterProjection c)"

definition statusUpdate_ClusterProjection ::
  "'w deps \<Rightarrow> clusterProjection \<Rightarrow> ('w, error + clusterProjection) action" where
  "statusUpdate_ClusterProjection D c =
     api_call (client_StatusUpdate_ClusterProjection D c) (StatusUpdateClusterProjection c)"

definition list_ClusterProjection ::
  "'w deps \<Rightarrow> (string \<times> string) option \<Rightarrow> ('w, error + clusterProjection list) action" where
  "list_ClusterProjection D f =
     api_call (client_List_ClusterProjection D f) (ListClusterProjections f)"

definition list_Namespace ::
  "'w deps \<Rightarrow> selector \<Rightarrow> ('w, error + namespaceObj list) action" where
  "list_Namespace D sel = api_call (client_List_Namespace D sel) (ListNamespaces sel)"

definition get_Object :: "'w deps \<Rightarrow> gvk \<Rightarrow> objectKey \<Rightarrow> ('w, error + obj) action" where
  "get_Object D g k = api_call (client_Get D g k) (GetObject g k)"

definition create_Object :: "'w deps \<Rightarrow> obj \<Rightarrow> ('w, error + obj) action" where
  "create_Object D x = api_call (client_Create D x) (CreateObject x)"

definition update_Object :: "'w deps \<Rightarrow> obj \<Rightarrow> ('w, error + obj) action" where
  "update_Object D x = api_call (client_Update D x) (UpdateObject x)"

definition dynamic_Get :: "'w deps \<Rightarrow> gvr \<Rightarrow> string \<Rightarrow> string \<Rightarrow> ('w, error + obj) action" where
  "dynamic_Get D g ns n = api_call (dyn_Get D g ns n) (DynGet g ns n)"

definition dynamic_List :: "'w deps \<Rightarrow> gvr \<Rightarrow> string \<Rightarrow> ('w, error + obj list) action" where
  "dynamic_List D g sel = api_call (dyn_List D g sel) (DynList g sel)"

definition dynamic_Delete ::
  "'w deps \<Rightarrow> gvr \<Rightarrow> string \<Rightarrow> string \<Rightarrow> ('w, error option) action" where
  "dynamic_Delete D g ns n = api_call (dyn_Delete D g ns n) (DynDelete g ns n)"

definition rest_Mapping ::
  "'w deps \<Rightarrow> groupKind \<Rightarrow> string option \<Rightarrow> ('w, error + restMapping) action" where
  "rest_Mapping D gk v = api_call (RESTMapping D gk v) (RESTMap gk v)"

definition watch :: "'w deps \<Rightarrow> tier \<Rightarrow> watchKind \<Rightarrow> gvk \<Rightarrow> ('w, error option) action" where
  "watch D t k g = api_call (controller_Watch D t k g) (Watch t k g)"

lemmas call_defs =
  get_Projection_def update_Projection_def statusUpdate_Projection_def list_Projection_def
  get_ClusterProjection_def update_ClusterProjection_def statusUpdate_ClusterProjection_def
  list_ClusterProjection_def list_Namespace_def get_Object_def create_Object_def
  update_Object_def dynamic_Get_def dynamic_List_def dynamic_Delete_def rest_Mapping_def watch_def

lemma wp_api_call [wp_rules]:
  "wp (api_call f c) Q s =
     (case f (world s) of (r, w') \<Rightarrow> Q r (s\<lparr>world := w', calls := calls s @ [c r]\<rparr>))"
  by (simp add: wp_def api_call_def split: prod.splits)

section \<open>\<^verbatim>\<open>deps.go\<close>: emit\<close>

definition emit ::
  "'w deps \<Rightarrow> regarding \<Rightarrow> eventType \<Rightarrow> string \<Rightarrow> string \<Rightarrow> string \<Rightarrow> ('w, unit) action" where
  "emit D regarding eventType reason action message =
     (case Recorder D of
        None \<Rightarrow> State_Monad.return ()
      | Some rec \<Rightarrow>
          (let ev = \<lparr>ev_Regarding = regarding, ev_Type = eventType, ev_Reason = reason,
                     ev_Action = action, ev_Message = message\<rparr>
           in api_call (\<lambda>w. ((), rec ev w)) (\<lambda>_. Eventf ev)))"

section \<open>\<^verbatim>\<open>metrics.go\<close>\<close>

definition resultSuccess :: string where "resultSuccess = ''success''"
definition resultConflict :: string where "resultConflict = ''conflict''"
definition resultSourceError :: string where "resultSourceError = ''source_error''"
definition resultDestinationError :: string where
  "resultDestinationError = ''destination_error''"

definition kindProjection :: string where "kindProjection = ''Projection''"
definition kindClusterProjection :: string where "kindClusterProjection = ''ClusterProjection''"

definition eventCreate :: string where "eventCreate = ''create''"

lemmas metric_labels =
  resultSuccess_def resultConflict_def resultSourceError_def resultDestinationError_def
  kindProjection_def kindClusterProjection_def eventCreate_def

text \<open>\<^verbatim>\<open>reconcileTotal.WithLabelValues(kind, result).Inc()\<close>\<close>

definition inc_reconcileTotal :: "string \<Rightarrow> string \<Rightarrow> ('w, unit) action" where
  "inc_reconcileTotal kind result = State_Monad.update (\<lambda>s. s\<lparr>reconcileTotal :=
     (reconcileTotal s)((kind, result) := Suc (reconcileTotal s (kind, result)))\<rparr>)"

definition inc_watchedGvks :: "('w, unit) action" where
  "inc_watchedGvks = State_Monad.update (\<lambda>s. s\<lparr>watchedGvks := Suc (watchedGvks s)\<rparr>)"

definition inc_watchedDestGvks :: "('w, unit) action" where
  "inc_watchedDestGvks =
     State_Monad.update (\<lambda>s. s\<lparr>watchedDestGvks := Suc (watchedDestGvks s)\<rparr>)"

text \<open>
  \<^verbatim>\<open>e2eSeconds.WithLabelValues(kind, event).Observe(time.Since(created))\<close>: the observation
  is kept in nanoseconds, the clock's reading less the creation time.
\<close>

definition observe_e2eSeconds :: "'w deps \<Rightarrow> string \<Rightarrow> string \<Rightarrow> int \<Rightarrow> ('w, unit) action" where
  "observe_e2eSeconds D kind evt created = State_Monad.update (\<lambda>s. s\<lparr>e2eSeconds :=
     e2eSeconds s @ [(kind, evt, clock_Now D (world s) - created)]\<rparr>)"

lemmas metric_defs =
  inc_reconcileTotal_def inc_watchedGvks_def inc_watchedDestGvks_def observe_e2eSeconds_def

section \<open>Which calls a computation makes\<close>

text \<open>
  \<open>makes P m\<close>: the computation only appends calls, and every call it appends satisfies
  \<open>P\<close>. The rules are compositional, so that a handler's calls are bounded by walking
  through its text.
\<close>

named_theorems makes_rules \<open>rules for makes\<close>

definition makes :: "(call \<Rightarrow> bool) \<Rightarrow> ('w, 'a) action \<Rightarrow> bool" where
  "makes P m \<longleftrightarrow> (\<forall>s. wp m (\<lambda>_ t. \<exists>cs. calls t = calls s @ cs \<and> list_all P cs) s)"

lemma makes_return [makes_rules]: "makes P (State_Monad.return x)"
  by (simp add: makes_def wp_rules)

lemma makes_get [makes_rules]: "makes P State_Monad.get"
  by (simp add: makes_def wp_rules)

lemma makes_bind [makes_rules]:
  fixes m :: "('w, 'a) action" and f :: "'a \<Rightarrow> ('w, 'b) action"
  assumes "makes P m" and "\<And>a. makes P (f a)"
  shows "makes P (State_Monad.bind m f)"
  unfolding makes_def
proof
  fix s :: "'w sys"
  from assms(1) have "wp m (\<lambda>_ t. \<exists>cs. calls t = calls s @ cs \<and> list_all P cs) s"
    by (simp add: makes_def)
  then have "wp m (\<lambda>a t. wp (f a) (\<lambda>_ u. \<exists>cs. calls u = calls s @ cs \<and> list_all P cs) t) s"
  proof (rule wp_mono)
    fix a and t :: "'w sys"
    assume "\<exists>cs. calls t = calls s @ cs \<and> list_all P cs"
    then obtain cs where cs: "calls t = calls s @ cs" "list_all P cs" by blast
    from assms(2) have "wp (f a) (\<lambda>_ u. \<exists>ds. calls u = calls t @ ds \<and> list_all P ds) t"
      by (simp add: makes_def)
    then show "wp (f a) (\<lambda>_ u. \<exists>cs. calls u = calls s @ cs \<and> list_all P cs) t"
      by (rule wp_mono) (auto simp: cs)
  qed
  then show "wp (State_Monad.bind m f) (\<lambda>_ t. \<exists>cs. calls t = calls s @ cs \<and> list_all P cs) s"
    by (simp only: wp_bind)
qed

lemma makes_if [makes_rules]: "makes P m \<Longrightarrow> makes P n \<Longrightarrow> makes P (if b then m else n)"
  by simp

lemma makes_case_sum [makes_rules]:
  "(\<And>e. makes P (f e)) \<Longrightarrow> (\<And>v. makes P (g v)) \<Longrightarrow> makes P (case x of Inl e \<Rightarrow> f e | Inr v \<Rightarrow> g v)"
  by (cases x) auto

lemma makes_case_option [makes_rules]:
  "makes P m \<Longrightarrow> (\<And>v. makes P (g v)) \<Longrightarrow> makes P (case x of None \<Rightarrow> m | Some v \<Rightarrow> g v)"
  by (cases x) auto

lemma makes_case_prod [makes_rules]:
  "(\<And>a b. makes P (f a b)) \<Longrightarrow> makes P (case x of (a, b) \<Rightarrow> f a b)"
  by (cases x) auto

lemma makes_api_call: "(\<And>r. P (c r)) \<Longrightarrow> makes P (api_call f c)"
  by (simp add: makes_def wp_rules split: prod.splits)

lemma makes_update: "(\<And>s. calls (f s) = calls s) \<Longrightarrow> makes P (State_Monad.update f)"
  by (simp add: makes_def wp_rules)

lemma makes_metrics [makes_rules]:
  "makes P (inc_reconcileTotal k r)" "makes P inc_watchedGvks" "makes P inc_watchedDestGvks"
  "makes P (observe_e2eSeconds D k e c)"
  by (auto simp: metric_defs intro!: makes_update)

lemma makes_emit: "(\<And>ev. P (Eventf ev)) \<Longrightarrow> makes P (emit D x t r a msg)"
  unfolding emit_def Let_def by (intro makes_rules makes_api_call)

lemma makes_mono: "makes P m \<Longrightarrow> (\<And>c. P c \<Longrightarrow> Q c) \<Longrightarrow> makes Q m"
  unfolding makes_def list_all_iff by (fast elim!: wp_mono)

end
