(* ===== verification/Sample.thy ===== *)
theory Sample
  imports Runtime
begin

text \<open>
  A concrete library, API server and process state, to which properties with hypotheses are
  applied. The server is static: it knows one \<^verbatim>\<open>Projection\<close>, one \<^verbatim>\<open>ClusterProjection\<close>, one
  \<^verbatim>\<open>ConfigMap\<close> as their source and two namespaces, accepts every write and answers a fetch of
  any other object with \<^verbatim>\<open>NotFound\<close>.
\<close>

definition sample_source_ref :: sourceRef where
  "sample_source_ref = \<lparr>sr_Group = '''', sr_Version = ''v1'', sr_Kind = ''ConfigMap'',
     sr_Namespace = ''platform'', sr_Name = ''app-config''\<rparr>"

definition sample_meta :: "string \<Rightarrow> string \<Rightarrow> string \<Rightarrow> objectMeta" where
  "sample_meta ns n uid = \<lparr>m_Name = n, m_Namespace = ns, m_UID = uid, m_ResourceVersion = ''1'',
     m_CreationTimestamp = 0, m_DeletionTimestamp = None, m_Finalizers = [], m_Labels = fmempty\<rparr>"

definition sample_overlay :: overlay where
  "sample_overlay = \<lparr>ov_Labels = fmempty, ov_Annotations = fmempty\<rparr>"

definition sample_projection :: projection where
  "sample_projection = \<lparr>p_ObjectMeta = sample_meta ''tenant'' ''mirror'' ''u1'',
     p_Spec = \<lparr>ps_Source = sample_source_ref, ps_Destination = \<lparr>pd_Name = ''''\<rparr>,
               ps_Overlay = sample_overlay\<rparr>,
     p_Status = \<lparr>pst_Conditions = [], pst_DestinationName = ''''\<rparr>\<rparr>"

definition sample_clusterProjection :: clusterProjection where
  "sample_clusterProjection = \<lparr>cp_ObjectMeta = sample_meta '''' ''spread'' ''u2'',
     cp_Spec = \<lparr>cps_Source = sample_source_ref,
       cps_Destination = \<lparr>cpd_Namespaces = [''b'', ''a''], cpd_NamespaceSelector = None,
                         cpd_Name = ''''\<rparr>,
       cps_Overlay = sample_overlay\<rparr>,
     cp_Status = \<lparr>cst_Conditions = [], cst_DestinationName = '''', cst_NamespacesWritten = 0,
       cst_NamespacesFailed = 0\<rparr>\<rparr>"

definition sample_source :: obj where
  "sample_source = fmap_of_list
     [(''apiVersion'', JString ''v1''), (''kind'', JString ''ConfigMap''),
      (''metadata'', JObject (fmap_of_list
         [(''name'', JString ''app-config''), (''namespace'', JString ''platform''),
          (''uid'', JString ''x''), (''resourceVersion'', JString ''7''),
          (''annotations'', JObject (fmap_of_list
             [(''projection.sh/projectable'', JString ''true'')]))])),
      (''data'', JObject (fmap_of_list [(''key'', JString ''value'')])),
      (''status'', JObject fmempty)]"

definition sample_mapping :: restMapping where
  "sample_mapping = \<lparr>
     rm_Resource = \<lparr>gvr_Group = '''', gvr_Version = ''v1'', gvr_Resource = ''configmaps''\<rparr>,
     rm_GroupVersionKind = \<lparr>gvk_Group = '''', gvk_Version = ''v1'', gvk_Kind = ''ConfigMap''\<rparr>,
     rm_Scope = RESTScopeNamespace\<rparr>"

definition NotFound :: error where
  "NotFound = ApiError ''NotFound'' ''not found''"

definition sample_deps :: "unit deps" where
  "sample_deps = \<lparr>
     library = ref_lib,
     client_Get_Projection = (\<lambda>k w. (if k = \<lparr>ok_Namespace = ''tenant'', ok_Name = ''mirror''\<rparr>
        then Inr sample_projection else Inl NotFound, w)),
     client_Update_Projection = (\<lambda>p w. (Inr p, w)),
     client_StatusUpdate_Projection = (\<lambda>p w. (Inr p, w)),
     client_List_Projection = (\<lambda>f v w. (Inr [sample_projection], w)),
     client_Get_ClusterProjection = (\<lambda>n w. (if n = ''spread''
        then Inr sample_clusterProjection else Inl NotFound, w)),
     client_Update_ClusterProjection = (\<lambda>c w. (Inr c, w)),
     client_StatusUpdate_ClusterProjection = (\<lambda>c w. (Inr c, w)),
     client_List_ClusterProjection = (\<lambda>fv w. (Inr [sample_clusterProjection], w)),
     client_List_Namespace = (\<lambda>sel w. (Inr
        [\<lparr>ns_Name = ''b'', ns_Labels = fmempty, ns_DeletionTimestamp = None\<rparr>,
         \<lparr>ns_Name = ''a'', ns_Labels = fmempty, ns_DeletionTimestamp = None\<rparr>], w)),
     client_Get = (\<lambda>g k w. (Inl NotFound, w)),
     client_Create = (\<lambda>x w. (Inr x, w)),
     client_Update = (\<lambda>x w. (Inr x, w)),
     dyn_Get = (\<lambda>g ns n w. (if ns = ''platform'' \<and> n = ''app-config''
        then Inr sample_source else Inl NotFound, w)),
     dyn_List = (\<lambda>g sel w. (Inr [], w)),
     dyn_Delete = (\<lambda>g ns n w. (None, w)),
     RESTMapping = (\<lambda>gk v w. (Inr sample_mapping, w)),
     Recorder = Some (\<lambda>ev w. w),
     controller_Watch = (\<lambda>t k g w. (None, w)),
     clock_Now = (\<lambda>w. 5)\<rparr>"

definition sample_np :: projectionReconciler where
  "sample_np = \<lparr>pr_SourceMode = ''allowlist'', pr_RequeueInterval = 30000000000,
     pr_Controller = True, pr_Cache = True, pr_watched = Some fmempty,
     pr_watchedDests = Some fmempty\<rparr>"

definition sample_cpr :: clusterProjectionReconciler where
  "sample_cpr = \<lparr>cpr_SourceMode = ''allowlist'', cpr_RequeueInterval = 30000000000,
     cpr_SelectorWriteConcurrency = 16, cpr_Controller = True, cpr_Cache = True,
     cpr_watched = Some fmempty, cpr_watchedDests = Some fmempty\<rparr>"

definition sample_sys :: "unit sys" where
  "sample_sys = \<lparr>world = (), calls = [], np = sample_np, cpr = sample_cpr,
     reconcileTotal = (\<lambda>_. 0), watchedGvks = 0, watchedDestGvks = 0, e2eSeconds = []\<rparr>"

lemma sample_source_metadata:
  "metadata_of sample_source = Some (fmap_of_list
     [(''name'', JString ''app-config''), (''namespace'', JString ''platform''),
      (''uid'', JString ''x''), (''resourceVersion'', JString ''7''),
      (''annotations'', JObject (fmap_of_list
         [(''projection.sh/projectable'', JString ''true'')]))])"
  by (simp add: sample_source_def metadata_of_def fmlookup_of_list)

lemma sample_library [simp]: "library sample_deps = ref_lib"
  by (simp add: sample_deps_def)

lemma sample_library_ok: "lib_ok (library sample_deps)"
  by (simp add: ref_lib_ok)

lemma sample_sys_calls [simp]: "calls sample_sys = []"
  by (simp add: sample_sys_def)

lemma sample_dyn_Get_metadata:
  "dyn_Get sample_deps g ns n w = (Inr x, w') \<Longrightarrow> metadata_of x \<noteq> None"
  by (auto simp: sample_deps_def sample_source_metadata split: if_splits)

end
