(* ===== verification/Trace.thy ===== *)
theory Trace
  imports Sample
begin

text \<open>
  Safety of the calls a reconcile makes. \<open>justified own pre c\<close> says that a mutating call
  \<open>c\<close> is warranted by what was read before it: an object is created only where the fetch of
  its key reported it missing, updated only where the fetch returned an object that is
  owned (and with that object's resource version), and deleted only after a read returned
  it and showed it owned. \<open>safe own cs\<close> says so of every call of the list. The ownership
  test may itself depend on the calls before, since the reconciled resource is read by a
  call.
\<close>

definition key_of :: "lib \<Rightarrow> obj \<Rightarrow> objectKey" where
  "key_of L x = \<lparr>ok_Namespace = GetNamespace L x, ok_Name = GetName L x\<rparr>"

definition justified :: "lib \<Rightarrow> (call list \<Rightarrow> obj \<Rightarrow> bool) \<Rightarrow> call list \<Rightarrow> call \<Rightarrow> bool" where
  "justified L own pre c = (case c of
     CreateObject x _ \<Rightarrow>
       (\<exists>e. GetObject (GroupVersionKind L x) (key_of L x) (Inl e) \<in> set pre \<and> IsNotFound L e)
   | UpdateObject x _ \<Rightarrow>
       (\<exists>y. GetObject (GroupVersionKind L x) (key_of L x) (Inr y) \<in> set pre \<and> own pre y \<and>
            GetResourceVersion L x = GetResourceVersion L y)
   | DynDelete g ns n _ \<Rightarrow>
       (\<exists>y. DynGet g ns n (Inr y) \<in> set pre \<and> own pre y) \<or>
       (\<exists>sel ys y. DynList g sel (Inr ys) \<in> set pre \<and> y \<in> set ys \<and>
            GetNamespace L y = ns \<and> GetName L y = n \<and> own pre y)
   | _ \<Rightarrow> True)"

definition safe :: "lib \<Rightarrow> (call list \<Rightarrow> obj \<Rightarrow> bool) \<Rightarrow> call list \<Rightarrow> bool" where
  "safe L own cs \<longleftrightarrow> (\<forall>i < length cs. justified L own (take i cs) (cs ! i))"

lemma safe_Nil [simp]: "safe L own []"
  by (simp add: safe_def)

lemma safe_snoc [simp]: "safe L own (cs @ [c]) \<longleftrightarrow> safe L own cs \<and> justified L own cs c"
  by (auto simp: safe_def nth_append less_Suc_eq)

lemma safe_snoc2 [simp]:
  "safe L own (cs @ [c, d]) \<longleftrightarrow> safe L own cs \<and> justified L own cs c \<and> justified L own (cs @ [c]) d"
  using safe_snoc [of L own "cs @ [c]" d] by simp

lemma safe_snoc3 [simp]:
  "safe L own (cs @ [c, d, e]) \<longleftrightarrow> safe L own (cs @ [c, d]) \<and> justified L own (cs @ [c, d]) e"
  using safe_snoc [of L own "cs @ [c, d]" e] by simp

text \<open>Calls that mutate no object of the user are always justified.\<close>

fun mutates :: "call \<Rightarrow> bool" where
  "mutates (CreateObject _ _) = True"
| "mutates (UpdateObject _ _) = True"
| "mutates (DynDelete _ _ _ _) = True"
| "mutates _ = False"

lemma justified_read [simp]: "\<not> mutates c \<Longrightarrow> justified L own pre c"
  by (cases c) (simp_all add: justified_def)

abbreviation safe_calls :: "lib \<Rightarrow> (call list \<Rightarrow> obj \<Rightarrow> bool) \<Rightarrow> 'w sys \<Rightarrow> bool" where
  "safe_calls L own s \<equiv> safe L own (calls s)"

text \<open>A computation is harmless if it makes no mutating call at all.\<close>

abbreviation harmless :: "('w, 'a) action \<Rightarrow> bool" where
  "harmless m \<equiv> makes (\<lambda>c. \<not> mutates c) m"

lemma safe_append_quiet:
  "safe L own cs \<Longrightarrow> list_all (\<lambda>c. \<not> mutates c) ds \<Longrightarrow> safe L own (cs @ ds)"
proof (induction ds arbitrary: cs)
  case (Cons d ds)
  then have "safe L own ((cs @ [d]) @ ds)" by (intro Cons.IH) auto
  then show ?case by simp
qed simp

lemma harmless_reads [makes_rules]:
  "harmless (get_Projection D k)" "harmless (update_Projection D p)"
  "harmless (statusUpdate_Projection D p)" "harmless (list_Projection D f v)"
  "harmless (get_ClusterProjection D n)" "harmless (update_ClusterProjection D c)"
  "harmless (statusUpdate_ClusterProjection D c)" "harmless (list_ClusterProjection D fv)"
  "harmless (list_Namespace D sel)" "harmless (get_Object D g k)"
  "harmless (dynamic_Get D gr ns n)" "harmless (dynamic_List D gr sl)"
  "harmless (rest_Mapping D gk ver)" "harmless (watch D tr wk g)"
  "harmless (emit D x t r a msg)"
  by (auto simp: call_defs intro!: makes_api_call makes_emit)

lemma harmless_safe:
  fixes m :: "('w, 'a) action"
  assumes "harmless m"
  shows "keeps (safe_calls L own) m"
proof (rule keepsI)
  fix s :: "'w sys"
  assume s: "safe_calls L own s"
  from assms have "wp m (\<lambda>_ t. \<exists>cs. calls t = calls s @ cs \<and> list_all (\<lambda>c. \<not> mutates c) cs) s"
    by (simp add: makes_def)
  then show "wp m (\<lambda>_. safe_calls L own) s"
    by (rule wp_mono) (use s in \<open>auto intro: safe_append_quiet\<close>)
qed

section \<open>Emitting, for computed preconditions\<close>

lemma wp_emit [wp_rules]:
  "wp (emit D x t r a msg) Q s =
     (case Recorder D of
        None \<Rightarrow> Q () s
      | Some rec \<Rightarrow>
          (let ev = \<lparr>ev_Regarding = x, ev_Type = t, ev_Reason = r, ev_Action = a, ev_Message = msg\<rparr>
           in Q () (s\<lparr>world := rec ev (world s), calls := calls s @ [Eventf ev]\<rparr>)))"
  by (simp add: emit_def wp_rules Let_def split: option.splits)

lemma wp_metrics [wp_rules]:
  "wp (inc_reconcileTotal k r) Q s = Q () (s\<lparr>reconcileTotal :=
     (reconcileTotal s)((k, r) := Suc (reconcileTotal s (k, r)))\<rparr>)"
  "wp inc_watchedGvks Q s = Q () (s\<lparr>watchedGvks := Suc (watchedGvks s)\<rparr>)"
  "wp inc_watchedDestGvks Q s = Q () (s\<lparr>watchedDestGvks := Suc (watchedDestGvks s)\<rparr>)"
  "wp (observe_e2eSeconds D k e c) Q s = Q () (s\<lparr>e2eSeconds :=
     e2eSeconds s @ [(k, e, clock_Now D (world s) - c)]\<rparr>)"
  by (simp_all add: metric_defs wp_rules)

end
