(* ===== verification/Destination.thy ===== *)
theory Destination
  imports Trace
begin

text \<open>
  \<^verbatim>\<open>internal/controller/destination.go\<close>: the ownership stamps, the transform that turns a
  source object into a destination object, the comparison that decides whether an update
  is due, and the two write operations. What both tiers share is proved once, in the
  locale \<open>destination_tier\<close> and its extension \<open>destination_writer\<close>, which the namespaced
  and the cluster-scoped functions instantiate.
\<close>

section \<open>Keys and tables\<close>

definition ownedByAnnotation :: string where
  "ownedByAnnotation = ''projection.sh/owned-by-projection''"

definition ownedByUIDLabel :: string where
  "ownedByUIDLabel = ''projection.sh/owned-by-projection-uid''"

definition ownedByClusterAnnotation :: string where
  "ownedByClusterAnnotation = ''projection.sh/owned-by-cluster-projection''"

definition ownedByClusterUIDLabel :: string where
  "ownedByClusterUIDLabel = ''projection.sh/owned-by-cluster-projection-uid''"

lemmas ownership_keys =
  ownedByAnnotation_def ownedByUIDLabel_def ownedByClusterAnnotation_def ownedByClusterUIDLabel_def

definition droppedMetadataFields :: "string list" where
  "droppedMetadataFields =
     [''resourceVersion'', ''uid'', ''generation'',
      ''creationTimestamp'', ''deletionTimestamp'', ''deletionGracePeriodSeconds'',
      ''managedFields'', ''selfLink'', ''generateName'',
      ''ownerReferences'', ''finalizers'']"

definition droppedAnnotations :: "string list" where
  "droppedAnnotations = [''kubectl.kubernetes.io/last-applied-configuration'']"

text \<open>A lookup of a key the table does not have gives the nil slice.\<close>

definition droppedSpecFieldsByGVK :: "gvk \<Rightarrow> string list list" where
  "droppedSpecFieldsByGVK g =
     (if g = \<lparr>gvk_Group = '''', gvk_Version = ''v1'', gvk_Kind = ''Service''\<rparr> then
        [[''spec'', ''clusterIP''],
         [''spec'', ''clusterIPs''],
         [''spec'', ''ipFamilies''],
         [''spec'', ''ipFamilyPolicy'']]
      else if g = \<lparr>gvk_Group = '''', gvk_Version = ''v1'', gvk_Kind = ''PersistentVolumeClaim''\<rparr> then
        [[''spec'', ''volumeName'']]
      else if g = \<lparr>gvk_Group = '''', gvk_Version = ''v1'', gvk_Kind = ''Pod''\<rparr> then
        [[''spec'', ''nodeName'']]
      else if g = \<lparr>gvk_Group = ''batch'', gvk_Version = ''v1'', gvk_Kind = ''Job''\<rparr> then
        [[''spec'', ''template'', ''metadata'', ''labels'', ''batch.kubernetes.io/controller-uid''],
         [''spec'', ''template'', ''metadata'', ''labels'', ''batch.kubernetes.io/job-name''],
         [''spec'', ''template'', ''metadata'', ''labels'', ''controller-uid''],
         [''spec'', ''selector'']]
      else [])"

section \<open>Coordinates and ownership\<close>

definition destinationCoords :: "projection \<Rightarrow> string \<times> string" where
  "destinationCoords proj =
     (let namespace = m_Namespace (p_ObjectMeta proj);
          name = pd_Name (ps_Destination (p_Spec proj));
          name = (if name = '''' then sr_Name (ps_Source (p_Spec proj)) else name)
      in (namespace, name))"

definition clusterDestinationName :: "clusterProjection \<Rightarrow> string" where
  "clusterDestinationName cp =
     (if cpd_Name (cps_Destination (cp_Spec cp)) \<noteq> '''' then cpd_Name (cps_Destination (cp_Spec cp))
      else sr_Name (cps_Source (cp_Spec cp)))"

definition ownerKey :: "projection \<Rightarrow> string" where
  "ownerKey proj = m_Namespace (p_ObjectMeta proj) @ ''/'' @ m_Name (p_ObjectMeta proj)"

definition clusterOwnerKey :: "clusterProjection \<Rightarrow> string" where
  "clusterOwnerKey cp = m_Name (cp_ObjectMeta cp)"

definition ownedByUIDSelector :: "projection \<Rightarrow> string" where
  "ownedByUIDSelector proj = ownedByUIDLabel @ ''='' @ m_UID (p_ObjectMeta proj)"

definition ownedByClusterUIDSelector :: "clusterProjection \<Rightarrow> string" where
  "ownedByClusterUIDSelector cp = ownedByClusterUIDLabel @ ''='' @ m_UID (cp_ObjectMeta cp)"

text \<open>Indexing a nil or a shorter annotation map yields the empty string.\<close>

definition annotation :: "lib \<Rightarrow> obj \<Rightarrow> string \<Rightarrow> string" where
  "annotation L x k = get_or_empty (nil_map (GetAnnotations L x)) k"

definition isOwnedBy :: "lib \<Rightarrow> obj \<Rightarrow> projection \<Rightarrow> bool" where
  "isOwnedBy L x proj \<longleftrightarrow> annotation L x ownedByAnnotation = ownerKey proj"

definition isOwnedByCluster :: "lib \<Rightarrow> obj \<Rightarrow> clusterProjection \<Rightarrow> bool" where
  "isOwnedByCluster L x cp \<longleftrightarrow> annotation L x ownedByClusterAnnotation = clusterOwnerKey cp"

section \<open>The transform\<close>

text \<open>
  \<^verbatim>\<open>DeepCopy\<close> is the identity on values; ranging over the overlay's maps in any order and
  assigning each entry is the map union in which the overlay wins.
\<close>

definition buildDestinationCore :: "lib \<Rightarrow> obj \<Rightarrow> overlay \<Rightarrow> obj \<times> str_map \<times> str_map" where
  "buildDestinationCore L source ovl =
     (let dst = source;
          dst = (case metadata_of dst of
                   Some metadata \<Rightarrow> with_metadata dst (fold fmdrop droppedMetadataFields metadata)
                 | None \<Rightarrow> dst);
          dst = fold (\<lambda>path d. RemoveNestedField L d path)
                  (droppedSpecFieldsByGVK (GroupVersionKind L source)) dst;
          dst = fmdrop ''status'' dst;
          annotations = nil_map (GetAnnotations L dst);
          annotations = fold fmdrop droppedAnnotations annotations;
          annotations = fmadd annotations (ov_Annotations ovl);
          lbls = nil_map (GetLabels L dst);
          lbls = fmadd lbls (ov_Labels ovl)
      in (dst, lbls, annotations))"

definition buildDestination :: "lib \<Rightarrow> obj \<Rightarrow> projection \<Rightarrow> string \<Rightarrow> obj" where
  "buildDestination L source proj targetNamespace =
     (let (dst, lbls, annotations) = buildDestinationCore L source (ps_Overlay (p_Spec proj));
          annotations = fmupd ownedByAnnotation (ownerKey proj) annotations;
          dst = SetAnnotations L dst annotations;
          lbls = fmupd ownedByUIDLabel (m_UID (p_ObjectMeta proj)) lbls;
          dst = SetLabels L dst lbls;
          name = pd_Name (ps_Destination (p_Spec proj));
          name = (if name = '''' then sr_Name (ps_Source (p_Spec proj)) else name);
          dst = SetNamespace L dst targetNamespace;
          dst = SetName L dst name
      in dst)"

definition buildClusterDestination :: "lib \<Rightarrow> obj \<Rightarrow> clusterProjection \<Rightarrow> string \<Rightarrow> obj" where
  "buildClusterDestination L source cp targetNamespace =
     (let (dst, lbls, annotations) = buildDestinationCore L source (cps_Overlay (cp_Spec cp));
          annotations = fmupd ownedByClusterAnnotation (clusterOwnerKey cp) annotations;
          dst = SetAnnotations L dst annotations;
          lbls = fmupd ownedByClusterUIDLabel (m_UID (cp_ObjectMeta cp)) lbls;
          dst = SetLabels L dst lbls;
          dst = SetNamespace L dst targetNamespace;
          dst = SetName L dst (clusterDestinationName cp)
      in dst)"

section \<open>Comparison with the existing object\<close>

definition preserve_field :: "lib \<Rightarrow> obj \<Rightarrow> string list \<Rightarrow> obj \<Rightarrow> obj" where
  "preserve_field L existing path desired =
     (case NestedFieldCopy L existing path of
        Inl err \<Rightarrow> desired
      | Inr None \<Rightarrow> desired
      | Inr (Some val) \<Rightarrow> SetNestedField L desired val path)"

definition preserveAPIServerAllocatedFields :: "lib \<Rightarrow> obj \<Rightarrow> obj \<Rightarrow> obj" where
  "preserveAPIServerAllocatedFields L existing desired =
     fold (preserve_field L existing) (droppedSpecFieldsByGVK (GroupVersionKind L desired)) desired"

definition needsUpdate :: "lib \<Rightarrow> obj \<Rightarrow> obj \<Rightarrow> bool" where
  "needsUpdate L existing desired =
     (if GetLabels L existing \<noteq> GetLabels L desired then True
      else if GetAnnotations L existing \<noteq> GetAnnotations L desired then True
      else fBex (fmdom existing |\<union>| fmdom desired)
        (\<lambda>k. k \<noteq> ''metadata'' \<and> k \<noteq> ''status'' \<and> get_or_nil existing k \<noteq> get_or_nil desired k))"

section \<open>Writing\<close>

text \<open>
  The message of the \<^verbatim>\<open>Projected\<close> and \<^verbatim>\<open>Updated\<close> events: verb, kind, source coordinates,
  destination coordinates.
\<close>

definition write_msg :: "lib \<Rightarrow> string \<Rightarrow> obj \<Rightarrow> sourceRef \<Rightarrow> obj \<Rightarrow> string" where
  "write_msg L verb source src dst =
     verb @ '' '' @ GVK_String L (GroupVersionKind L source) @ '' '' @
     sr_Namespace src @ ''/'' @ sr_Name src @ '' to '' @ GetNamespace L dst @ ''/'' @ GetName L dst"

definition writeDestination ::
  "'w deps \<Rightarrow> projection \<Rightarrow> obj \<Rightarrow> ('w, string \<times> string) action" where
  "writeDestination D proj source =
     (let L = library D;
          (targetNS, _) = destinationCoords proj;
          dst = buildDestination L source proj targetNS;
          key = \<lparr>ok_Namespace = GetNamespace L dst, ok_Name = GetName L dst\<rparr>
      in do {
        fetched \<leftarrow> get_Object D (GroupVersionKind L source) key;
        case fetched of
          Inl fetchErr \<Rightarrow>
            if IsNotFound L fetchErr then do {
              created \<leftarrow> create_Object D dst;
              case created of
                Inl createErr \<Rightarrow> do {
                  emit D (OnProjection proj) EventTypeWarning ''DestinationCreateFailed'' ''Create''
                    (Error createErr);
                  State_Monad.return (''DestinationCreateFailed'', Error createErr)
                }
              | Inr dst' \<Rightarrow> do {
                  observe_e2eSeconds D kindProjection eventCreate
                    (m_CreationTimestamp (p_ObjectMeta proj));
                  emit D (OnProjection proj) EventTypeNormal ''Projected'' ''Create''
                    (write_msg L ''projected'' source (ps_Source (p_Spec proj)) dst');
                  State_Monad.return ('''', '''')
                }
            } else do {
              emit D (OnProjection proj) EventTypeWarning ''DestinationFetchFailed'' ''Get''
                (Error fetchErr);
              State_Monad.return (''DestinationFetchFailed'', Error fetchErr)
            }
        | Inr existing \<Rightarrow>
            if \<not> isOwnedBy L existing proj then
              let msg = ''destination '' @ ok_Namespace key @ ''/'' @ ok_Name key @
                    '' exists and is not owned by this Projection''
              in do {
                emit D (OnProjection proj) EventTypeWarning ''DestinationConflict'' ''Validate'' msg;
                State_Monad.return (''DestinationConflict'', msg)
              }
            else
              let dst = preserveAPIServerAllocatedFields L existing dst
              in if \<not> needsUpdate L existing dst then State_Monad.return ('''', '''')
                 else
                   let dst = SetResourceVersion L dst (GetResourceVersion L existing)
                   in do {
                     updated \<leftarrow> update_Object D dst;
                     case updated of
                       Inl updateErr \<Rightarrow> do {
                         emit D (OnProjection proj) EventTypeWarning ''DestinationUpdateFailed''
                           ''Update'' (Error updateErr);
                         State_Monad.return (''DestinationUpdateFailed'', Error updateErr)
                       }
                     | Inr dst' \<Rightarrow> do {
                         emit D (OnProjection proj) EventTypeNormal ''Updated'' ''Update''
                           (write_msg L ''updated'' source (ps_Source (p_Spec proj)) dst');
                         State_Monad.return ('''', '''')
                       }
                   }
      })"

text \<open>
  The cluster-tier write, in two steps: the fetch, and the switch on what it returned.
  The fan-out interleaves these steps of different workers.
\<close>

definition clusterDestinationKey :: "lib \<Rightarrow> obj \<Rightarrow> clusterProjection \<Rightarrow> string \<Rightarrow> objectKey" where
  "clusterDestinationKey L source cp targetNamespace =
     (let dst = buildClusterDestination L source cp targetNamespace
      in \<lparr>ok_Namespace = GetNamespace L dst, ok_Name = GetName L dst\<rparr>)"

definition writeClusterDestination_switch ::
  "'w deps \<Rightarrow> clusterProjection \<Rightarrow> obj \<Rightarrow> string \<Rightarrow> error + obj \<Rightarrow> ('w, string \<times> string) action" where
  "writeClusterDestination_switch D cp source targetNamespace fetched =
     (let L = library D;
          dst = buildClusterDestination L source cp targetNamespace;
          key = clusterDestinationKey L source cp targetNamespace
      in case fetched of
          Inl fetchErr \<Rightarrow>
            if IsNotFound L fetchErr then do {
              created \<leftarrow> create_Object D dst;
              case created of
                Inl createErr \<Rightarrow> do {
                  emit D (OnClusterProjection cp) EventTypeWarning ''DestinationCreateFailed''
                    ''Create''
                    (GetNamespace L dst @ ''/'' @ GetName L dst @ '': '' @ Error createErr);
                  State_Monad.return (''DestinationCreateFailed'', Error createErr)
                }
              | Inr dst' \<Rightarrow> do {
                  observe_e2eSeconds D kindClusterProjection eventCreate
                    (m_CreationTimestamp (cp_ObjectMeta cp));
                  emit D (OnClusterProjection cp) EventTypeNormal ''Projected'' ''Create''
                    (write_msg L ''projected'' source (cps_Source (cp_Spec cp)) dst');
                  State_Monad.return ('''', '''')
                }
            } else do {
              emit D (OnClusterProjection cp) EventTypeWarning ''DestinationFetchFailed'' ''Get''
                (ok_Namespace key @ ''/'' @ ok_Name key @ '': '' @ Error fetchErr);
              State_Monad.return (''DestinationFetchFailed'', Error fetchErr)
            }
        | Inr existing \<Rightarrow>
            if \<not> isOwnedByCluster L existing cp then
              let msg = ''destination '' @ ok_Namespace key @ ''/'' @ ok_Name key @
                    '' exists and is not owned by this ClusterProjection''
              in do {
                emit D (OnClusterProjection cp) EventTypeWarning ''DestinationConflict''
                  ''Validate'' msg;
                State_Monad.return (''DestinationConflict'', msg)
              }
            else
              let dst = preserveAPIServerAllocatedFields L existing dst
              in if \<not> needsUpdate L existing dst then State_Monad.return ('''', '''')
                 else
                   let dst = SetResourceVersion L dst (GetResourceVersion L existing)
                   in do {
                     updated \<leftarrow> update_Object D dst;
                     case updated of
                       Inl updateErr \<Rightarrow> do {
                         emit D (OnClusterProjection cp) EventTypeWarning ''DestinationUpdateFailed''
                           ''Update''
                           (GetNamespace L dst @ ''/'' @ GetName L dst @ '': '' @ Error updateErr);
                         State_Monad.return (''DestinationUpdateFailed'', Error updateErr)
                       }
                     | Inr dst' \<Rightarrow> do {
                         emit D (OnClusterProjection cp) EventTypeNormal ''Updated'' ''Update''
                           (write_msg L ''updated'' source (cps_Source (cp_Spec cp)) dst');
                         State_Monad.return ('''', '''')
                       }
                   })"

definition writeClusterDestination ::
  "'w deps \<Rightarrow> clusterProjection \<Rightarrow> obj \<Rightarrow> string \<Rightarrow> ('w, string \<times> string) action" where
  "writeClusterDestination D cp source targetNamespace = do {
     fetched \<leftarrow> get_Object D (GroupVersionKind (library D) source)
                 (clusterDestinationKey (library D) source cp targetNamespace);
     writeClusterDestination_switch D cp source targetNamespace fetched
   }"

section \<open>The transform, once for both tiers\<close>

lemma remove_fields_lookup:
  assumes "lib_ok L" and "\<And>p. p \<in> set ps \<Longrightarrow> p \<noteq> [] \<and> hd p \<noteq> k"
  shows "fmlookup (fold (\<lambda>path d. RemoveNestedField L d path) ps x) k = fmlookup x k"
  using assms(2)
  by (induction ps arbitrary: x) (simp_all add: lib_paths [OF assms(1)])

lemma dropped_paths_in_spec: "p \<in> set (droppedSpecFieldsByGVK g) \<Longrightarrow> p \<noteq> [] \<and> hd p = ''spec''"
  by (auto simp: droppedSpecFieldsByGVK_def split: if_splits)

lemma dropped_paths_lookup:
  assumes "lib_ok L" and "k \<noteq> ''spec''"
  shows "fmlookup (fold (\<lambda>path d. RemoveNestedField L d path) (droppedSpecFieldsByGVK g) x) k
    = fmlookup x k"
  by (rule remove_fields_lookup) (use assms dropped_paths_in_spec in auto)

text \<open>The object part of the core transform, and its metadata.\<close>

definition core_obj :: "lib \<Rightarrow> obj \<Rightarrow> obj" where
  "core_obj L source = fst (buildDestinationCore L source \<lparr>ov_Labels = fmempty, ov_Annotations = fmempty\<rparr>)"

lemma core_obj_overlay: "fst (buildDestinationCore L source ovl) = core_obj L source"
  by (simp add: core_obj_def buildDestinationCore_def Let_def)

lemma core_obj_metadata:
  assumes "lib_ok L" and "metadata_of source = Some m"
  shows "metadata_of (core_obj L source) = Some (fold fmdrop droppedMetadataFields m)"
  using assms
  by (simp add: core_obj_def buildDestinationCore_def Let_def metadata_of_def [of "fold _ _ _"]
      dropped_paths_lookup with_metadata_def)

lemma core_obj_lookup:
  assumes "lib_ok L" and "metadata_of source = Some m"
    and "k \<notin> {''metadata'', ''spec'', ''status''}"
  shows "fmlookup (core_obj L source) k = fmlookup source k"
  using assms
  by (simp add: core_obj_def buildDestinationCore_def Let_def dropped_paths_lookup)

lemma core_obj_payload:
  assumes "lib_ok L" and "p \<noteq> []" and "hd p \<notin> {''metadata'', ''status''}"
    and "list_all (apart p) (droppedSpecFieldsByGVK (GroupVersionKind L source))"
  shows "get_path p (core_obj L source) = get_path p source"
proof -
  let ?x = "case metadata_of source of
      Some metadata \<Rightarrow> with_metadata source (fold fmdrop droppedMetadataFields metadata)
    | None \<Rightarrow> source"
  obtain k ks where p: "p = k # ks" using assms(2) by (cases p) auto
  have "get_path p ?x = get_path p source"
    using assms(3) by (auto simp: p get_path_Cons [of k] with_metadata_def split: option.splits)
  then have "get_path p (fold (\<lambda>path d. RemoveNestedField L d path)
      (droppedSpecFieldsByGVK (GroupVersionKind L source)) ?x) = get_path p source"
    by (simp add: get_path_removed_apart [OF assms(1,4)])
  with assms(3) show ?thesis
    by (simp add: core_obj_def buildDestinationCore_def Let_def p get_path_Cons [of k])
qed

lemma core_obj_status: "fmlookup (core_obj L source) ''status'' = None"
  by (simp add: core_obj_def buildDestinationCore_def Let_def)

lemma core_maps:
  assumes "lib_ok L" and "metadata_of source = Some m"
  shows "snd (buildDestinationCore L source ovl) =
    (fmadd (nil_map (GetLabels L source)) (ov_Labels ovl),
     fmadd (fold fmdrop droppedAnnotations (nil_map (GetAnnotations L source))) (ov_Annotations ovl))"
proof -
  let ?m' = "fold fmdrop droppedMetadataFields m"
  have core: "metadata_of (core_obj L source) = Some ?m'"
    using assms by (rule core_obj_metadata)
  have "fmlookup ?m' ''labels'' = fmlookup m ''labels''"
    and "fmlookup ?m' ''annotations'' = fmlookup m ''annotations''"
    by (simp_all add: fmdrop_fold_lookup droppedMetadataFields_def)
  then have "GetLabels L (core_obj L source) = GetLabels L source"
    and "GetAnnotations L (core_obj L source) = GetAnnotations L source"
    by (simp_all add: lib_getters [OF assms(1) core] lib_getters [OF assms])
  then show ?thesis
    by (simp add: buildDestinationCore_def core_obj_def Let_def)
qed

lemma core_obj_dropped:
  assumes "lib_ok L" and "p \<in> set (droppedSpecFieldsByGVK (GroupVersionKind L source))"
  shows "get_path p (core_obj L source) = None"
proof -
  let ?g = "GroupVersionKind L source"
  let ?x = "case metadata_of source of
      Some metadata \<Rightarrow> with_metadata source (fold fmdrop droppedMetadataFields metadata)
    | None \<Rightarrow> source"
  have "get_path p (fold (\<lambda>path d. RemoveNestedField L d path) (droppedSpecFieldsByGVK ?g) ?x) = None"
    using assms dropped_paths_in_spec by (intro get_path_removed) auto
  then have "get_path p (remove_path [''status'']
      (fold (\<lambda>path d. RemoveNestedField L d path) (droppedSpecFieldsByGVK ?g) ?x)) = None"
    by (rule get_path_remove_None)
  then show ?thesis by (simp add: core_obj_def buildDestinationCore_def Let_def)
qed

text \<open>
  What a tier provides: the two stamps, the owner's identity, the name and overlay its
  resource asks for, the build function and the ownership test.
\<close>

locale destination_tier =
  fixes ann lbl :: string
    and owner uid dname :: "'c \<Rightarrow> string"
    and ovl :: "'c \<Rightarrow> overlay"
    and build :: "lib \<Rightarrow> obj \<Rightarrow> 'c \<Rightarrow> string \<Rightarrow> obj"
    and owned :: "lib \<Rightarrow> obj \<Rightarrow> 'c \<Rightarrow> bool"
  assumes build_eq: "build L source c ns =
      (case buildDestinationCore L source (ovl c) of (dst, lbls, anns) \<Rightarrow>
         SetName L (SetNamespace L
           (SetLabels L (SetAnnotations L dst (fmupd ann (owner c) anns)) (fmupd lbl (uid c) lbls))
           ns) (dname c))"
    and owned_eq: "owned L x c \<longleftrightarrow> annotation L x ann = owner c"
begin

definition dest_annotations :: "lib \<Rightarrow> obj \<Rightarrow> 'c \<Rightarrow> str_map" where
  "dest_annotations L source c = fmupd ann (owner c)
     (fmadd (fold fmdrop droppedAnnotations (nil_map (GetAnnotations L source)))
        (ov_Annotations (ovl c)))"

definition dest_labels :: "lib \<Rightarrow> obj \<Rightarrow> 'c \<Rightarrow> str_map" where
  "dest_labels L source c = fmupd lbl (uid c)
     (fmadd (nil_map (GetLabels L source)) (ov_Labels (ovl c)))"

lemma build_expand:
  assumes ok: "lib_ok L" and m: "metadata_of source = Some m"
  shows "build L source c ns = with_metadata (core_obj L source)
    (set_str ''name'' (dname c) (set_str ''namespace'' ns
      (fmupd ''labels'' (JObject (fmmap JString (dest_labels L source c)))
        (fmupd ''annotations'' (JObject (fmmap JString (dest_annotations L source c)))
          (fold fmdrop droppedMetadataFields m)))))"
proof -
  obtain dst lbls anns where core: "buildDestinationCore L source (ovl c) = (dst, lbls, anns)"
    by (cases "buildDestinationCore L source (ovl c)") auto
  from core have dst: "dst = core_obj L source"
    using core_obj_overlay [of L source "ovl c"] by simp
  have maps: "lbls = fmadd (nil_map (GetLabels L source)) (ov_Labels (ovl c))"
    "anns = fmadd (fold fmdrop droppedAnnotations (nil_map (GetAnnotations L source)))
              (ov_Annotations (ovl c))"
    using core_maps [OF ok m, of "ovl c"] core by simp_all
  show ?thesis
    using core_obj_metadata [OF ok m]
    by (simp add: build_eq core dst maps lib_setters [OF ok] dest_labels_def dest_annotations_def)
qed

lemma build_facts:
  assumes "lib_ok L" and "metadata_of source = Some m"
  shows "GetNamespace L (build L source c ns) = ns"
    and "GetName L (build L source c ns) = dname c"
    and "GetAnnotations L (build L source c ns) = Some (dest_annotations L source c)"
    and "GetLabels L (build L source c ns) = Some (dest_labels L source c)"
  by (simp_all add: build_expand [OF assms] lib_getters [OF assms(1)])

lemma build_owned:
  assumes "lib_ok L" and "metadata_of source = Some m"
  shows "owned L (build L source c ns) c"
  by (simp add: owned_eq annotation_def build_facts [OF assms] dest_annotations_def)

lemma build_lookup:
  assumes "lib_ok L" and "metadata_of source = Some m"
    and "k \<noteq> ''metadata''"
  shows "fmlookup (build L source c ns) k = fmlookup (core_obj L source) k"
  using assms(3) by (simp add: build_expand [OF assms(1,2)])

lemma build_clean:
  assumes "lib_ok L" and "metadata_of source = Some m"
    and "f \<in> set droppedMetadataFields"
  shows "get_path [''metadata'', f] (build L source c ns) = None"
  using assms(3)
  by (auto simp: build_expand [OF assms(1,2)] with_metadata_def fmdrop_fold_lookup
      droppedMetadataFields_def)

lemma build_payload:
  assumes "lib_ok L" and "metadata_of source = Some m" and "p \<noteq> []"
    and "hd p \<notin> {''metadata'', ''status''}"
    and "list_all (apart p) (droppedSpecFieldsByGVK (GroupVersionKind L source))"
  shows "get_path p (build L source c ns) = get_path p source"
proof -
  obtain k ks where p: "p = k # ks" using assms(3) by (cases p) auto
  with assms(4) have "get_path p (build L source c ns) = get_path p (core_obj L source)"
    by (simp add: get_path_Cons [of k] build_lookup [OF assms(1,2)])
  then show ?thesis by (simp add: core_obj_payload [OF assms(1,3-5)])
qed

lemma build_metadata:
  assumes "lib_ok L" and "metadata_of source = Some m"
    and "f \<notin> set droppedMetadataFields \<union> {''name'', ''namespace'', ''labels'', ''annotations''}"
  shows "get_path [''metadata'', f] (build L source c ns) = get_path [''metadata'', f] source"
  using assms
  by (auto simp: build_expand [OF assms(1,2)] with_metadata_def fmdrop_fold_lookup metadata_of_def
      split: option.splits json.splits)

text \<open>Of the annotations that are dropped, only the overlay's are left.\<close>

lemma build_dropped_annotation:
  assumes "lib_ok L" and "metadata_of source = Some m" and "a \<in> set droppedAnnotations" and "a \<noteq> ann"
  shows "fmlookup (nil_map (GetAnnotations L (build L source c ns))) a =
    fmlookup (ov_Annotations (ovl c)) a"
  using assms
  by (auto simp: build_facts [OF assms(1,2)] dest_annotations_def fmdrop_fold_lookup
      fmdom'_notD fmdom_eq_if_lookup split: option.splits)

text \<open>Any other annotation is inherited: from the overlay, or else from the source.\<close>

lemma build_annotation:
  assumes "lib_ok L" and "metadata_of source = Some m" and "k \<notin> set droppedAnnotations" and "k \<noteq> ann"
  shows "annotation L (build L source c ns) k =
    (case fmlookup (ov_Annotations (ovl c)) k of Some v \<Rightarrow> v | None \<Rightarrow> annotation L source k)"
  using assms
  by (auto simp: annotation_def build_facts [OF assms(1,2)] dest_annotations_def get_or_empty_def
      fmdrop_fold_lookup fmdom_eq_if_lookup split: option.splits)

lemma build_gvk:
  assumes "lib_ok L" and "metadata_of source = Some m"
  shows "GroupVersionKind L (build L source c ns) = GroupVersionKind L source"
  by (rule lib_gvk [OF assms(1)])
    (simp_all add: build_lookup [OF assms] core_obj_lookup [OF assms(1,2)])

lemma build_dropped_spec:
  assumes "lib_ok L" and "metadata_of source = Some m"
    and "p \<in> set (droppedSpecFieldsByGVK (GroupVersionKind L source))"
  shows "get_path p (build L source c ns) = None"
proof -
  have "get_path p (core_obj L source) = None" using assms by (intro core_obj_dropped) auto
  moreover obtain k ks where "p = k # ks" and "k = ''spec''"
    using dropped_paths_in_spec [OF assms(3)] by (cases p) auto
  ultimately show ?thesis
    by (simp add: get_path_Cons build_lookup [OF assms(1,2)])
qed

end

interpretation np_tier: destination_tier ownedByAnnotation ownedByUIDLabel ownerKey
  "\<lambda>p. m_UID (p_ObjectMeta p)" "\<lambda>p. snd (destinationCoords p)" "\<lambda>p. ps_Overlay (p_Spec p)"
  buildDestination isOwnedBy
  by unfold_locales
    (simp_all add: buildDestination_def isOwnedBy_def destinationCoords_def Let_def
      split: prod.splits)

interpretation cp_tier: destination_tier ownedByClusterAnnotation ownedByClusterUIDLabel
  clusterOwnerKey "\<lambda>c. m_UID (cp_ObjectMeta c)" clusterDestinationName
  "\<lambda>c. cps_Overlay (cp_Spec c)" buildClusterDestination isOwnedByCluster
  by unfold_locales
    (simp_all add: buildClusterDestination_def isOwnedByCluster_def Let_def split: prod.splits)

section \<open>Preserving allocated fields\<close>

lemma preserve_field_lookup:
  assumes "lib_ok L" and "p \<noteq> []" and "hd p \<noteq> k"
  shows "fmlookup (preserve_field L existing p desired) k = fmlookup desired k"
  using assms by (auto simp: preserve_field_def lib_paths split: sum.splits option.splits)

lemma preserve_lookup:
  assumes "lib_ok L" and "k \<noteq> ''spec''"
  shows "fmlookup (preserveAPIServerAllocatedFields L existing desired) k = fmlookup desired k"
proof -
  have "fmlookup (fold (preserve_field L existing) ps x) k = fmlookup x k"
    if "\<And>p. p \<in> set ps \<Longrightarrow> p \<noteq> [] \<and> hd p = ''spec''" for ps x
    using that by (induction ps arbitrary: x) (use assms in \<open>auto simp: preserve_field_lookup\<close>)
  then show ?thesis
    unfolding preserveAPIServerAllocatedFields_def using dropped_paths_in_spec by blast
qed

lemma preserve_metadata:
  "lib_ok L \<Longrightarrow> metadata_of (preserveAPIServerAllocatedFields L existing x) = metadata_of x"
  by (simp add: metadata_of_def preserve_lookup)

text \<open>What an update sends: the preserved object with the existing resource version.\<close>

lemma update_sent_facts:
  fixes L existing x
  defines "sent \<equiv> SetResourceVersion L (preserveAPIServerAllocatedFields L existing x)
                    (GetResourceVersion L existing)"
  assumes ok: "lib_ok L" and m: "metadata_of x = Some m"
  shows "key_of L sent = key_of L x" and "GroupVersionKind L sent = GroupVersionKind L x"
    and "GetResourceVersion L sent = GetResourceVersion L existing"
    and "GetAnnotations L sent = GetAnnotations L x" and "GetLabels L sent = GetLabels L x"
proof -
  let ?p = "preserveAPIServerAllocatedFields L existing x"
  have p: "metadata_of ?p = Some m" using ok m by (simp add: preserve_metadata)
  have sent: "sent = with_metadata ?p (set_str ''resourceVersion'' (GetResourceVersion L existing) m)"
    unfolding sent_def by (rule lib_setters [OF ok p])
  show "GroupVersionKind L sent = GroupVersionKind L x"
    by (rule lib_gvk [OF ok]) (simp_all add: sent preserve_lookup [OF ok])
  show "key_of L sent = key_of L x" and "GetResourceVersion L sent = GetResourceVersion L existing"
    and "GetAnnotations L sent = GetAnnotations L x" and "GetLabels L sent = GetLabels L x"
    by (simp_all add: sent key_of_def lib_getters [OF ok] lib_getters [OF ok m])
qed

section \<open>One algorithm for both writes\<close>

text \<open>
  What the two write functions do, with what differs between the tiers as a record: how
  the object is built, how ownership is read, and the words of the events.
\<close>

record 'c tier_ops =
  t_build :: "lib \<Rightarrow> obj \<Rightarrow> 'c \<Rightarrow> string \<Rightarrow> obj"
  t_owned :: "lib \<Rightarrow> obj \<Rightarrow> 'c \<Rightarrow> bool"
  t_regarding :: "'c \<Rightarrow> regarding"
  t_kind :: string
  t_created :: "'c \<Rightarrow> int"
  t_source :: "'c \<Rightarrow> sourceRef"
  t_errmsg :: "objectKey \<Rightarrow> error \<Rightarrow> string"

definition write_failed ::
  "'w deps \<Rightarrow> 'c tier_ops \<Rightarrow> 'c \<Rightarrow> objectKey \<Rightarrow> string \<Rightarrow> string \<Rightarrow> error \<Rightarrow> ('w, string \<times> string) action" where
  "write_failed D T c key reason action err = do {
     emit D (t_regarding T c) EventTypeWarning reason action (t_errmsg T key err);
     State_Monad.return (reason, Error err)
   }"

definition write_finish ::
  "'w deps \<Rightarrow> 'c tier_ops \<Rightarrow> 'c \<Rightarrow> obj \<Rightarrow> string \<Rightarrow> error + obj \<Rightarrow> ('w, string \<times> string) action" where
  "write_finish D T c source ns fetched =
     (let L = library D; dst = t_build T L source c ns; key = key_of L dst in
      case fetched of
        Inl err \<Rightarrow>
          if IsNotFound L err then do {
            created \<leftarrow> create_Object D dst;
            case created of
              Inl err \<Rightarrow> write_failed D T c key ''DestinationCreateFailed'' ''Create'' err
            | Inr dst' \<Rightarrow> do {
                observe_e2eSeconds D (t_kind T) eventCreate (t_created T c);
                emit D (t_regarding T c) EventTypeNormal ''Projected'' ''Create''
                  (write_msg L ''projected'' source (t_source T c) dst');
                State_Monad.return ('''', '''')
              }
          } else write_failed D T c key ''DestinationFetchFailed'' ''Get'' err
      | Inr existing \<Rightarrow>
          if \<not> t_owned T L existing c then
            let msg = ''destination '' @ ok_Namespace key @ ''/'' @ ok_Name key @
                  '' exists and is not owned by this '' @ t_kind T
            in do {
              emit D (t_regarding T c) EventTypeWarning ''DestinationConflict'' ''Validate'' msg;
              State_Monad.return (''DestinationConflict'', msg)
            }
          else
            let dst = preserveAPIServerAllocatedFields L existing dst in
            if \<not> needsUpdate L existing dst then State_Monad.return ('''', '''')
            else
              let dst = SetResourceVersion L dst (GetResourceVersion L existing) in do {
                updated \<leftarrow> update_Object D dst;
                case updated of
                  Inl err \<Rightarrow> write_failed D T c (key_of L dst) ''DestinationUpdateFailed'' ''Update'' err
                | Inr dst' \<Rightarrow> do {
                    emit D (t_regarding T c) EventTypeNormal ''Updated'' ''Update''
                      (write_msg L ''updated'' source (t_source T c) dst');
                    State_Monad.return ('''', '''')
                  }
              })"

definition write_template ::
  "'w deps \<Rightarrow> 'c tier_ops \<Rightarrow> 'c \<Rightarrow> obj \<Rightarrow> string \<Rightarrow> ('w, string \<times> string) action" where
  "write_template D T c source ns = do {
     fetched \<leftarrow> get_Object D (GroupVersionKind (library D) source)
                 (key_of (library D) (t_build T (library D) source c ns));
     write_finish D T c source ns fetched
   }"

definition np_ops :: "projection tier_ops" where
  "np_ops = \<lparr>t_build = buildDestination, t_owned = isOwnedBy, t_regarding = OnProjection,
     t_kind = kindProjection, t_created = (\<lambda>p. m_CreationTimestamp (p_ObjectMeta p)),
     t_source = (\<lambda>p. ps_Source (p_Spec p)), t_errmsg = (\<lambda>_ e. Error e)\<rparr>"

definition cp_ops :: "clusterProjection tier_ops" where
  "cp_ops = \<lparr>t_build = buildClusterDestination, t_owned = isOwnedByCluster,
     t_regarding = OnClusterProjection, t_kind = kindClusterProjection,
     t_created = (\<lambda>c. m_CreationTimestamp (cp_ObjectMeta c)),
     t_source = (\<lambda>c. cps_Source (cp_Spec c)),
     t_errmsg = (\<lambda>k e. ok_Namespace k @ ''/'' @ ok_Name k @ '': '' @ Error e)\<rparr>"

lemma np_ops_simps [simp]:
  "t_build np_ops = buildDestination" "t_owned np_ops = isOwnedBy"
  "t_regarding np_ops = OnProjection" "t_kind np_ops = kindProjection"
  by (simp_all add: np_ops_def)

lemma cp_ops_simps [simp]:
  "t_build cp_ops = buildClusterDestination" "t_owned cp_ops = isOwnedByCluster"
  "t_regarding cp_ops = OnClusterProjection" "t_kind cp_ops = kindClusterProjection"
  by (simp_all add: cp_ops_def)

lemma writeDestination_template:
  "writeDestination D proj source =
     write_template D np_ops proj source (m_Namespace (p_ObjectMeta proj))"
  by (simp add: writeDestination_def write_template_def write_finish_def write_failed_def np_ops_def
      destinationCoords_def key_of_def Let_def kindProjection_def cong: if_cong sum.case_cong)

lemma switch_template:
  "writeClusterDestination_switch D cp source ns = write_finish D cp_ops cp source ns"
  by (rule ext)
    (simp add: writeClusterDestination_switch_def write_finish_def write_failed_def cp_ops_def
      clusterDestinationKey_def key_of_def Let_def kindClusterProjection_def cong: if_cong sum.case_cong)

lemma writeClusterDestination_template:
  "writeClusterDestination D cp source ns = write_template D cp_ops cp source ns"
  by (simp add: writeClusterDestination_def write_template_def switch_template
      clusterDestinationKey_def key_of_def Let_def)

section \<open>What both writes guarantee\<close>

locale destination_writer =
  destination_tier ann lbl owner uid dname ovl "t_build T" "t_owned T"
  for ann lbl :: string and owner uid dname :: "'c \<Rightarrow> string" and ovl :: "'c \<Rightarrow> overlay"
    and T :: "'c tier_ops" +
  fixes write_op :: "'w deps \<Rightarrow> 'c \<Rightarrow> obj \<Rightarrow> string \<Rightarrow> ('w, string \<times> string) action"
    and ns_ok :: "'c \<Rightarrow> string \<Rightarrow> bool"
  assumes write_eq: "ns_ok c ns \<Longrightarrow> write_op D c source ns = write_template D T c source ns"
begin

text \<open>
  Once the fetch of the destination's key is among the calls, the rest of the write keeps
  the calls safe, whatever happened since the fetch.
\<close>

lemma finish_safe:
  fixes s :: "'w sys"
  assumes ok: "lib_ok (library D)" and m: "metadata_of source = Some m"
    and safe: "safe (library D) own (calls s)"
    and fetched: "GetObject (GroupVersionKind (library D) source)
      (key_of (library D) (t_build T (library D) source c ns)) fetched \<in> set (calls s)"
    and owns: "\<And>y. t_owned T (library D) y c \<Longrightarrow> own (calls s) y"
  shows "wp (write_finish D T c source ns fetched) (\<lambda>_. safe_calls (library D) own) s"
proof -
  let ?L = "library D" and ?dst = "t_build T (library D) source c ns"
  have dst: "metadata_of ?dst \<noteq> None" by (simp add: build_expand [OF ok m])
  have gvk: "GroupVersionKind ?L ?dst = GroupVersionKind ?L source" by (rule build_gvk [OF ok m])
  note sent = update_sent_facts [OF ok, of ?dst]
  show ?thesis
  proof (cases fetched)
    case (Inl err)
    show ?thesis
    proof (cases "IsNotFound ?L err")
      case True
      with Inl fetched gvk have "justified ?L own (calls s) (CreateObject ?dst r)" for r
        by (auto simp: justified_def)
      with Inl True safe show ?thesis
        by (simp add: write_finish_def write_failed_def create_Object_def Let_def wp_rules
            split: prod.splits sum.splits option.splits)
    next
      case False
      with Inl safe show ?thesis
        by (simp add: write_finish_def write_failed_def Let_def wp_rules split: option.splits)
    qed
  next
    case (Inr existing)
    let ?sent = "SetResourceVersion ?L (preserveAPIServerAllocatedFields ?L existing ?dst)
        (GetResourceVersion ?L existing)"
    have "justified ?L own (calls s) (UpdateObject ?sent r)" if "t_owned T ?L existing c" for r
      using that dst fetched Inr owns [OF that] by (auto simp: justified_def sent gvk)
    with Inr safe show ?thesis
      by (simp add: write_finish_def write_failed_def update_Object_def Let_def wp_rules
          split: prod.splits sum.splits option.splits)
  qed
qed

lemma write_safe:
  fixes s :: "'w sys"
  assumes "lib_ok (library D)" and "metadata_of source = Some m" and "ns_ok c ns"
    and "safe (library D) own (calls s)"
    and "\<And>y cs. t_owned T (library D) y c \<Longrightarrow> own (calls s @ cs) y"
  shows "wp (write_op D c source ns) (\<lambda>_. safe_calls (library D) own) s"
proof -
  have "wp (write_finish D T c source ns r) (\<lambda>_. safe_calls (library D) own)
      (s\<lparr>world := w, calls := calls s @ [GetObject (GroupVersionKind (library D) source)
        (key_of (library D) (t_build T (library D) source c ns)) r]\<rparr>)" for r w
    using assms by (intro finish_safe) auto
  then show ?thesis
    using assms(3) by (simp add: write_eq write_template_def get_Object_def wp_rules split: prod.splits)
qed

text \<open>The write reports exactly one of six outcomes; the empty reason is success.\<close>

lemma finish_outcome:
  "wp (write_finish D T c source ns fetched) (\<lambda>(reason, msg) _.
     reason \<in> {'''', ''DestinationCreateFailed'', ''DestinationFetchFailed'',
       ''DestinationConflict'', ''DestinationUpdateFailed''} \<and>
     (reason = ''DestinationConflict'' \<longleftrightarrow>
        (\<exists>x. fetched = Inr x \<and> \<not> t_owned T (library D) x c)) \<and>
     (reason = ''DestinationFetchFailed'' \<longleftrightarrow>
        (\<exists>e. fetched = Inl e \<and> \<not> IsNotFound (library D) e))) s"
  by (cases fetched)
    (auto simp: write_finish_def write_failed_def call_defs Let_def wp_rules
      split: prod.splits sum.splits option.splits)

text \<open>A stranger's object is never sent to the API server: the conflict path makes no mutating call.\<close>

lemma finish_conflict_harmless:
  assumes "fetched = Inr existing" and "\<not> t_owned T (library D) existing c"
  shows "harmless (write_finish D T c source ns fetched)"
  using assms unfolding write_finish_def Let_def by (auto intro!: makes_rules)

end

interpretation np_writer: destination_writer ownedByAnnotation ownedByUIDLabel ownerKey
  "\<lambda>p. m_UID (p_ObjectMeta p)" "\<lambda>p. snd (destinationCoords p)" "\<lambda>p. ps_Overlay (p_Spec p)"
  np_ops "\<lambda>D p source ns. writeDestination D p source" "\<lambda>p ns. ns = m_Namespace (p_ObjectMeta p)"
  by unfold_locales (simp_all add: np_tier.build_eq np_tier.owned_eq writeDestination_template)

interpretation cp_writer: destination_writer ownedByClusterAnnotation ownedByClusterUIDLabel
  clusterOwnerKey "\<lambda>c. m_UID (cp_ObjectMeta c)" clusterDestinationName
  "\<lambda>c. cps_Overlay (cp_Spec c)" cp_ops writeClusterDestination "\<lambda>_ _. True"
  by unfold_locales
    (simp_all add: cp_tier.build_eq cp_tier.owned_eq writeClusterDestination_template)

section \<open>Properties of the transform\<close>

text \<open>
  C28: the destination of either tier carries no server-owned metadata field of its source, no status,
  and none of the fields the API server allocates for its kind, whatever the source contained;
  of the annotations that are dropped (the last-applied configuration) it carries what the
  resource's own overlay sets, and never the source's.
\<close>

theorem buildDestination_strips:
  assumes "lib_ok L" and "metadata_of source = Some m"
    and "(dst, ovl) \<in> {(buildDestination L source proj ns, ps_Overlay (p_Spec proj)),
      (buildClusterDestination L source cp ns, cps_Overlay (cp_Spec cp))}"
  shows "(\<forall>f \<in> set droppedMetadataFields. get_path [''metadata'', f] dst = None) \<and>
    fmlookup dst ''status'' = None \<and>
    (\<forall>p \<in> set (droppedSpecFieldsByGVK (GroupVersionKind L source)). get_path p dst = None) \<and>
    (\<forall>a \<in> set droppedAnnotations.
      fmlookup (nil_map (GetAnnotations L dst)) a = fmlookup (ov_Annotations ovl) a)"
proof -
  have ann: "a \<noteq> ownedByAnnotation" "a \<noteq> ownedByClusterAnnotation" if "a \<in> set droppedAnnotations" for a
    using that by (auto simp: droppedAnnotations_def ownership_keys)
  from assms(3) consider
      "dst = buildDestination L source proj ns" "ovl = ps_Overlay (p_Spec proj)"
    | "dst = buildClusterDestination L source cp ns" "ovl = cps_Overlay (cp_Spec cp)" by auto
  then show ?thesis
  proof cases
    case 1
    with ann show ?thesis
      using np_tier.build_clean [OF assms(1,2)] np_tier.build_dropped_spec [OF assms(1,2)]
        np_tier.build_lookup [OF assms(1,2), of "''status''"] core_obj_status [of L source]
        np_tier.build_dropped_annotation [OF assms(1,2)] by auto
  next
    case 2
    with ann show ?thesis
      using cp_tier.build_clean [OF assms(1,2)] cp_tier.build_dropped_spec [OF assms(1,2)]
        cp_tier.build_lookup [OF assms(1,2), of "''status''"] core_obj_status [of L source]
        cp_tier.build_dropped_annotation [OF assms(1,2)] by auto
  qed
qed

text \<open>A source that has everything there is to strip: a Service that was applied and is in use.\<close>

definition sample_service :: obj where
  "sample_service = fmap_of_list
     [(''apiVersion'', JString ''v1''), (''kind'', JString ''Service''),
      (''metadata'', JObject (fmap_of_list
         [(''name'', JString ''app''), (''uid'', JString ''x''),
          (''annotations'', JObject (fmap_of_list
             [(''kubectl.kubernetes.io/last-applied-configuration'', JString ''{}'')]))])),
      (''spec'', JObject (fmap_of_list
         [(''clusterIP'', JString ''10.0.0.7''), (''type'', JString ''ClusterIP'')])),
      (''status'', JObject fmempty)]"

lemma sample_service_metadata: "metadata_of sample_service \<noteq> None"
  by (simp add: sample_service_def metadata_of_def fmlookup_of_list)

lemma sample_service_kind:
  "GroupVersionKind ref_lib sample_service = \<lparr>gvk_Group = '''', gvk_Version = ''v1'', gvk_Kind = ''Service''\<rparr>"
  by (simp add: sample_service_def ref_lib_def ref_gvk_def fmlookup_of_list)

theorem buildDestination_strips_witness:
  "let dst = buildDestination ref_lib sample_service sample_projection ''tenant'' in
    list_all (\<lambda>f. get_path [''metadata'', f] dst = None) droppedMetadataFields \<and>
    fmlookup dst ''status'' = None \<and>
    get_path [''spec'', ''clusterIP''] dst = None \<and>
    fmlookup (nil_map (GetAnnotations ref_lib dst)) ''kubectl.kubernetes.io/last-applied-configuration'' = None"
proof -
  obtain m where "metadata_of sample_service = Some m" using sample_service_metadata by blast
  from buildDestination_strips [where proj = sample_projection and ns = "''tenant''" and
      cp = sample_clusterProjection, OF ref_lib_ok this,
      of "buildDestination ref_lib sample_service sample_projection ''tenant''"
        "ps_Overlay (p_Spec sample_projection)"]
  show ?thesis
    by (simp add: Let_def list_all_iff sample_service_kind droppedSpecFieldsByGVK_def
        droppedAnnotations_def sample_projection_def sample_overlay_def)
qed

text \<open>
  C29: what a namespaced destination does carry: every field of the source, at any depth, that is not
  on the path of one the API server allocates for its kind, in the payload, the spec and the
  metadata alike (other than status, the dropped metadata and what the operator sets itself); the
  requested name and namespace; the source's labels and annotations (less the
  last-applied configuration) overridden by the overlay; and on top of both the two
  ownership stamps, so that it is owned by the Projection.
\<close>

theorem buildDestination_carries:
  assumes "lib_ok L" and "metadata_of source = Some m"
  shows "(\<forall>k ks. k \<notin> {''metadata'', ''status''} \<longrightarrow>
      list_all (apart (k # ks)) (droppedSpecFieldsByGVK (GroupVersionKind L source)) \<longrightarrow>
      get_path (k # ks) (buildDestination L source proj ns) = get_path (k # ks) source) \<and>
    (\<forall>f. f \<notin> set droppedMetadataFields \<union> {''name'', ''namespace'', ''labels'', ''annotations''} \<longrightarrow>
      get_path [''metadata'', f] (buildDestination L source proj ns) = get_path [''metadata'', f] source) \<and>
    GetNamespace L (buildDestination L source proj ns) = ns \<and>
    GetName L (buildDestination L source proj ns) = snd (destinationCoords proj) \<and>
    GetLabels L (buildDestination L source proj ns) =
      Some (fmupd ownedByUIDLabel (m_UID (p_ObjectMeta proj))
        (fmadd (nil_map (GetLabels L source)) (ov_Labels (ps_Overlay (p_Spec proj))))) \<and>
    GetAnnotations L (buildDestination L source proj ns) =
      Some (fmupd ownedByAnnotation (ownerKey proj)
        (fmadd (fold fmdrop droppedAnnotations (nil_map (GetAnnotations L source)))
          (ov_Annotations (ps_Overlay (p_Spec proj))))) \<and>
    isOwnedBy L (buildDestination L source proj ns) proj"
proof (intro conjI allI impI)
  show "get_path (k # ks) (buildDestination L source proj ns) = get_path (k # ks) source"
    if "k \<notin> {''metadata'', ''status''}"
      "list_all (apart (k # ks)) (droppedSpecFieldsByGVK (GroupVersionKind L source))" for k ks
    by (rule np_tier.build_payload [OF assms _ _ that(2)]) (use that(1) in simp_all)
  show "get_path [''metadata'', f] (buildDestination L source proj ns) = get_path [''metadata'', f] source"
    if "f \<notin> set droppedMetadataFields \<union> {''name'', ''namespace'', ''labels'', ''annotations''}" for f
    by (rule np_tier.build_metadata [OF assms that])
qed (simp_all add: assms np_tier.build_facts np_tier.build_owned np_tier.dest_labels_def
      np_tier.dest_annotations_def)

theorem buildDestination_carries_witness:
  "get_path [''spec'', ''type''] (buildDestination ref_lib sample_service sample_projection ''tenant'') =
     get_path [''spec'', ''type''] sample_service \<and>
   get_path [''metadata'', ''x''] (buildDestination ref_lib sample_service sample_projection ''tenant'') =
     get_path [''metadata'', ''x''] sample_service \<and>
   isOwnedBy ref_lib (buildDestination ref_lib sample_service sample_projection ''tenant'')
     sample_projection"
proof -
  obtain m where "metadata_of sample_service = Some m" using sample_service_metadata by blast
  note carries = buildDestination_carries [OF ref_lib_ok this, of sample_projection "''tenant''"]
  have "get_path [''spec'', ''type''] (buildDestination ref_lib sample_service sample_projection ''tenant'') =
      get_path [''spec'', ''type''] sample_service"
    by (rule carries [THEN conjunct1, rule_format])
      (simp_all add: sample_service_kind droppedSpecFieldsByGVK_def)
  moreover have "get_path [''metadata'', ''x''] (buildDestination ref_lib sample_service sample_projection
      ''tenant'') = get_path [''metadata'', ''x''] sample_service"
    by (rule carries [THEN conjunct2, THEN conjunct1, rule_format]) (simp add: droppedMetadataFields_def)
  ultimately show ?thesis using carries by blast
qed

text \<open>
  The same for the cluster tier: payload, coordinates, overlay and cluster-tier stamps, and no
  server-owned field.
\<close>

lemma buildClusterDestination_carries:
  assumes "lib_ok L" and "metadata_of source = Some m"
    and "k \<notin> {''metadata'', ''spec'', ''status''}" and "f \<in> set droppedMetadataFields"
  shows "fmlookup (buildClusterDestination L source cp ns) k = fmlookup source k \<and>
    fmlookup (buildClusterDestination L source cp ns) ''status'' = None \<and>
    get_path [''metadata'', f] (buildClusterDestination L source cp ns) = None \<and>
    GetNamespace L (buildClusterDestination L source cp ns) = ns \<and>
    GetName L (buildClusterDestination L source cp ns) = clusterDestinationName cp \<and>
    GetLabels L (buildClusterDestination L source cp ns) =
      Some (fmupd ownedByClusterUIDLabel (m_UID (cp_ObjectMeta cp))
        (fmadd (nil_map (GetLabels L source)) (ov_Labels (cps_Overlay (cp_Spec cp))))) \<and>
    GetAnnotations L (buildClusterDestination L source cp ns) =
      Some (fmupd ownedByClusterAnnotation (clusterOwnerKey cp)
        (fmadd (fold fmdrop droppedAnnotations (nil_map (GetAnnotations L source)))
          (ov_Annotations (cps_Overlay (cp_Spec cp))))) \<and>
    isOwnedByCluster L (buildClusterDestination L source cp ns) cp"
  using assms
  by (simp add: cp_tier.build_facts cp_tier.build_owned cp_tier.build_lookup core_obj_lookup
      core_obj_status cp_tier.dest_labels_def cp_tier.dest_annotations_def cp_tier.build_clean
      del: get_path.simps)

lemma buildClusterDestination_carries_example:
  "fmlookup (buildClusterDestination ref_lib sample_source sample_clusterProjection ''a'') ''data'' =
     fmlookup sample_source ''data'' \<and>
   get_path [''metadata'', ''uid'']
     (buildClusterDestination ref_lib sample_source sample_clusterProjection ''a'') = None"
  using buildClusterDestination_carries [OF ref_lib_ok sample_source_metadata, of "''data''" "''uid''"
      sample_clusterProjection "''a''"] by (simp add: droppedMetadataFields_def del: get_path.simps)

section \<open>Ownership\<close>

text \<open>
  The ownership annotation identifies its owner: an object is owned by two Projections only if
  they have the same namespace and the same name. (A namespace contains no slash.)
\<close>

lemma isOwnedBy_unique:
  assumes "CHR ''/'' \<notin> set (m_Namespace (p_ObjectMeta p))"
    and "CHR ''/'' \<notin> set (m_Namespace (p_ObjectMeta q))"
    and "isOwnedBy L x p" and "isOwnedBy L x q"
  shows "m_Namespace (p_ObjectMeta p) = m_Namespace (p_ObjectMeta q) \<and>
    m_Name (p_ObjectMeta p) = m_Name (p_ObjectMeta q)"
proof -
  have "ownerKey p = ownerKey q" using assms(3,4) by (simp add: isOwnedBy_def)
  then show ?thesis using sep_append_inject [OF assms(1,2)] by (simp add: ownerKey_def)
qed

lemma isOwnedBy_unique_example:
  "isOwnedBy ref_lib (buildDestination ref_lib sample_source sample_projection ''tenant'') sample_projection \<and>
   m_Name (p_ObjectMeta sample_projection) = m_Name (p_ObjectMeta sample_projection)"
proof -
  have no_slash: "CHR ''/'' \<notin> set (m_Namespace (p_ObjectMeta sample_projection))"
    by (simp add: sample_projection_def sample_meta_def)
  have owned: "isOwnedBy ref_lib (buildDestination ref_lib sample_source sample_projection ''tenant'')
      sample_projection"
    by (rule np_tier.build_owned [OF ref_lib_ok sample_source_metadata])
  show ?thesis using isOwnedBy_unique [OF no_slash no_slash owned owned] owned by simp
qed

text \<open>
  What a destination inherits under an annotation that its own tier does not stamp: what the
  overlay sets, or else what the source carries.
\<close>

definition inherited :: "lib \<Rightarrow> obj \<Rightarrow> overlay \<Rightarrow> string \<Rightarrow> string" where
  "inherited L source ovl k =
     (case fmlookup (ov_Annotations ovl) k of Some v \<Rightarrow> v | None \<Rightarrow> annotation L source k)"

lemma owned_across:
  assumes "lib_ok L" and "metadata_of source = Some m"
  shows "isOwnedByCluster L (buildDestination L source proj ns) cp \<longleftrightarrow>
      inherited L source (ps_Overlay (p_Spec proj)) ownedByClusterAnnotation = clusterOwnerKey cp"
    and "isOwnedBy L (buildClusterDestination L source cp ns) proj \<longleftrightarrow>
      inherited L source (cps_Overlay (cp_Spec cp)) ownedByAnnotation = ownerKey proj"
  by (simp_all add: isOwnedByCluster_def isOwnedBy_def inherited_def np_tier.build_annotation [OF assms]
      cp_tier.build_annotation [OF assms] droppedAnnotations_def ownership_keys)

text \<open>
  C32: the destination of one tier is owned by a resource of the other tier exactly if the other tier's
  annotation that it inherits, from the overlay or else from the source, names that resource. So
  when neither the overlay nor the source brings such an annotation, it is owned by no Projection,
  and by no ClusterProjection that has a name.
\<close>

theorem tiers_disjoint:
  assumes "lib_ok L" and "metadata_of source = Some m"
  shows "(isOwnedByCluster L (buildDestination L source proj ns) cp \<longleftrightarrow>
      inherited L source (ps_Overlay (p_Spec proj)) ownedByClusterAnnotation = m_Name (cp_ObjectMeta cp)) \<and>
    (isOwnedBy L (buildClusterDestination L source cp ns) proj \<longleftrightarrow>
      inherited L source (cps_Overlay (cp_Spec cp)) ownedByAnnotation = ownerKey proj) \<and>
    (inherited L source (ps_Overlay (p_Spec proj)) ownedByClusterAnnotation = '''' \<longrightarrow>
      m_Name (cp_ObjectMeta cp) \<noteq> '''' \<longrightarrow>
      \<not> isOwnedByCluster L (buildDestination L source proj ns) cp) \<and>
    (inherited L source (cps_Overlay (cp_Spec cp)) ownedByAnnotation = '''' \<longrightarrow>
      \<not> isOwnedBy L (buildClusterDestination L source cp ns) proj)"
  by (auto simp: owned_across [OF assms] clusterOwnerKey_def ownerKey_def)

lemma sample_source_unowned: "annotation ref_lib sample_source k =
    (if k = ''projection.sh/projectable'' then ''true'' else '''')"
  using sample_source_metadata
    fmpred_upd [of "\<lambda>_. is_str" fmempty "''projection.sh/projectable''" "JString ''true''"]
  by (simp add: annotation_def ref_lib_def ref_get_def read_str_map_def is_str_def get_or_empty_def
      fmlookup_of_list un_str_def)

theorem tiers_disjoint_witness:
  "\<not> isOwnedByCluster ref_lib (buildDestination ref_lib sample_source sample_projection ''tenant'')
     sample_clusterProjection \<and>
   \<not> isOwnedBy ref_lib (buildClusterDestination ref_lib sample_source sample_clusterProjection ''a'')
     sample_projection"
proof -
  have "inherited ref_lib sample_source (ps_Overlay (p_Spec sample_projection)) ownedByClusterAnnotation = ''''"
    "inherited ref_lib sample_source (cps_Overlay (cp_Spec sample_clusterProjection)) ownedByAnnotation = ''''"
    "m_Name (cp_ObjectMeta sample_clusterProjection) \<noteq> ''''"
    by (simp_all add: inherited_def sample_source_unowned ownership_keys sample_projection_def
        sample_overlay_def sample_clusterProjection_def sample_meta_def)
  with tiers_disjoint [OF ref_lib_ok sample_source_metadata, of sample_projection "''tenant''"
      sample_clusterProjection]
    tiers_disjoint [OF ref_lib_ok sample_source_metadata, of sample_projection "''a''"
      sample_clusterProjection]
  show ?thesis by blast
qed

text \<open>
  C33: the tiers overlap on chains. The destination that one tier has made of any object, taken as the
  source of the other tier, gives a destination that is owned by both resources, unless the
  second resource's own overlay sets the first tier's annotation to something else.
\<close>

theorem inherited_stamp_coowned:
  assumes "lib_ok L" and "metadata_of source = Some m"
  shows "(fmlookup (ov_Annotations (ps_Overlay (p_Spec proj))) ownedByClusterAnnotation = None \<longrightarrow>
      isOwnedBy L (buildDestination L (buildClusterDestination L source cp ns) proj ns') proj \<and>
      isOwnedByCluster L (buildDestination L (buildClusterDestination L source cp ns) proj ns') cp) \<and>
    (fmlookup (ov_Annotations (cps_Overlay (cp_Spec cp))) ownedByAnnotation = None \<longrightarrow>
      isOwnedByCluster L (buildClusterDestination L (buildDestination L source proj ns) cp ns') cp \<and>
      isOwnedBy L (buildClusterDestination L (buildDestination L source proj ns) cp ns') proj)"
proof -
  obtain m1 m2 where m1: "metadata_of (buildClusterDestination L source cp ns) = Some m1"
    and m2: "metadata_of (buildDestination L source proj ns) = Some m2"
    by (simp add: cp_tier.build_expand [OF assms] np_tier.build_expand [OF assms])
  have "annotation L (buildClusterDestination L source cp ns) ownedByClusterAnnotation = clusterOwnerKey cp"
    "annotation L (buildDestination L source proj ns) ownedByAnnotation = ownerKey proj"
    using cp_tier.build_owned [OF assms] np_tier.build_owned [OF assms]
    by (simp_all add: isOwnedByCluster_def isOwnedBy_def)
  then show ?thesis
    by (simp add: np_tier.build_owned [OF assms(1) m1] cp_tier.build_owned [OF assms(1) m2]
        owned_across [OF assms(1) m1] owned_across [OF assms(1) m2] inherited_def)
qed

theorem inherited_stamp_coowned_witness:
  "let source = buildClusterDestination ref_lib sample_source sample_clusterProjection ''a'' in
   isOwnedBy ref_lib (buildDestination ref_lib source sample_projection ''tenant'') sample_projection \<and>
   isOwnedByCluster ref_lib (buildDestination ref_lib source sample_projection ''tenant'')
     sample_clusterProjection"
  using inherited_stamp_coowned [OF ref_lib_ok sample_source_metadata, of sample_projection
      sample_clusterProjection "''a''" "''tenant''"]
  by (simp add: sample_projection_def sample_overlay_def Let_def)

end
