(* ===== verification/Write_Props.thy ===== *)
theory Write_Props
  imports Destination
begin

text \<open>
  Properties of the comparison and of the two writes of \<^verbatim>\<open>destination.go\<close>: what each outcome of the
  fetch leads to, that both tiers run the same algorithm, and that a write that took effect is
  not repeated.
\<close>

section \<open>Comparison\<close>

lemma needsUpdate_iff:
  "needsUpdate L existing desired \<longleftrightarrow>
     GetLabels L existing \<noteq> GetLabels L desired \<or>
     GetAnnotations L existing \<noteq> GetAnnotations L desired \<or>
     (\<exists>k. k \<noteq> ''metadata'' \<and> k \<noteq> ''status'' \<and> get_or_nil existing k \<noteq> get_or_nil desired k)"
proof -
  have "k |\<in>| fmdom existing |\<union>| fmdom desired" if "get_or_nil existing k \<noteq> get_or_nil desired k" for k
    using that by (auto simp: get_or_nil_def fmdom_eq_if_lookup split: option.splits)
  then show ?thesis by (auto simp: needsUpdate_def)
qed

text \<open>
  What the API server stores of a write: it fills the fields it allocates (\<open>alloc\<close> says which and
  with what), keeps labels and annotations, and may change the rest of the metadata and the
  status.
\<close>

definition allocated :: "(string list \<Rightarrow> json option) \<Rightarrow> string list list \<Rightarrow> obj \<Rightarrow> obj" where
  "allocated alloc paths x =
     fold (\<lambda>p y. case alloc p of None \<Rightarrow> y | Some v \<Rightarrow> set_path p v y) paths x"

definition stored_as :: "lib \<Rightarrow> (string list \<Rightarrow> json option) \<Rightarrow> obj \<Rightarrow> obj \<Rightarrow> bool" where
  "stored_as L alloc x y \<longleftrightarrow>
     (let paths = droppedSpecFieldsByGVK (GroupVersionKind L x) in
      GetLabels L y = GetLabels L x \<and> GetAnnotations L y = GetAnnotations L x \<and>
      (\<forall>p \<in> set paths. get_path p y = alloc p) \<and>
      (\<forall>k. k \<noteq> ''metadata'' \<and> k \<noteq> ''status'' \<longrightarrow>
         fmlookup y k = fmlookup (allocated alloc paths x) k))"

lemma preserve_allocated:
  assumes "lib_ok L" and "\<And>p. p \<in> set (droppedSpecFieldsByGVK (GroupVersionKind L x)) \<Longrightarrow>
    get_path p y = alloc p"
  shows "preserveAPIServerAllocatedFields L y x =
    allocated alloc (droppedSpecFieldsByGVK (GroupVersionKind L x)) x"
  unfolding preserveAPIServerAllocatedFields_def allocated_def
proof (rule fold_cong [OF refl refl])
  fix p
  assume p: "p \<in> set (droppedSpecFieldsByGVK (GroupVersionKind L x))"
  then have "p \<noteq> []" using dropped_paths_in_spec by blast
  then have "NestedFieldCopy L y p = Inr (Some v) \<longleftrightarrow> alloc p = Some v" for v
    using lib_paths(2) [OF assms(1), of p y v] assms(2) [OF p] by simp
  moreover have "SetNestedField L d v p = set_path p v d" for d v
    by (rule lib_paths(3) [OF assms(1) \<open>p \<noteq> []\<close>])
  ultimately show "preserve_field L y p =
      (\<lambda>d. case alloc p of None \<Rightarrow> d | Some v \<Rightarrow> set_path p v d)"
    by (intro ext, cases "alloc p")
      (auto simp: preserve_field_def split: sum.splits option.splits, metis+)
qed

text \<open>
  A write is not repeated. When the API server has stored an object as sent, with whatever
  values it allocated for the fields of the table, then comparing the stored object with the
  same desired object, after the allocated fields were carried over, asks for no update.
\<close>

lemma stored_settled:
  assumes "lib_ok L" and "metadata_of x = Some m" and "stored_as L alloc x y"
  shows "\<not> needsUpdate L y (preserveAPIServerAllocatedFields L y x)"
proof -
  let ?paths = "droppedSpecFieldsByGVK (GroupVersionKind L x)"
  let ?p = "preserveAPIServerAllocatedFields L y x"
  have p: "?p = allocated alloc ?paths x"
    using assms(3) by (intro preserve_allocated [OF assms(1)]) (simp add: stored_as_def Let_def)
  have "metadata_of ?p = Some m" using assms(1,2) by (simp add: preserve_metadata)
  then have "GetLabels L ?p = GetLabels L x" "GetAnnotations L ?p = GetAnnotations L x"
    by (simp_all add: lib_getters [OF assms(1)] lib_getters [OF assms(1,2)])
  moreover have "get_or_nil y k = get_or_nil ?p k" if "k \<noteq> ''metadata''" "k \<noteq> ''status''" for k
    using assms(3) that by (simp add: p stored_as_def Let_def get_or_nil_def)
  moreover have "GetLabels L y = GetLabels L x" "GetAnnotations L y = GetAnnotations L x"
    using assms(3) by (simp_all add: stored_as_def Let_def)
  ultimately show ?thesis unfolding needsUpdate_iff by metis
qed

text \<open>For example, a service that got its cluster IP.\<close>

definition sample_service :: obj where
  "sample_service = fmap_of_list
     [(''apiVersion'', JString ''v1''), (''kind'', JString ''Service''),
      (''metadata'', JObject fmempty), (''spec'', JObject fmempty)]"

definition sample_alloc :: "string list \<Rightarrow> json option" where
  "sample_alloc p = (if p = [''spec'', ''clusterIP''] then Some (JString ''10.0.0.1'') else None)"

definition sample_stored :: obj where
  "sample_stored = fmap_of_list
     [(''apiVersion'', JString ''v1''), (''kind'', JString ''Service''),
      (''metadata'', JObject (fmap_of_list [(''uid'', JString ''u'')])),
      (''spec'', JObject (fmap_of_list [(''clusterIP'', JString ''10.0.0.1'')])),
      (''status'', JObject fmempty)]"

lemma stored_settled_example:
  "\<not> needsUpdate ref_lib sample_stored
     (preserveAPIServerAllocatedFields ref_lib sample_stored sample_service)"
proof (rule stored_settled [OF ref_lib_ok, where m = fmempty and alloc = sample_alloc])
  show "metadata_of sample_service = Some fmempty"
    by (simp add: sample_service_def metadata_of_def)
  have g: "GroupVersionKind ref_lib sample_service =
      \<lparr>gvk_Group = '''', gvk_Version = ''v1'', gvk_Kind = ''Service''\<rparr>"
    by (simp add: ref_lib_def ref_gvk_def sample_service_def Let_def)
  show "stored_as ref_lib sample_alloc sample_service sample_stored"
    unfolding stored_as_def g Let_def
    by (auto simp: sample_service_def sample_stored_def droppedSpecFieldsByGVK_def allocated_def
        sample_alloc_def ref_lib_def ref_get_def metadata_of_def read_str_map_def)
qed

section \<open>The writes\<close>

text \<open>
  The two write functions are one algorithm: each is the template \<open>write_template\<close> on the
  operations of its tier.
\<close>

lemma writes_are_one_algorithm:
  "writeDestination D proj source =
     write_template D np_ops proj source (m_Namespace (p_ObjectMeta proj)) \<and>
   writeClusterDestination D cp source ns = write_template D cp_ops cp source ns"
  by (simp add: writeDestination_template writeClusterDestination_template)

text \<open>The mutating calls of a list.\<close>

abbreviation mutations :: "call list \<Rightarrow> call list" where
  "mutations cs \<equiv> filter mutates cs"

definition write_result ::
  "lib \<Rightarrow> (obj \<Rightarrow> bool) \<Rightarrow> obj \<Rightarrow> error + obj \<Rightarrow> string \<Rightarrow> call list \<Rightarrow> bool" where
  "write_result L owned dst fetched reason cs =
     (case fetched of
        Inl e \<Rightarrow>
          if IsNotFound L e
          then \<exists>r. mutations cs = [CreateObject dst r] \<and>
                 reason = (case r of Inl _ \<Rightarrow> ''DestinationCreateFailed'' | Inr _ \<Rightarrow> '''')
          else mutations cs = [] \<and> reason = ''DestinationFetchFailed''
      | Inr x \<Rightarrow>
          if \<not> owned x then mutations cs = [] \<and> reason = ''DestinationConflict''
          else if \<not> needsUpdate L x (preserveAPIServerAllocatedFields L x dst)
          then mutations cs = [] \<and> reason = ''''
          else \<exists>r. mutations cs = [UpdateObject (SetResourceVersion L
                     (preserveAPIServerAllocatedFields L x dst) (GetResourceVersion L x)) r] \<and>
                 reason = (case r of Inl _ \<Rightarrow> ''DestinationUpdateFailed'' | Inr _ \<Rightarrow> ''''))"

lemma write_finish_result:
  "wp (write_finish D T c source ns fetched) (\<lambda>(reason, msg) t.
     \<exists>cs. calls t = calls s @ cs \<and>
       write_result (library D) (\<lambda>x. t_owned T (library D) x c)
         (t_build T (library D) source c ns) fetched reason cs) s"
  by (cases fetched)
    (auto simp: write_finish_def write_failed_def create_Object_def update_Object_def Let_def
      wp_rules write_result_def split: prod.splits sum.splits option.splits)

lemma write_template_result:
  "wp (write_template D T c source ns) (\<lambda>(reason, msg) t.
     \<exists>fetched cs. calls t = calls s @ GetObject (GroupVersionKind (library D) source)
         (key_of (library D) (t_build T (library D) source c ns)) fetched # cs \<and>
       write_result (library D) (\<lambda>x. t_owned T (library D) x c)
         (t_build T (library D) source c ns) fetched reason cs) s"
proof -
  let ?g = "GroupVersionKind (library D) source"
    and ?k = "key_of (library D) (t_build T (library D) source c ns)"
  obtain r w where r: "client_Get D ?g ?k (world s) = (r, w)" by fastforce
  let ?s = "s\<lparr>world := w, calls := calls s @ [GetObject ?g ?k r]\<rparr>"
  show ?thesis
    unfolding write_template_def wp_bind get_Object_def wp_api_call r prod.case
    by (rule wp_mono [OF write_finish_result [of D T c source ns r ?s]]) auto
qed

text \<open>
  What a write of the namespaced tier does, for every answer of the API server. It fetches the
  destination once. If that reports it missing, the built object is created; if it fails
  otherwise, or returns an object of another owner, nothing is changed and the reason says so;
  an owned object is updated exactly when it differs, with the allocated fields and the
  resource version of the fetched one. The empty reason is success.
\<close>

lemma writeDestination_result:
  "wp (writeDestination D proj source) (\<lambda>(reason, msg) t.
     \<exists>fetched cs. let L = library D;
         dst = buildDestination L source proj (m_Namespace (p_ObjectMeta proj)) in
       calls t = calls s @ GetObject (GroupVersionKind L source) (key_of L dst) fetched # cs \<and>
       write_result L (\<lambda>x. isOwnedBy L x proj) dst fetched reason cs) s"
  using write_template_result [of D np_ops proj source "m_Namespace (p_ObjectMeta proj)" s]
  by (simp add: writeDestination_template Let_def)

text \<open>And the same of the cluster tier, for one target namespace.\<close>

lemma writeClusterDestination_result:
  "wp (writeClusterDestination D cp source ns) (\<lambda>(reason, msg) t.
     \<exists>fetched cs. let L = library D; dst = buildClusterDestination L source cp ns in
       calls t = calls s @ GetObject (GroupVersionKind L source) (key_of L dst) fetched # cs \<and>
       write_result L (\<lambda>x. isOwnedByCluster L x cp) dst fetched reason cs) s"
  using write_template_result [of D cp_ops cp source ns s]
  by (simp add: writeClusterDestination_template Let_def)

section \<open>Well-formed destinations\<close>

text \<open>
  What the API server asks of an object that is to be created: a kind, a valid name, the namespace
  it is created in, and no resource version of its own.
\<close>

definition creatable :: "lib \<Rightarrow> gvk \<Rightarrow> string \<Rightarrow> obj \<Rightarrow> bool" where
  "creatable L g ns x \<longleftrightarrow> GroupVersionKind L x = g \<and> GetNamespace L x = ns \<and>
     dns1123_subdomain (GetName L x) \<and> GetName L x \<noteq> '''' \<and> length (GetName L x) \<le> 253 \<and>
     GetResourceVersion L x = ''''"

lemma dns1123_subdomain_nonempty: "dns1123_subdomain s \<Longrightarrow> s \<noteq> ''''"
  by (auto simp: dns1123_subdomain_def dns1123_label_def)

context destination_tier
begin

lemma build_creatable:
  assumes "lib_ok L" and "metadata_of source = Some m" and "dns1123_subdomain (dname c)"
    and "length (dname c) \<le> 253"
  shows "creatable L (GroupVersionKind L source) ns (build L source c ns)"
proof -
  obtain md where md: "metadata_of (build L source c ns) = Some md"
    by (simp add: build_expand [OF assms(1,2)])
  have "fmlookup md ''resourceVersion'' = None"
    using build_clean [OF assms(1,2), of "''resourceVersion''" c ns] md
    by (auto simp: droppedMetadataFields_def metadata_of_def split: option.splits json.splits)
  with assms(3,4) show ?thesis
    by (simp add: creatable_def build_gvk [OF assms(1,2)] build_facts(1,2) [OF assms(1,2)]
        dns1123_subdomain_nonempty lib_getters(5) [OF assms(1) md] read_str_def)
qed

end

lemma admitted_names:
  "admit_projection proj \<Longrightarrow> dns1123_subdomain (snd (destinationCoords proj)) \<and>
     length (snd (destinationCoords proj)) \<le> 253"
  "admit_clusterProjection cp \<Longrightarrow> dns1123_subdomain (clusterDestinationName cp) \<and>
     length (clusterDestinationName cp) \<le> 253"
  by (auto simp: admit_projection_def admit_clusterProjection_def admit_clusterDestination_def
      admit_sourceRef_def admit_dest_name_def destinationCoords_def clusterDestinationName_def Let_def)

text \<open>
  C30: a destination built for an admitted resource is well formed for the API server: it is of the
  source's kind, has the requested namespace, a non-empty DNS-1123 name of at most 253 characters,
  whether given or defaulted from the source, and no resource version.
\<close>

theorem built_destination_well_formed:
  assumes "lib_ok L" and "metadata_of source = Some m"
  shows "(admit_projection proj \<longrightarrow>
      creatable L (GroupVersionKind L source) ns (buildDestination L source proj ns)) \<and>
    (admit_clusterProjection cp \<longrightarrow>
      creatable L (GroupVersionKind L source) ns (buildClusterDestination L source cp ns))"
  using admitted_names(1) [of proj] admitted_names(2) [of cp]
  by (intro conjI impI np_tier.build_creatable [OF assms] cp_tier.build_creatable [OF assms]) simp_all

theorem built_destination_well_formed_witness:
  "creatable ref_lib (GroupVersionKind ref_lib sample_source) ''tenant''
     (buildDestination ref_lib sample_source sample_projection ''tenant'') \<and>
   creatable ref_lib (GroupVersionKind ref_lib sample_source) ''a''
     (buildClusterDestination ref_lib sample_source sample_clusterProjection ''a'')"
proof -
  note built = built_destination_well_formed [OF ref_lib_ok sample_source_metadata]
  have "admit_projection sample_projection"
    by code_simp
  moreover have "admit_clusterProjection sample_clusterProjection"
    by code_simp
  ultimately show ?thesis using built by blast
qed

text \<open>The listed namespaces are not validated: the schema has no pattern for the items.\<close>

lemma namespaces_not_validated:
  "admit_clusterProjection (sample_clusterProjection\<lparr>cp_Spec := (cp_Spec sample_clusterProjection)
     \<lparr>cps_Destination := \<lparr>cpd_Namespaces = [''Not/A.Label''], cpd_NamespaceSelector = None,
        cpd_Name = ''''\<rparr>\<rparr>\<rparr>) \<and> \<not> dns1123_label ''Not/A.Label''"
  by code_simp

end
