(* ===== verification/Source.thy ===== *)
theory Source
  imports Write_Props
begin

text \<open>
  \<^verbatim>\<open>internal/controller/source.go\<close>: the key under which a source object is indexed, the
  resolution of a source reference to a served resource, and the opt-in policy. The
  handling of a failed source fetch, which needs the clean-up and the conditions, is in
  \<open>Projection_Controller\<close>.
\<close>

section \<open>Definitions\<close>

definition projectableAnnotation :: string where
  "projectableAnnotation = ''projection.sh/projectable''"

definition SourceModePermissive :: string where
  "SourceModePermissive = ''permissive''"

definition SourceModeAllowlist :: string where
  "SourceModeAllowlist = ''allowlist''"

lemmas sourceMode_defs = SourceModePermissive_def SourceModeAllowlist_def

definition sourceKey :: "sourceRef \<Rightarrow> string" where
  "sourceKey s =
     sr_Group s @ ''/'' @ sr_Kind s @ ''/'' @ sr_Namespace s @ ''/'' @ sr_Name s"

definition formatGV :: "sourceRef \<Rightarrow> string" where
  "formatGV src =
     (let v = sr_Version src; v = (if v = '''' then ''*'' else v)
      in if sr_Group src = '''' then v else sr_Group src @ ''/'' @ v)"

definition resolveGVR :: "'w deps \<Rightarrow> sourceRef \<Rightarrow> ('w, error + gvr \<times> string) action" where
  "resolveGVR D src =
     (let gk = \<lparr>gk_Group = sr_Group src, gk_Kind = sr_Kind src\<rparr>
      in do {
        mapped \<leftarrow> (if sr_Version src = '''' then rest_Mapping D gk None
                  else rest_Mapping D gk (Some (sr_Version src)));
        State_Monad.return (case mapped of
            Inl err \<Rightarrow> Inl (Wrap (''resolving '' @ formatGV src @ ''/'' @ sr_Kind src) err)
          | Inr mapping \<Rightarrow>
              if rm_Scope mapping \<noteq> RESTScopeNamespace then
                Inl (Errorf (formatGV src @ ''/'' @ sr_Kind src @
                  '' is cluster-scoped; projection only mirrors namespaced resources''))
              else Inr (rm_Resource mapping, gvk_Version (rm_GroupVersionKind mapping)))
      })"

definition checkProjectable :: "lib \<Rightarrow> obj \<Rightarrow> string \<Rightarrow> string \<times> string \<times> bool" where
  "checkProjectable L source mode =
     (let looked = fmlookup (nil_map (GetAnnotations L source)) projectableAnnotation;
          val = (case looked of None \<Rightarrow> '''' | Some v \<Rightarrow> v);
          hasAnnotation = (looked \<noteq> None)
      in if hasAnnotation \<and> val = ''false'' then
           (''SourceOptedOut'',
            ''source '' @ GetNamespace L source @ ''/'' @ GetName L source @ '' has '' @
              projectableAnnotation @ ''=\"false\"; owner has opted out of projection'',
            False)
         else
           let mode = (if mode = '''' then SourceModeAllowlist else mode)
           in if mode = SourceModeAllowlist \<and> val \<noteq> ''true'' then
                (''SourceNotProjectable'',
                 ''source-mode=allowlist requires annotation '' @ projectableAnnotation @
                   ''=\"true\" on source '' @ GetNamespace L source @ ''/'' @ GetName L source,
                 False)
              else ('''', '''', True))"

definition checkSourceProjectable ::
  "'w deps \<Rightarrow> obj \<Rightarrow> ('w, string \<times> string \<times> bool) action" where
  "checkSourceProjectable D source = do {
     s \<leftarrow> State_Monad.get;
     State_Monad.return (checkProjectable (library D) source (pr_SourceMode (np s)))
   }"

definition cluster_checkSourceProjectable ::
  "'w deps \<Rightarrow> obj \<Rightarrow> ('w, string \<times> string \<times> bool) action" where
  "cluster_checkSourceProjectable D source = do {
     s \<leftarrow> State_Monad.get;
     State_Monad.return (checkProjectable (library D) source (cpr_SourceMode (cpr s)))
   }"

section \<open>The index key\<close>

text \<open>
  For admitted references the four parts can be read back from the key, so an event on an
  object is joined with the references to that object and with no other. The version is
  not part of the key.
\<close>

lemma sourceKey_eq_iff:
  assumes "admit_sourceRef s" and "admit_sourceRef t"
  shows "sourceKey s = sourceKey t \<longleftrightarrow>
    sr_Group s = sr_Group t \<and> sr_Kind s = sr_Kind t \<and>
    sr_Namespace s = sr_Namespace t \<and> sr_Name s = sr_Name t"
  using admit_sourceRef_no_slash [OF assms(1)] admit_sourceRef_no_slash [OF assms(2)]
  by (simp add: sourceKey_def sep_append_inject)

section \<open>The opt-in policy\<close>

definition projectable :: "string option \<Rightarrow> string \<Rightarrow> bool" where
  "projectable ann mode \<longleftrightarrow>
     ann = Some ''true'' \<or> (ann \<noteq> Some ''false'' \<and> mode \<noteq> '''' \<and> mode \<noteq> ''allowlist'')"

lemma checkProjectable_decides:
  "snd (snd (checkProjectable L source mode)) \<longleftrightarrow>
     projectable (fmlookup (nil_map (GetAnnotations L source)) projectableAnnotation) mode"
  by (auto simp: checkProjectable_def projectable_def sourceMode_defs Let_def split: option.splits)

lemma checkProjectable_reason:
  "fst (checkProjectable L source mode) =
     (if snd (snd (checkProjectable L source mode)) then ''''
      else if fmlookup (nil_map (GetAnnotations L source)) projectableAnnotation = Some ''false''
      then ''SourceOptedOut'' else ''SourceNotProjectable'')"
  by (auto simp: checkProjectable_def sourceMode_defs Let_def split: option.splits)

lemma harmless_checkSourceProjectable [makes_rules]:
  "makes P (checkSourceProjectable D source)" "makes P (cluster_checkSourceProjectable D source)"
  unfolding checkSourceProjectable_def cluster_checkSourceProjectable_def
  by (intro makes_rules)+

section \<open>Resolution\<close>

text \<open>The call that asks the REST mapper about a source reference.\<close>

definition mapping_call :: "sourceRef \<Rightarrow> error + restMapping \<Rightarrow> call" where
  "mapping_call src r = RESTMap \<lparr>gk_Group = sr_Group src, gk_Kind = sr_Kind src\<rparr>
     (if sr_Version src = '''' then None else Some (sr_Version src)) r"

lemma wp_resolveGVR:
  "wp (resolveGVR D src) Q s =
     (case RESTMapping D \<lparr>gk_Group = sr_Group src, gk_Kind = sr_Kind src\<rparr>
             (if sr_Version src = '''' then None else Some (sr_Version src)) (world s) of
        (r, w') \<Rightarrow> Q
          (case r of
             Inl err \<Rightarrow> Inl (Wrap (''resolving '' @ formatGV src @ ''/'' @ sr_Kind src) err)
           | Inr mapping \<Rightarrow>
               if rm_Scope mapping \<noteq> RESTScopeNamespace then
                 Inl (Errorf (formatGV src @ ''/'' @ sr_Kind src @
                   '' is cluster-scoped; projection only mirrors namespaced resources''))
               else Inr (rm_Resource mapping, gvk_Version (rm_GroupVersionKind mapping)))
          (s\<lparr>world := w', calls := calls s @
              [RESTMap \<lparr>gk_Group = sr_Group src, gk_Kind = sr_Kind src\<rparr>
                (if sr_Version src = '''' then None else Some (sr_Version src)) r]\<rparr>))"
  by (simp add: resolveGVR_def rest_Mapping_def wp_rules Let_def split: prod.splits)

lemma harmless_resolveGVR [makes_rules]: "harmless (resolveGVR D src)"
  unfolding resolveGVR_def Let_def by (intro makes_rules)

section \<open>Properties\<close>

lemma split_on_no_sep: "c \<notin> set xs \<Longrightarrow> split_on c xs = [xs]"
  by (induction xs) auto

lemma split_on_append: "c \<notin> set xs \<Longrightarrow> split_on c (xs @ c # ys) = xs # split_on c ys"
  by (induction xs) auto

text \<open>
  C35: the key of an admitted source reference can be read back: splitting it at the slashes gives
  group, kind, namespace and name. (Keys of different objects therefore differ, and the key
  does not depend on the version.)
\<close>

theorem sourceKey_roundtrip:
  assumes "admit_sourceRef s"
  shows "split_on CHR ''/'' (sourceKey s) = [sr_Group s, sr_Kind s, sr_Namespace s, sr_Name s]"
  using admit_sourceRef_no_slash [OF assms]
  by (simp add: sourceKey_def split_on_append split_on_no_sep)

lemma sample_source_ref_admitted: "admit_sourceRef sample_source_ref"
  by (simp add: sample_source_ref_def admit_sourceRef_def version_pattern_def kind_pattern_def
      dns1123_subdomain_def dns1123_label_def is_lower_alnum_def is_lower_def is_upper_def
      is_digit_def version_suffix_def less_eq_char_def)

theorem sourceKey_roundtrip_witness:
  "split_on CHR ''/'' (sourceKey sample_source_ref) =
     ['''', ''ConfigMap'', ''platform'', ''app-config'']"
  using sourceKey_roundtrip [OF sample_source_ref_admitted] by (simp add: sample_source_ref_def)

text \<open>
  C34: the policy, as a table. The annotation \<^verbatim>\<open>"false"\<close> is a veto under every mode and \<^verbatim>\<open>"true"\<close> a
  permission under every mode; anything else is allowed only when the mode is neither empty nor
  \<^verbatim>\<open>allowlist\<close>. The reason names the case, and is empty exactly when projection is allowed.
\<close>

theorem checkProjectable_policy:
  "case checkProjectable L source mode of (reason, message, ok) \<Rightarrow>
     (let ann = fmlookup (nil_map (GetAnnotations L source)) ''projection.sh/projectable'' in
      ok = (ann = Some ''true'' \<or> (ann \<noteq> Some ''false'' \<and> mode \<notin> {'''', ''allowlist''})) \<and>
      reason = (if ok then '''' else if ann = Some ''false'' then ''SourceOptedOut''
                else ''SourceNotProjectable'') \<and>
      (message = '''') = ok)"
  by (auto simp: checkProjectable_def sourceMode_defs projectableAnnotation_def Let_def
      split: option.splits)

text \<open>
  Resolving a source reference asks the REST mapper once, for the pinned version or, if none is
  given, for the preferred one, and succeeds exactly for a namespaced kind, with the resource
  and version of the mapping.
\<close>

lemma resolveGVR_namespaced_only:
  "wp (resolveGVR D src) (\<lambda>r t. \<exists>m. calls t = calls s @ [mapping_call src m] \<and>
     (case m of
        Inl e \<Rightarrow> r = Inl (Wrap (''resolving '' @ formatGV src @ ''/'' @ sr_Kind src) e)
      | Inr k \<Rightarrow>
          if rm_Scope k = RESTScopeNamespace
          then r = Inr (rm_Resource k, gvk_Version (rm_GroupVersionKind k))
          else isl r)) s"
  unfolding wp_resolveGVR
  by (auto simp: mapping_call_def split: prod.splits sum.splits)

end
