(* ===== verification/Conditions.thy ===== *)
theory Conditions
  imports Source
begin

text \<open>
  \<^verbatim>\<open>internal/controller/conditions.go\<close> and its cluster-tier siblings in
  \<^verbatim>\<open>cluster_projection_controller.go\<close>: the terminal operations of a reconcile, which stage the
  three status conditions, emit at most one event, count the reconcile in one metric bucket
  and flush the status with a single update.
\<close>

section \<open>Staging conditions\<close>

definition conditionReady :: string where "conditionReady = ''Ready''"
definition conditionSourceResolved :: string where "conditionSourceResolved = ''SourceResolved''"
definition conditionDestinationWritten :: string where
  "conditionDestinationWritten = ''DestinationWritten''"

lemmas condition_types =
  conditionReady_def conditionSourceResolved_def conditionDestinationWritten_def

definition resolvedVersionMessage :: "sourceRef \<Rightarrow> string \<Rightarrow> string" where
  "resolvedVersionMessage src resolvedVersion =
     (if sr_Version src \<noteq> '''' \<or> resolvedVersion = '''' then ''''
      else ''resolved '' @ sr_Group src @ ''/'' @ sr_Kind src @ '' to preferred version '' @
             resolvedVersion)"

definition resolvedClusterVersionMessage :: "sourceRef \<Rightarrow> string \<Rightarrow> string" where
  "resolvedClusterVersionMessage src resolvedVersion =
     (if sr_Version src \<noteq> '''' \<or> resolvedVersion = '''' then ''''
      else ''resolved '' @ sr_Group src @ ''/'' @ sr_Kind src @ '' to preferred version '' @
             resolvedVersion)"

definition setConditionOn ::
  "lib \<Rightarrow> condition list \<Rightarrow> string \<Rightarrow> conditionStatus \<Rightarrow> string \<Rightarrow> string \<Rightarrow> condition list" where
  "setConditionOn L conds condType status reason message =
     SetStatusCondition L conds
       \<lparr>c_Type = condType, c_Status = status, c_Reason = reason, c_Message = message\<rparr>"

definition setCondition ::
  "lib \<Rightarrow> string \<Rightarrow> conditionStatus \<Rightarrow> string \<Rightarrow> string \<Rightarrow> projection \<Rightarrow> projection" where
  "setCondition L condType status reason message proj =
     proj\<lparr>p_Status := (p_Status proj)\<lparr>pst_Conditions :=
       setConditionOn L (pst_Conditions (p_Status proj)) condType status reason message\<rparr>\<rparr>"

definition setClusterCondition ::
  "lib \<Rightarrow> string \<Rightarrow> conditionStatus \<Rightarrow> string \<Rightarrow> string \<Rightarrow> clusterProjection \<Rightarrow> clusterProjection" where
  "setClusterCondition L condType status reason message cp =
     cp\<lparr>cp_Status := (cp_Status cp)\<lparr>cst_Conditions :=
       setConditionOn L (cst_Conditions (cp_Status cp)) condType status reason message\<rparr>\<rparr>"

section \<open>The namespaced tier\<close>

definition failSource ::
  "'w deps \<Rightarrow> projection \<Rightarrow> string \<Rightarrow> string \<Rightarrow> string \<Rightarrow> ('w, reconcile_result) action" where
  "failSource D proj reason action msg =
     (let L = library D;
          proj = setCondition L conditionSourceResolved ConditionFalse reason msg proj;
          proj = setCondition L conditionDestinationWritten ConditionUnknown ''SourceNotResolved''
                   ''destination write not attempted because source resolution failed'' proj;
          proj = setCondition L conditionReady ConditionFalse reason msg proj
      in do {
        emit D (OnProjection proj) EventTypeWarning reason action msg;
        inc_reconcileTotal kindProjection resultSourceError;
        updated \<leftarrow> statusUpdate_Projection D proj;
        s \<leftarrow> State_Monad.get;
        State_Monad.return (case updated of
            Inl err \<Rightarrow> (Result_empty, Some err)
          | Inr _ \<Rightarrow> (\<lparr>RequeueAfter = pr_RequeueInterval (np s)\<rparr>, None))
      })"

definition failDestination ::
  "'w deps \<Rightarrow> projection \<Rightarrow> string \<Rightarrow> string \<Rightarrow> string \<Rightarrow> ('w, reconcile_result) action" where
  "failDestination D proj resolvedVersion reason msg =
     (let L = library D;
          srMsg = resolvedVersionMessage (ps_Source (p_Spec proj)) resolvedVersion;
          proj = setCondition L conditionSourceResolved ConditionTrue ''Resolved'' srMsg proj;
          proj = setCondition L conditionDestinationWritten ConditionFalse reason msg proj;
          proj = setCondition L conditionReady ConditionFalse reason msg proj
      in do {
        (if reason = ''DestinationConflict''
         then inc_reconcileTotal kindProjection resultConflict
         else inc_reconcileTotal kindProjection resultDestinationError);
        updated \<leftarrow> statusUpdate_Projection D proj;
        s \<leftarrow> State_Monad.get;
        State_Monad.return (case updated of
            Inl err \<Rightarrow> (Result_empty, Some err)
          | Inr _ \<Rightarrow> (\<lparr>RequeueAfter = pr_RequeueInterval (np s)\<rparr>, None))
      })"

definition markAllReady :: "'w deps \<Rightarrow> projection \<Rightarrow> string \<Rightarrow> ('w, error option) action" where
  "markAllReady D proj resolvedVersion =
     (let L = library D;
          msg = resolvedVersionMessage (ps_Source (p_Spec proj)) resolvedVersion;
          proj = setCondition L conditionSourceResolved ConditionTrue ''Resolved'' msg proj;
          proj = setCondition L conditionDestinationWritten ConditionTrue ''Projected'' '''' proj;
          proj = setCondition L conditionReady ConditionTrue ''Projected'' '''' proj;
          (_, destName) = destinationCoords proj;
          proj = proj\<lparr>p_Status := (p_Status proj)\<lparr>pst_DestinationName := destName\<rparr>\<rparr>
      in do {
        updated \<leftarrow> statusUpdate_Projection D proj;
        case updated of
          Inl err \<Rightarrow> State_Monad.return (Some err)
        | Inr _ \<Rightarrow> do {
            inc_reconcileTotal kindProjection resultSuccess;
            State_Monad.return None
          }
      })"

section \<open>The cluster tier\<close>

definition failClusterSource ::
  "'w deps \<Rightarrow> clusterProjection \<Rightarrow> string \<Rightarrow> string \<Rightarrow> string \<Rightarrow> ('w, reconcile_result) action" where
  "failClusterSource D cp reason action msg =
     (let L = library D;
          cp = setClusterCondition L conditionSourceResolved ConditionFalse reason msg cp;
          cp = setClusterCondition L conditionDestinationWritten ConditionUnknown
                 ''SourceNotResolved''
                 ''destination write not attempted because source resolution failed'' cp;
          cp = setClusterCondition L conditionReady ConditionFalse reason msg cp
      in do {
        emit D (OnClusterProjection cp) EventTypeWarning reason action msg;
        inc_reconcileTotal kindClusterProjection resultSourceError;
        updated \<leftarrow> statusUpdate_ClusterProjection D cp;
        s \<leftarrow> State_Monad.get;
        State_Monad.return (case updated of
            Inl err \<Rightarrow> (Result_empty, Some err)
          | Inr _ \<Rightarrow> (\<lparr>RequeueAfter = cpr_RequeueInterval (cpr s)\<rparr>, None))
      })"

definition failClusterDestination ::
  "'w deps \<Rightarrow> clusterProjection \<Rightarrow> string \<Rightarrow> string \<Rightarrow> string \<Rightarrow> ('w, reconcile_result) action" where
  "failClusterDestination D cp resolvedVersion reason msg =
     (let L = library D;
          srMsg = resolvedClusterVersionMessage (cps_Source (cp_Spec cp)) resolvedVersion;
          cp = setClusterCondition L conditionSourceResolved ConditionTrue ''Resolved'' srMsg cp;
          cp = setClusterCondition L conditionDestinationWritten ConditionFalse reason msg cp;
          cp = setClusterCondition L conditionReady ConditionFalse reason msg cp;
          cp = cp\<lparr>cp_Status := (cp_Status cp)\<lparr>cst_NamespacesWritten := 0\<rparr>\<rparr>;
          cp = cp\<lparr>cp_Status := (cp_Status cp)\<lparr>cst_NamespacesFailed := 0\<rparr>\<rparr>
      in do {
        inc_reconcileTotal kindClusterProjection resultDestinationError;
        updated \<leftarrow> statusUpdate_ClusterProjection D cp;
        s \<leftarrow> State_Monad.get;
        State_Monad.return (case updated of
            Inl err \<Rightarrow> (Result_empty, Some err)
          | Inr _ \<Rightarrow> (\<lparr>RequeueAfter = cpr_RequeueInterval (cpr s)\<rparr>, None))
      })"

definition failClusterDestinationCounts ::
  "'w deps \<Rightarrow> clusterProjection \<Rightarrow> string \<Rightarrow> string \<Rightarrow> string \<Rightarrow> 32 word \<Rightarrow> 32 word \<Rightarrow>
   ('w, reconcile_result) action" where
  "failClusterDestinationCounts D cp resolvedVersion reason msg written failed =
     (let L = library D;
          srMsg = resolvedClusterVersionMessage (cps_Source (cp_Spec cp)) resolvedVersion;
          cp = setClusterCondition L conditionSourceResolved ConditionTrue ''Resolved'' srMsg cp;
          cp = setClusterCondition L conditionDestinationWritten ConditionFalse reason msg cp;
          cp = setClusterCondition L conditionReady ConditionFalse reason msg cp;
          cp = cp\<lparr>cp_Status := (cp_Status cp)\<lparr>cst_DestinationName := clusterDestinationName cp\<rparr>\<rparr>;
          cp = cp\<lparr>cp_Status := (cp_Status cp)\<lparr>cst_NamespacesWritten := written\<rparr>\<rparr>;
          cp = cp\<lparr>cp_Status := (cp_Status cp)\<lparr>cst_NamespacesFailed := failed\<rparr>\<rparr>
      in do {
        inc_reconcileTotal kindClusterProjection resultDestinationError;
        updated \<leftarrow> statusUpdate_ClusterProjection D cp;
        s \<leftarrow> State_Monad.get;
        State_Monad.return (case updated of
            Inl err \<Rightarrow> (Result_empty, Some err)
          | Inr _ \<Rightarrow> (\<lparr>RequeueAfter = cpr_RequeueInterval (cpr s)\<rparr>, None))
      })"

definition markAllClusterReady ::
  "'w deps \<Rightarrow> clusterProjection \<Rightarrow> string \<Rightarrow> 32 word \<Rightarrow> ('w, error option) action" where
  "markAllClusterReady D cp resolvedVersion written =
     (let L = library D;
          msg = resolvedClusterVersionMessage (cps_Source (cp_Spec cp)) resolvedVersion;
          cp = setClusterCondition L conditionSourceResolved ConditionTrue ''Resolved'' msg cp;
          cp = setClusterCondition L conditionDestinationWritten ConditionTrue ''Projected'' '''' cp;
          cp = setClusterCondition L conditionReady ConditionTrue ''Projected'' '''' cp;
          cp = cp\<lparr>cp_Status := (cp_Status cp)\<lparr>cst_DestinationName := clusterDestinationName cp\<rparr>\<rparr>;
          cp = cp\<lparr>cp_Status := (cp_Status cp)\<lparr>cst_NamespacesWritten := written\<rparr>\<rparr>;
          cp = cp\<lparr>cp_Status := (cp_Status cp)\<lparr>cst_NamespacesFailed := 0\<rparr>\<rparr>
      in do {
        updated \<leftarrow> statusUpdate_ClusterProjection D cp;
        case updated of
          Inl err \<Rightarrow> State_Monad.return (Some err)
        | Inr _ \<Rightarrow> do {
            inc_reconcileTotal kindClusterProjection resultSuccess;
            State_Monad.return None
          }
      })"

lemmas terminal_defs =
  failSource_def failDestination_def markAllReady_def failClusterSource_def
  failClusterDestination_def failClusterDestinationCounts_def markAllClusterReady_def

section \<open>The three conditions\<close>

text \<open>
  A resource that carries conditions: staging one condition leaves the others and the rest
  of the resource alone. Both tiers stage the same three condition types in the same order.
\<close>

locale condition_carrier =
  fixes conds :: "'c \<Rightarrow> condition list"
    and stage :: "lib \<Rightarrow> string \<Rightarrow> conditionStatus \<Rightarrow> string \<Rightarrow> string \<Rightarrow> 'c \<Rightarrow> 'c"
    and rest :: "'c \<Rightarrow> 'r"
  assumes conds_stage: "conds (stage L t st r m c) = setConditionOn L (conds c) t st r m"
    and rest_stage: "rest (stage L t st r m c) = rest c"
begin

lemma find_stage:
  assumes "lib_ok L"
  shows "find_condition (conds (stage L t st r m c)) t' =
    (if t' = t then Some \<lparr>c_Type = t, c_Status = st, c_Reason = r, c_Message = m\<rparr>
     else find_condition (conds c) t')"
  by (simp add: conds_stage setConditionOn_def lib_conditions [OF assms])

lemma three_conditions:
  fixes c :: 'c
  defines "staged \<equiv> \<lambda>L st1 r1 m1 st2 r2 m2 st3 r3 m3.
    stage L conditionReady st3 r3 m3
      (stage L conditionDestinationWritten st2 r2 m2
        (stage L conditionSourceResolved st1 r1 m1 c))"
  assumes "lib_ok L"
  shows "find_condition (conds (staged L st1 r1 m1 st2 r2 m2 st3 r3 m3)) conditionSourceResolved =
      Some \<lparr>c_Type = conditionSourceResolved, c_Status = st1, c_Reason = r1, c_Message = m1\<rparr>"
    and "find_condition (conds (staged L st1 r1 m1 st2 r2 m2 st3 r3 m3)) conditionDestinationWritten =
      Some \<lparr>c_Type = conditionDestinationWritten, c_Status = st2, c_Reason = r2, c_Message = m2\<rparr>"
    and "find_condition (conds (staged L st1 r1 m1 st2 r2 m2 st3 r3 m3)) conditionReady =
      Some \<lparr>c_Type = conditionReady, c_Status = st3, c_Reason = r3, c_Message = m3\<rparr>"
    and "rest (staged L st1 r1 m1 st2 r2 m2 st3 r3 m3) = rest c"
  unfolding staged_def by (simp_all add: find_stage [OF assms(2)] rest_stage condition_types)

end

interpretation np_conds: condition_carrier "\<lambda>p. pst_Conditions (p_Status p)" setCondition
  "\<lambda>p. (p_ObjectMeta p, p_Spec p, pst_DestinationName (p_Status p))"
  by unfold_locales (simp_all add: setCondition_def)

interpretation cp_conds: condition_carrier "\<lambda>c. cst_Conditions (cp_Status c)" setClusterCondition
  "\<lambda>c. (cp_ObjectMeta c, cp_Spec c, cst_DestinationName (cp_Status c),
        cst_NamespacesWritten (cp_Status c), cst_NamespacesFailed (cp_Status c))"
  by unfold_locales (simp_all add: setClusterCondition_def)

section \<open>How a reconcile ends\<close>

text \<open>
  \<open>outcome_ok cs bucket\<close>: the three conditions agree with the metric bucket the reconcile is
  counted in. Ready is true exactly when the two stages are; when a stage failed, Ready
  repeats its reason and message; a stage that was not attempted is unknown. The two buckets of
  failed destinations are told apart by the reason: a conflict is counted as a conflict and as
  nothing else.
\<close>

definition cond_of :: "condition list \<Rightarrow> string \<Rightarrow> conditionStatus \<Rightarrow> string \<Rightarrow> string \<Rightarrow> bool" where
  "cond_of cs t st r m \<longleftrightarrow>
     find_condition cs t = Some \<lparr>c_Type = t, c_Status = st, c_Reason = r, c_Message = m\<rparr>"

definition all_ready :: "condition list \<Rightarrow> bool" where
  "all_ready cs \<longleftrightarrow>
     (\<exists>m. cond_of cs conditionSourceResolved ConditionTrue ''Resolved'' m) \<and>
     cond_of cs conditionDestinationWritten ConditionTrue ''Projected'' '''' \<and>
     cond_of cs conditionReady ConditionTrue ''Projected'' ''''"

definition source_failed :: "condition list \<Rightarrow> string \<Rightarrow> bool" where
  "source_failed cs r \<longleftrightarrow>
     (\<exists>m. cond_of cs conditionSourceResolved ConditionFalse r m \<and>
          cond_of cs conditionReady ConditionFalse r m) \<and>
     (\<exists>m. cond_of cs conditionDestinationWritten ConditionUnknown ''SourceNotResolved'' m)"

definition destination_failed :: "condition list \<Rightarrow> string \<Rightarrow> bool" where
  "destination_failed cs r \<longleftrightarrow>
     (\<exists>m. cond_of cs conditionSourceResolved ConditionTrue ''Resolved'' m) \<and>
     (\<exists>m. cond_of cs conditionDestinationWritten ConditionFalse r m \<and>
          cond_of cs conditionReady ConditionFalse r m)"

definition outcome_ok :: "condition list \<Rightarrow> string \<Rightarrow> bool" where
  "outcome_ok cs bucket \<longleftrightarrow>
     (bucket = resultSuccess \<and> all_ready cs) \<or>
     (bucket = resultSourceError \<and> (\<exists>r. source_failed cs r)) \<or>
     (bucket = resultConflict \<and> destination_failed cs ''DestinationConflict'') \<or>
     (bucket = resultDestinationError \<and> (\<exists>r. r \<noteq> ''DestinationConflict'' \<and> destination_failed cs r))"

text \<open>The status update a call makes, as the conditions it writes and whether it succeeded.\<close>

fun status_write :: "call \<Rightarrow> (condition list \<times> bool) option" where
  "status_write (StatusUpdateProjection p r) = Some (pst_Conditions (p_Status p), isl r)"
| "status_write (StatusUpdateClusterProjection c r) = Some (cst_Conditions (cp_Status c), isl r)"
| "status_write _ = None"

text \<open>
  \<open>finished kind s t err\<close>: from \<open>s\<close> to \<open>t\<close> the status was written exactly once, at the end,
  with conditions that agree with the one bucket that was counted. A successful outcome
  whose status update fails is not counted at all. The error returned is that of the
  status update.
\<close>

definition finished :: "string \<Rightarrow> 'w sys \<Rightarrow> 'w sys \<Rightarrow> error option \<Rightarrow> bool" where
  "finished kind s t err \<longleftrightarrow>
     (\<exists>before final cs failed bucket.
        calls t = calls s @ before @ [final] \<and>
        list_all (\<lambda>c. status_write c = None) before \<and>
        status_write final = Some (cs, failed) \<and>
        outcome_ok cs bucket \<and>
        (failed \<longleftrightarrow> err \<noteq> None) \<and>
        reconcileTotal t =
          (if failed \<and> bucket = resultSuccess then reconcileTotal s
           else (reconcileTotal s)((kind, bucket) := Suc (reconcileTotal s (kind, bucket)))))"

lemma finished_one:
  assumes "outcome_ok cs bucket" "calls t = calls s @ [final]"
    "status_write final = Some (cs, failed)" "failed \<longleftrightarrow> err \<noteq> None"
    "reconcileTotal t = (if failed \<and> bucket = resultSuccess then reconcileTotal s
       else (reconcileTotal s)((kind, bucket) := Suc (reconcileTotal s (kind, bucket))))"
  shows "finished kind s t err"
  unfolding finished_def using assms by (intro exI [of _ "[]"] exI conjI) auto

lemma finished_after:
  assumes "finished kind s' t err" "calls s' = calls s @ cs" "reconcileTotal s' = reconcileTotal s"
    "list_all (\<lambda>c. status_write c = None) cs"
  shows "finished kind s t err"
proof -
  from assms(1) obtain before final conds failed bucket where
    b: "calls t = calls s' @ before @ [final]" "list_all (\<lambda>c. status_write c = None) before"
      "status_write final = Some (conds, failed)" "outcome_ok conds bucket" "failed \<longleftrightarrow> err \<noteq> None"
      "reconcileTotal t = (if failed \<and> bucket = resultSuccess then reconcileTotal s'
        else (reconcileTotal s')((kind, bucket) := Suc (reconcileTotal s' (kind, bucket))))"
    unfolding finished_def by blast
  with assms(2-4) show ?thesis
    unfolding finished_def
    by (intro exI [of _ "cs @ before"] exI [of _ final] exI [of _ conds] exI [of _ failed]
        exI [of _ bucket]) simp
qed

text \<open>
  The two shapes in which a terminal operation ends: count, then write the status (failures);
  write the status, then count if that succeeded (success).
\<close>

lemma count_then_write:
  assumes "outcome_ok cs bucket" and "bucket \<noteq> resultSuccess"
    and "\<And>r. status_write (c r) = Some (cs, isl r)"
  shows "wp (State_Monad.bind (inc_reconcileTotal kind bucket) (\<lambda>_.
      State_Monad.bind (api_call f c) (\<lambda>updated. State_Monad.bind State_Monad.get (\<lambda>s'.
        State_Monad.return (case updated of
            Inl err \<Rightarrow> (Result_empty, Some err) | Inr _ \<Rightarrow> (ok s', None))))))
    (\<lambda>(res, err) t. finished kind s t err) s"
proof -
  obtain r w where f: "f (world s) = (r, w)" by fastforce
  show ?thesis
    using assms(2)
    by (cases r) (auto simp: wp_rules f intro: finished_one [OF assms(1) _ assms(3) [of r]])
qed

lemma write_then_count:
  assumes "outcome_ok cs resultSuccess" and "\<And>r. status_write (c r) = Some (cs, isl r)"
  shows "wp (State_Monad.bind (api_call f c) (\<lambda>updated. case updated of
        Inl err \<Rightarrow> State_Monad.return (Some err)
      | Inr _ \<Rightarrow> State_Monad.bind (inc_reconcileTotal kind resultSuccess) (\<lambda>_.
          State_Monad.return None)))
    (\<lambda>err t. finished kind s t err) s"
proof -
  obtain r w where f: "f (world s) = (r, w)" by fastforce
  show ?thesis
    by (cases r) (auto simp: wp_rules f intro: finished_one [OF assms(1) _ assms(2) [of r]])
qed

lemma emit_then_finish:
  assumes "\<And>s'. wp m (\<lambda>(res, err) t. finished kind s' t err) s'"
  shows "wp (State_Monad.bind (emit D x ty r a msg) (\<lambda>_. m)) (\<lambda>(res, err) t. finished kind s t err) s"
  unfolding wp_bind wp_emit Let_def
  by (cases "Recorder D"; simp) (rule assms wp_mono [OF assms], auto elim!: finished_after)+

lemma outcome_okI:
  "all_ready cs \<Longrightarrow> outcome_ok cs resultSuccess"
  "source_failed cs r \<Longrightarrow> outcome_ok cs resultSourceError"
  "destination_failed cs ''DestinationConflict'' \<Longrightarrow> outcome_ok cs resultConflict"
  "destination_failed cs r \<Longrightarrow> r \<noteq> ''DestinationConflict'' \<Longrightarrow> outcome_ok cs resultDestinationError"
  unfolding outcome_ok_def by blast+

lemma np_staged_conditions:
  fixes p :: projection
  assumes "lib_ok L"
  shows "all_ready (pst_Conditions (p_Status
      (setCondition L conditionReady ConditionTrue ''Projected'' ''''
        (setCondition L conditionDestinationWritten ConditionTrue ''Projected'' ''''
          (setCondition L conditionSourceResolved ConditionTrue ''Resolved'' m p)))))"
    and "source_failed (pst_Conditions (p_Status
      (setCondition L conditionReady ConditionFalse r m
        (setCondition L conditionDestinationWritten ConditionUnknown ''SourceNotResolved'' m'
          (setCondition L conditionSourceResolved ConditionFalse r m p))))) r"
    and "destination_failed (pst_Conditions (p_Status
      (setCondition L conditionReady ConditionFalse r m
        (setCondition L conditionDestinationWritten ConditionFalse r m
          (setCondition L conditionSourceResolved ConditionTrue ''Resolved'' m' p))))) r"
  by (simp_all add: all_ready_def source_failed_def destination_failed_def cond_of_def
      np_conds.three_conditions [OF assms])

lemma cp_staged_conditions:
  fixes c :: clusterProjection
  assumes "lib_ok L"
  shows "all_ready (cst_Conditions (cp_Status
      (setClusterCondition L conditionReady ConditionTrue ''Projected'' ''''
        (setClusterCondition L conditionDestinationWritten ConditionTrue ''Projected'' ''''
          (setClusterCondition L conditionSourceResolved ConditionTrue ''Resolved'' m c)))))"
    and "source_failed (cst_Conditions (cp_Status
      (setClusterCondition L conditionReady ConditionFalse r m
        (setClusterCondition L conditionDestinationWritten ConditionUnknown ''SourceNotResolved'' m'
          (setClusterCondition L conditionSourceResolved ConditionFalse r m c))))) r"
    and "destination_failed (cst_Conditions (cp_Status
      (setClusterCondition L conditionReady ConditionFalse r m
        (setClusterCondition L conditionDestinationWritten ConditionFalse r m
          (setClusterCondition L conditionSourceResolved ConditionTrue ''Resolved'' m' c))))) r"
  by (simp_all add: all_ready_def source_failed_def destination_failed_def cond_of_def
      cp_conds.three_conditions [OF assms])

text \<open>Each terminal operation ends the reconcile in its bucket.\<close>

lemma bucket_distinct [simp]:
  "resultSourceError \<noteq> resultSuccess" "resultConflict \<noteq> resultSuccess"
  "resultDestinationError \<noteq> resultSuccess"
  by (simp_all add: metric_labels)

lemma failSource_finished:
  assumes "lib_ok (library D)"
  shows "wp (failSource D proj reason action msg)
    (\<lambda>(res, err) t. finished kindProjection s t err) s"
  unfolding failSource_def Let_def statusUpdate_Projection_def
  by (rule emit_then_finish, rule count_then_write)
    (simp_all add: outcome_okI(2) [OF np_staged_conditions(2) [OF assms]])

lemma failDestination_finished:
  assumes "lib_ok (library D)"
  shows "wp (failDestination D proj version reason msg)
    (\<lambda>(res, err) t. finished kindProjection s t err) s"
  unfolding failDestination_def Let_def statusUpdate_Projection_def
  by (cases "reason = ''DestinationConflict''"; simp only: if_True if_False simp_thms;
      rule count_then_write)
    (simp_all add: outcome_okI(3,4) [OF np_staged_conditions(3) [OF assms]])

lemma markAllReady_finished:
  assumes "lib_ok (library D)"
  shows "wp (markAllReady D proj version) (\<lambda>err t. finished kindProjection s t err) s"
  unfolding markAllReady_def Let_def statusUpdate_Projection_def case_prod_beta
  by (intro write_then_count [where cs = "pst_Conditions (p_Status
        (setCondition (library D) conditionReady ConditionTrue ''Projected'' ''''
        (setCondition (library D) conditionDestinationWritten ConditionTrue ''Projected'' ''''
          (setCondition (library D) conditionSourceResolved ConditionTrue ''Resolved''
            (resolvedVersionMessage (ps_Source (p_Spec proj)) version) proj))))"]
      outcome_okI np_staged_conditions assms) simp_all

lemma failClusterSource_finished:
  assumes "lib_ok (library D)"
  shows "wp (failClusterSource D cp reason action msg)
    (\<lambda>(res, err) t. finished kindClusterProjection s t err) s"
  unfolding failClusterSource_def Let_def statusUpdate_ClusterProjection_def
  by (rule emit_then_finish, rule count_then_write)
    (simp_all add: outcome_okI(2) [OF cp_staged_conditions(2) [OF assms]])

lemma failClusterDestination_finished:
  assumes "lib_ok (library D)" and "reason \<noteq> ''DestinationConflict''"
  shows "wp (failClusterDestination D cp version reason msg)
    (\<lambda>(res, err) t. finished kindClusterProjection s t err) s"
  unfolding failClusterDestination_def Let_def statusUpdate_ClusterProjection_def
  by (rule count_then_write)
    (simp_all add: outcome_okI(4) [OF cp_staged_conditions(3) [OF assms(1)] assms(2)])

lemma failClusterDestinationCounts_finished:
  assumes "lib_ok (library D)" and "reason \<noteq> ''DestinationConflict''"
  shows "wp (failClusterDestinationCounts D cp version reason msg written failed)
    (\<lambda>(res, err) t. finished kindClusterProjection s t err) s"
  unfolding failClusterDestinationCounts_def Let_def statusUpdate_ClusterProjection_def
  by (rule count_then_write)
    (simp_all add: outcome_okI(4) [OF cp_staged_conditions(3) [OF assms(1)] assms(2)])

lemma markAllClusterReady_finished:
  assumes "lib_ok (library D)"
  shows "wp (markAllClusterReady D cp version written)
    (\<lambda>err t. finished kindClusterProjection s t err) s"
  unfolding markAllClusterReady_def Let_def statusUpdate_ClusterProjection_def
  by (rule write_then_count [where cs = "cst_Conditions (cp_Status
        (setClusterCondition (library D) conditionReady ConditionTrue ''Projected'' ''''
        (setClusterCondition (library D) conditionDestinationWritten ConditionTrue ''Projected'' ''''
          (setClusterCondition (library D) conditionSourceResolved ConditionTrue ''Resolved''
            (resolvedClusterVersionMessage (cps_Source (cp_Spec cp)) version) cp))))"])
    (simp_all add: outcome_okI(1) [OF cp_staged_conditions(1) [OF assms]])

lemmas terminal_finished =
  failSource_finished failDestination_finished failClusterSource_finished
  failClusterDestination_finished failClusterDestinationCounts_finished

lemma harmless_terminal [makes_rules]:
  "harmless (failSource D p r a m)" "harmless (failDestination D p v r m)"
  "harmless (markAllReady D p v)" "harmless (failClusterSource D c r a m)"
  "harmless (failClusterDestination D c v r m)"
  "harmless (failClusterDestinationCounts D c v r m w f)" "harmless (markAllClusterReady D c v w)"
  unfolding terminal_defs Let_def by (intro makes_rules)+

section \<open>Quiet steps\<close>

text \<open>
  A quiet computation writes no status and counts nothing. Whatever quiet steps precede a
  terminal operation, the whole still finishes as the terminal operation does.
\<close>

definition quiet :: "('w, 'a) action \<Rightarrow> bool" where
  "quiet m \<longleftrightarrow> makes (\<lambda>c. status_write c = None) m \<and>
     (\<forall>s. wp m (\<lambda>_ t. reconcileTotal t = reconcileTotal s) s)"

named_theorems quiet_rules \<open>quiet computations\<close>

lemma quiet_return [quiet_rules]: "quiet (State_Monad.return x)"
  by (simp add: quiet_def makes_rules wp_rules)

lemma quiet_get [quiet_rules]: "quiet State_Monad.get"
  by (simp add: quiet_def makes_rules wp_rules)

lemma quiet_bind [quiet_rules]:
  assumes "quiet m" and "\<And>a. quiet (f a)"
  shows "quiet (State_Monad.bind m f)"
  using assms unfolding quiet_def wp_bind by (auto intro!: makes_bind simp: wp_run)

lemma quiet_if [quiet_rules]: "quiet m \<Longrightarrow> quiet n \<Longrightarrow> quiet (if b then m else n)"
  by simp

lemma quiet_case_sum [quiet_rules]:
  "(\<And>e. quiet (f e)) \<Longrightarrow> (\<And>v. quiet (g v)) \<Longrightarrow> quiet (case x of Inl e \<Rightarrow> f e | Inr v \<Rightarrow> g v)"
  by (cases x) auto

lemma quiet_case_option [quiet_rules]:
  "quiet m \<Longrightarrow> (\<And>v. quiet (g v)) \<Longrightarrow> quiet (case x of None \<Rightarrow> m | Some v \<Rightarrow> g v)"
  by (cases x) auto

lemma quiet_case_prod [quiet_rules]:
  "(\<And>a b. quiet (f a b)) \<Longrightarrow> quiet (case x of (a, b) \<Rightarrow> f a b)"
  by (cases x) auto

lemma quiet_api_call: "(\<And>r. status_write (c r) = None) \<Longrightarrow> quiet (api_call f c)"
  by (simp add: quiet_def makes_api_call wp_rules split: prod.splits)

lemma quiet_update:
  "(\<And>s. calls (f s) = calls s) \<Longrightarrow> (\<And>s. reconcileTotal (f s) = reconcileTotal s) \<Longrightarrow>
   quiet (State_Monad.update f)"
  by (simp add: quiet_def makes_update wp_rules)

lemma quiet_metrics [quiet_rules]:
  "quiet inc_watchedGvks" "quiet inc_watchedDestGvks" "quiet (observe_e2eSeconds D k e c)"
  by (auto simp: metric_defs intro!: quiet_update)

lemma quiet_emit [quiet_rules]: "quiet (emit D x t r a msg)"
  unfolding emit_def Let_def by (intro quiet_rules quiet_api_call) simp

lemma quiet_calls [quiet_rules]:
  "quiet (get_Projection D k)" "quiet (update_Projection D p)" "quiet (list_Projection D f v)"
  "quiet (get_ClusterProjection D n)" "quiet (update_ClusterProjection D c)"
  "quiet (list_ClusterProjection D fv)" "quiet (list_Namespace D sel)" "quiet (get_Object D g k)"
  "quiet (create_Object D x)" "quiet (update_Object D x)"
  "quiet (dynamic_Get D gr ns n)" "quiet (dynamic_List D gr sl)" "quiet (dynamic_Delete D gr ns n)"
  "quiet (rest_Mapping D gk ver)" "quiet (watch D tr wk g)"
  by (auto simp: call_defs intro!: quiet_api_call)

lemma quiet_resolveGVR [quiet_rules]: "quiet (resolveGVR D src)"
  unfolding resolveGVR_def Let_def by (intro quiet_rules)

lemma quiet_checkSourceProjectable [quiet_rules]:
  "quiet (checkSourceProjectable D source)" "quiet (cluster_checkSourceProjectable D source)"
  unfolding checkSourceProjectable_def cluster_checkSourceProjectable_def
  by (intro quiet_rules)+

lemma quiet_write_template [quiet_rules]:
  "quiet (write_finish D T c source ns fetched)" "quiet (write_template D T c source ns)"
  unfolding write_template_def write_finish_def write_failed_def Let_def by (intro quiet_rules)+

lemma quiet_writeDestination [quiet_rules]: "quiet (writeDestination D proj source)"
  unfolding writeDestination_template by (rule quiet_rules)

text \<open>Sequencing quiet steps before a computation that finishes, under a chosen exit.\<close>

definition ends :: "string \<Rightarrow> ('w, reconcile_result) action \<Rightarrow> bool" where
  "ends kind m \<longleftrightarrow> (\<forall>s. wp m (\<lambda>(res, err) t. finished kind s t err) s)"

lemma ends_quiet_bind:
  fixes m :: "('w, 'a) action"
  assumes "quiet m" and "\<And>a. ends kind (f a)"
  shows "ends kind (State_Monad.bind m f)"
  unfolding ends_def
proof
  fix s :: "'w sys"
  have "wp m (\<lambda>_ t. \<exists>cs. calls t = calls s @ cs \<and> list_all (\<lambda>c. status_write c = None) cs) s"
    and "wp m (\<lambda>_ t. reconcileTotal t = reconcileTotal s) s"
    using assms(1) by (simp_all add: quiet_def makes_def)
  then have "wp m (\<lambda>_ t. (\<exists>cs. calls t = calls s @ cs \<and> list_all (\<lambda>c. status_write c = None) cs) \<and>
      reconcileTotal t = reconcileTotal s) s"
    by (simp add: wp_conj)
  then have "wp m (\<lambda>a t. wp (f a) (\<lambda>(res, err) u. finished kind s u err) t) s"
  proof (rule wp_mono)
    fix a and t :: "'w sys"
    assume t: "(\<exists>cs. calls t = calls s @ cs \<and> list_all (\<lambda>c. status_write c = None) cs) \<and>
      reconcileTotal t = reconcileTotal s"
    from assms(2) have "wp (f a) (\<lambda>(res, err) u. finished kind t u err) t" by (simp add: ends_def)
    then show "wp (f a) (\<lambda>(res, err) u. finished kind s u err) t"
      by (rule wp_mono) (use t in \<open>auto elim: finished_after\<close>)
  qed
  then show "wp (State_Monad.bind m f) (\<lambda>(res, err) t. finished kind s t err) s"
    by (simp add: wp_bind)
qed

end
