(* ===== verification/Cleanup.thy ===== *)
theory Cleanup
  imports Conditions
begin

text \<open>
  \<^verbatim>\<open>internal/controller/cleanup.go\<close>: deletion of one destination, and the label-driven
  sweeps over everything a resource owns. Both sweeps are instances of one algorithm, whose
  laws are proved in the locale \<open>sweeper\<close>.
\<close>

section \<open>Definitions\<close>

definition deleteOneDestination ::
  "'w deps \<Rightarrow> projection \<Rightarrow> gvr \<Rightarrow> string \<Rightarrow> string \<Rightarrow> ('w, error option) action" where
  "deleteOneDestination D proj gvr ns name = do {
     got \<leftarrow> dynamic_Get D gvr ns name;
     case got of
       Inl err \<Rightarrow>
         if IsNotFound (library D) err then State_Monad.return None
         else State_Monad.return (Some err)
     | Inr existing \<Rightarrow>
         if \<not> isOwnedBy (library D) existing proj then do {
           emit D (OnProjection proj) EventTypeNormal ''DestinationLeftAlone'' ''Delete''
             (ns @ ''/'' @ name @ '' (not owned)'');
           State_Monad.return None
         } else do {
           deleted \<leftarrow> dynamic_Delete D gvr ns name;
           case deleted of
             Some err \<Rightarrow>
               if IsNotFound (library D) err then State_Monad.return None
               else State_Monad.return (Some err)
           | None \<Rightarrow> do {
               emit D (OnProjection proj) EventTypeNormal ''DestinationDeleted'' ''Delete''
                 (ns @ ''/'' @ name);
               State_Monad.return None
             }
         }
   }"

definition deleteDestination :: "'w deps \<Rightarrow> projection \<Rightarrow> ('w, error option) action" where
  "deleteDestination D proj = do {
     resolved \<leftarrow> resolveGVR D (ps_Source (p_Spec proj));
     case resolved of
       Inl err \<Rightarrow> State_Monad.return None
     | Inr (gvr, _) \<Rightarrow>
         (let (ns, name) = destinationCoords proj in deleteOneDestination D proj gvr ns name)
   }"

text \<open>The loop over the listed items, with the first error so far.\<close>

primrec deleteAllOwnedDestinations_loop ::
  "'w deps \<Rightarrow> projection \<Rightarrow> gvr \<Rightarrow> string \<Rightarrow> obj list \<Rightarrow> error option \<Rightarrow> ('w, error option) action" where
  "deleteAllOwnedDestinations_loop D proj gvr ownerValue [] firstErr = State_Monad.return firstErr"
| "deleteAllOwnedDestinations_loop D proj gvr ownerValue (x # items) firstErr =
     (let ns = GetNamespace (library D) x; name = GetName (library D) x in
      if annotation (library D) x ownedByAnnotation \<noteq> ownerValue then
        deleteAllOwnedDestinations_loop D proj gvr ownerValue items firstErr
      else do {
        deleted \<leftarrow> dynamic_Delete D gvr ns name;
        if deleted \<noteq> None \<and> \<not> IsNotFound (library D) (the deleted) then
          deleteAllOwnedDestinations_loop D proj gvr ownerValue items
            (if firstErr = None then deleted else firstErr)
        else do {
          emit D (OnProjection proj) EventTypeNormal ''DestinationDeleted'' ''Delete''
            (ns @ ''/'' @ name);
          deleteAllOwnedDestinations_loop D proj gvr ownerValue items firstErr
        }
      })"

definition deleteAllOwnedDestinations ::
  "'w deps \<Rightarrow> projection \<Rightarrow> gvr \<Rightarrow> ('w, error option) action" where
  "deleteAllOwnedDestinations D proj gvr =
     (let ownerValue = ownerKey proj in do {
        owned \<leftarrow> dynamic_List D gvr (ownedByUIDSelector proj);
        case owned of
          Inl err \<Rightarrow> State_Monad.return (Some (Wrap ''listing owned destinations'' err))
        | Inr items \<Rightarrow> deleteAllOwnedDestinations_loop D proj gvr ownerValue items None
      })"

text \<open>\<open>keep\<close> is a Go map used as a set; \<open>None\<close> is the nil map.\<close>

primrec deleteClusterOwnedDestinations_loop ::
  "'w deps \<Rightarrow> clusterProjection \<Rightarrow> gvr \<Rightarrow> string set option \<Rightarrow> string \<Rightarrow> obj list \<Rightarrow> error option \<Rightarrow>
   ('w, error option) action" where
  "deleteClusterOwnedDestinations_loop D cp gvr keep ownerValue [] firstErr =
     State_Monad.return firstErr"
| "deleteClusterOwnedDestinations_loop D cp gvr keep ownerValue (x # items) firstErr =
     (let ns = GetNamespace (library D) x; name = GetName (library D) x in
      if annotation (library D) x ownedByClusterAnnotation \<noteq> ownerValue then
        deleteClusterOwnedDestinations_loop D cp gvr keep ownerValue items firstErr
      else if keep \<noteq> None \<and> ns \<in> the keep then
        deleteClusterOwnedDestinations_loop D cp gvr keep ownerValue items firstErr
      else do {
        deleted \<leftarrow> dynamic_Delete D gvr ns name;
        if deleted \<noteq> None \<and> \<not> IsNotFound (library D) (the deleted) then
          deleteClusterOwnedDestinations_loop D cp gvr keep ownerValue items
            (if firstErr = None then deleted else firstErr)
        else do {
          emit D (OnClusterProjection cp) EventTypeNormal ''DestinationDeleted'' ''Delete''
            (ns @ ''/'' @ name);
          deleteClusterOwnedDestinations_loop D cp gvr keep ownerValue items firstErr
        }
      })"

definition deleteClusterOwnedDestinations ::
  "'w deps \<Rightarrow> clusterProjection \<Rightarrow> gvr \<Rightarrow> string set option \<Rightarrow> ('w, error option) action" where
  "deleteClusterOwnedDestinations D cp gvr keep =
     (let ownerValue = clusterOwnerKey cp in do {
        owned \<leftarrow> dynamic_List D gvr (ownedByClusterUIDSelector cp);
        case owned of
          Inl err \<Rightarrow> State_Monad.return (Some (Wrap ''listing owned destinations'' err))
        | Inr items \<Rightarrow> deleteClusterOwnedDestinations_loop D cp gvr keep ownerValue items None
      })"

definition deleteAllClusterOwnedDestinations ::
  "'w deps \<Rightarrow> clusterProjection \<Rightarrow> gvr \<Rightarrow> ('w, error option) action" where
  "deleteAllClusterOwnedDestinations D cp gvr = deleteClusterOwnedDestinations D cp gvr None"

definition cleanupStaleClusterDestinations ::
  "'w deps \<Rightarrow> clusterProjection \<Rightarrow> gvr \<Rightarrow> string list \<Rightarrow> ('w, error option) action" where
  "cleanupStaleClusterDestinations D cp gvr currentTargets =
     (let keep = fold insert currentTargets {}
      in deleteClusterOwnedDestinations D cp gvr (Some keep))"

definition deleteClusterDestination :: "'w deps \<Rightarrow> clusterProjection \<Rightarrow> ('w, error option) action" where
  "deleteClusterDestination D cp = do {
     resolved \<leftarrow> resolveGVR D (cps_Source (cp_Spec cp));
     case resolved of
       Inl err \<Rightarrow> State_Monad.return None
     | Inr (gvr, _) \<Rightarrow> deleteAllClusterOwnedDestinations D cp gvr
   }"

section \<open>One sweep for both tiers\<close>

text \<open>
  \<open>sweep\<close> deletes the items that pass a test, in order, and keeps the first error. The two
  loops of the code are its instances.
\<close>

primrec sweep ::
  "'w deps \<Rightarrow> regarding \<Rightarrow> gvr \<Rightarrow> (obj \<Rightarrow> bool) \<Rightarrow> obj list \<Rightarrow> error option \<Rightarrow> ('w, error option) action"
where
  "sweep D reg gvr doomed [] firstErr = State_Monad.return firstErr"
| "sweep D reg gvr doomed (x # items) firstErr =
     (let ns = GetNamespace (library D) x; name = GetName (library D) x in
      if \<not> doomed x then sweep D reg gvr doomed items firstErr
      else do {
        deleted \<leftarrow> dynamic_Delete D gvr ns name;
        if deleted \<noteq> None \<and> \<not> IsNotFound (library D) (the deleted) then
          sweep D reg gvr doomed items (if firstErr = None then deleted else firstErr)
        else do {
          emit D reg EventTypeNormal ''DestinationDeleted'' ''Delete'' (ns @ ''/'' @ name);
          sweep D reg gvr doomed items firstErr
        }
      })"

lemma np_loop_sweep:
  "deleteAllOwnedDestinations_loop D proj gvr (ownerKey proj) items e =
     sweep D (OnProjection proj) gvr (\<lambda>x. isOwnedBy (library D) x proj) items e"
  by (induction items arbitrary: e) (simp_all add: isOwnedBy_def Let_def cong: if_cong)

lemma cp_loop_sweep:
  "deleteClusterOwnedDestinations_loop D cp gvr keep (clusterOwnerKey cp) items e =
     sweep D (OnClusterProjection cp) gvr
       (\<lambda>x. isOwnedByCluster (library D) x cp \<and>
            (case keep of None \<Rightarrow> True | Some ks \<Rightarrow> GetNamespace (library D) x \<notin> ks)) items e"
proof (cases keep)
  case None
  then show ?thesis
    by (induction items arbitrary: e) (simp_all add: isOwnedByCluster_def Let_def cong: if_cong)
next
  case (Some ks)
  have "deleteClusterOwnedDestinations_loop D cp gvr (Some ks) (clusterOwnerKey cp) items e =
     sweep D (OnClusterProjection cp) gvr
       (\<lambda>x. isOwnedByCluster (library D) x cp \<and> GetNamespace (library D) x \<notin> ks) items e"
    by (induction items arbitrary: e) (auto simp: isOwnedByCluster_def Let_def cong: if_cong)
  with Some show ?thesis by simp
qed

text \<open>The delete calls of a list of calls, and the first failure among their results.\<close>

fun deletions :: "call list \<Rightarrow> (gvr \<times> string \<times> string) list" where
  "deletions [] = []"
| "deletions (DynDelete g ns n r # cs) = (g, ns, n) # deletions cs"
| "deletions (_ # cs) = deletions cs"

fun first_failure :: "lib \<Rightarrow> call list \<Rightarrow> error option" where
  "first_failure L [] = None"
| "first_failure L (DynDelete g ns n (Some e) # cs) =
     (if IsNotFound L e then first_failure L cs else Some e)"
| "first_failure L (_ # cs) = first_failure L cs"

fun sweep_call :: "call \<Rightarrow> bool" where
  "sweep_call (DynDelete _ _ _ _) = True"
| "sweep_call (Eventf _) = True"
| "sweep_call _ = False"

text \<open>
  A sweep attempts to delete every doomed item, each once and in order, whatever the
  earlier attempts returned, and reports the first failure that is not a missing object.
\<close>

definition sweep_result ::
  "lib \<Rightarrow> gvr \<Rightarrow> (obj \<Rightarrow> bool) \<Rightarrow> obj list \<Rightarrow> error option \<Rightarrow> error option \<Rightarrow> call list \<Rightarrow> bool" where
  "sweep_result L gvr doomed items e r cs \<longleftrightarrow>
     list_all sweep_call cs \<and>
     deletions cs = map (\<lambda>x. (gvr, GetNamespace L x, GetName L x)) (filter doomed items) \<and>
     r = (if e = None then first_failure L cs else e)"

lemma sweep_spec:
  "wp (sweep D reg gvr doomed items e) (\<lambda>r t.
     \<exists>cs. calls t = calls s @ cs \<and> sweep_result (library D) gvr doomed items e r cs) s"
proof (induction items arbitrary: e s)
  case Nil
  show ?case by (simp add: wp_rules sweep_result_def)
next
  case (Cons x items)
  let ?L = "library D"
  show ?case
  proof (cases "doomed x")
    case False
    with Cons [of e s] show ?thesis by (simp add: sweep_result_def Let_def)
  next
    case True
    obtain r w where del: "dyn_Delete D gvr (GetNamespace ?L x) (GetName ?L x) (world s) = (r, w)"
      by fastforce
    let ?c = "DynDelete gvr (GetNamespace ?L x) (GetName ?L x) r"
    have step: "wp (sweep D reg gvr doomed items e') (\<lambda>r' t.
        \<exists>cs. calls t = calls s @ cs \<and> sweep_result ?L gvr doomed (x # items) e r' cs) s'"
      if "calls s' = calls s @ ?c # es" "es = [] \<or> (\<exists>ev. es = [Eventf ev])"
        "e' = (if e = None then first_failure ?L [?c] else e)" for e' s' es
      by (rule wp_mono [OF Cons [of e' s']])
        (use that True in \<open>cases r; auto simp: sweep_result_def\<close>)
    consider (failed) err where "r = Some err" "\<not> IsNotFound ?L err"
      | (gone) "r = None \<or> (\<exists>err. r = Some err \<and> IsNotFound ?L err)"
      by (cases r) auto
    then show ?thesis
    proof cases
      case failed
      with True show ?thesis
        by (simp add: wp_rules del dynamic_Delete_def Let_def step [where es = "[]"])
    next
      case gone
      then have e: "e = (if e = None then first_failure ?L [?c] else e)" by auto
      from gone have ok: "(r \<noteq> None \<and> \<not> IsNotFound ?L (the r)) = False" by auto
      show ?thesis
        by (cases "Recorder D"; simp only: sweep.simps Let_def True simp_thms if_False wp_rules
              dynamic_Delete_def del prod.case ok option.case)
          (rule step [OF _ _ e], simp, simp)+
    qed
  qed
qed

section \<open>What both sweeps guarantee\<close>

lemma deletions_iff: "(g, ns, n) \<in> set (deletions cs) \<longleftrightarrow> (\<exists>r. DynDelete g ns n r \<in> set cs)"
  by (induction cs rule: deletions.induct) auto

lemma safe_append:
  assumes "safe L own cs" and "\<And>d es. d \<in> set ds \<Longrightarrow> justified L own (cs @ es) d"
  shows "safe L own (cs @ ds)"
  using assms
proof (induction ds arbitrary: cs)
  case (Cons d ds)
  have "safe L own (cs @ [d])" using Cons.prems(1) Cons.prems(2) [of d "[]"] by simp
  moreover have "justified L own ((cs @ [d]) @ es) d'" if "d' \<in> set ds" for d' es
    using Cons.prems(2) [of d' "d # es"] that by simp
  ultimately have "safe L own ((cs @ [d]) @ ds)" by (rule Cons.IH)
  then show ?case by simp
qed simp

lemma quiet_sweep [quiet_rules]: "quiet (sweep D reg gvr doomed items e)"
  by (induction items arbitrary: e) (auto simp: Let_def intro!: quiet_rules)

locale sweeper =
  fixes sweep_op :: "'w deps \<Rightarrow> 'c \<Rightarrow> gvr \<Rightarrow> ('w, error option) action"
    and selector_of :: "'c \<Rightarrow> string"
    and regarding_of :: "'c \<Rightarrow> regarding"
    and doomed owned :: "lib \<Rightarrow> 'c \<Rightarrow> obj \<Rightarrow> bool"
  assumes sweep_op_eq: "sweep_op D c gvr =
      State_Monad.bind (dynamic_List D gvr (selector_of c)) (\<lambda>listed. case listed of
          Inl err \<Rightarrow> State_Monad.return (Some (Wrap ''listing owned destinations'' err))
        | Inr items \<Rightarrow> sweep D (regarding_of c) gvr (doomed (library D) c) items None)"
    and doomed_owned: "doomed L c x \<Longrightarrow> owned L c x"
begin

definition swept :: "lib \<Rightarrow> 'c \<Rightarrow> gvr \<Rightarrow> error option \<Rightarrow> call list \<Rightarrow> bool" where
  "swept L c gvr r cs \<longleftrightarrow> (\<exists>listed rest. cs = DynList gvr (selector_of c) listed # rest \<and>
     (case listed of
        Inl err \<Rightarrow> rest = [] \<and> r = Some (Wrap ''listing owned destinations'' err)
      | Inr items \<Rightarrow> sweep_result L gvr (doomed L c) items None r rest))"

lemma sweep_op_spec:
  "wp (sweep_op D c gvr) (\<lambda>r t. \<exists>cs. calls t = calls s @ cs \<and> swept (library D) c gvr r cs) s"
proof -
  obtain listed w where l: "dyn_List D gvr (selector_of c) (world s) = (listed, w)" by fastforce
  show ?thesis
  proof (cases listed)
    case (Inl err)
    with l show ?thesis
      by (simp add: sweep_op_eq dynamic_List_def wp_rules swept_def)
  next
    case (Inr items)
    let ?s = "s\<lparr>world := w, calls := calls s @ [DynList gvr (selector_of c) (Inr items)]\<rparr>"
    have "wp (sweep D (regarding_of c) gvr (doomed (library D) c) items None)
        (\<lambda>r t. \<exists>cs. calls t = calls s @ cs \<and> swept (library D) c gvr r cs) ?s"
      by (rule wp_mono [OF sweep_spec]) (auto simp: swept_def)
    with l Inr show ?thesis by (simp add: sweep_op_eq dynamic_List_def wp_rules)
  qed
qed

lemma sweep_op_exact:
  "wp (sweep_op D c gvr) (\<lambda>r t. \<exists>listed cs.
     calls t = calls s @ DynList gvr (selector_of c) listed # cs \<and>
     (case listed of
        Inl e \<Rightarrow> cs = [] \<and> r = Some (Wrap ''listing owned destinations'' e)
      | Inr items \<Rightarrow>
          deletions cs = map (\<lambda>x. (gvr, GetNamespace (library D) x, GetName (library D) x))
            (filter (doomed (library D) c) items) \<and>
          r = first_failure (library D) cs)) s"
proof (rule wp_mono [OF sweep_op_spec])
  fix r and t :: "'w sys"
  assume "\<exists>cs. calls t = calls s @ cs \<and> swept (library D) c gvr r cs"
  then obtain listed rest where t: "calls t = calls s @ DynList gvr (selector_of c) listed # rest"
    and l: "case listed of Inl err \<Rightarrow> rest = [] \<and> r = Some (Wrap ''listing owned destinations'' err)
      | Inr items \<Rightarrow> sweep_result (library D) gvr (doomed (library D) c) items None r rest"
    by (auto simp: swept_def)
  from l show "\<exists>listed cs. calls t = calls s @ DynList gvr (selector_of c) listed # cs \<and>
     (case listed of
        Inl e \<Rightarrow> cs = [] \<and> r = Some (Wrap ''listing owned destinations'' e)
      | Inr items \<Rightarrow>
          deletions cs = map (\<lambda>x. (gvr, GetNamespace (library D) x, GetName (library D) x))
            (filter (doomed (library D) c) items) \<and>
          r = first_failure (library D) cs)"
    by (intro exI [of _ listed] exI [of _ rest], cases listed) (simp_all add: t sweep_result_def)
qed

lemma swept_safe:
  assumes "swept L c gvr r cs" and "safe L own pre"
    and owns: "\<And>y es. owned L c y \<Longrightarrow> own (pre @ es) y"
  shows "safe L own (pre @ cs)"
proof -
  from assms(1) obtain listed rest where
    cs: "cs = DynList gvr (selector_of c) listed # rest"
    and r: "case listed of Inl err \<Rightarrow> rest = [] \<and> r = Some (Wrap ''listing owned destinations'' err)
      | Inr items \<Rightarrow> sweep_result L gvr (doomed L c) items None r rest"
    by (auto simp: swept_def)
  let ?pre = "pre @ [DynList gvr (selector_of c) listed]"
  have "safe L own (?pre @ rest)"
  proof (rule safe_append)
    show "safe L own ?pre" using assms(2) by simp
    fix d es
    assume d: "d \<in> set rest"
    with r obtain items where
      items: "listed = Inr items" "sweep_result L gvr (doomed L c) items None r rest"
      by (cases listed) auto
    show "justified L own (?pre @ es) d"
    proof (cases "mutates d")
      case True
      moreover from d items(2) have "sweep_call d" by (simp add: sweep_result_def list_all_iff)
      ultimately obtain g ns n r' where del: "d = DynDelete g ns n r'" by (cases d) auto
      with d have "(g, ns, n) \<in> set (deletions rest)" by (auto simp: deletions_iff)
      with items(2) obtain y where "y \<in> set items" "doomed L c y" "g = gvr"
        "ns = GetNamespace L y" "n = GetName L y"
        by (auto simp: sweep_result_def)
      moreover from this have "own (?pre @ es) y"
        using owns [of y "DynList gvr (selector_of c) listed # es"] doomed_owned by simp
      ultimately show ?thesis using items(1) by (auto simp: del justified_def)
    qed simp
  qed
  then show ?thesis by (simp add: cs)
qed

lemma sweep_op_safe:
  fixes s :: "'w sys"
  assumes "safe (library D) own (calls s)"
    and "\<And>y es. owned (library D) c y \<Longrightarrow> own (calls s @ es) y"
  shows "wp (sweep_op D c gvr) (\<lambda>_. safe_calls (library D) own) s"
  by (rule wp_mono [OF sweep_op_spec]) (auto intro!: swept_safe assms)

lemma sweep_op_quiet: "quiet (sweep_op D c gvr)"
  unfolding sweep_op_eq by (intro quiet_rules)

end

interpretation np_sweep: sweeper deleteAllOwnedDestinations ownedByUIDSelector OnProjection
  "\<lambda>L p x. isOwnedBy L x p" "\<lambda>L p x. isOwnedBy L x p"
  by unfold_locales (simp_all add: deleteAllOwnedDestinations_def np_loop_sweep)

interpretation cp_sweep: sweeper "\<lambda>D (cp, keep) gvr. deleteClusterOwnedDestinations D cp gvr keep"
  "\<lambda>(cp, keep). ownedByClusterUIDSelector cp" "\<lambda>(cp, keep). OnClusterProjection cp"
  "\<lambda>L (cp, keep) x. isOwnedByCluster L x cp \<and>
     (case keep of None \<Rightarrow> True | Some ks \<Rightarrow> GetNamespace L x \<notin> ks)"
  "\<lambda>L (cp, keep) x. isOwnedByCluster L x cp"
  by unfold_locales (auto simp: deleteClusterOwnedDestinations_def cp_loop_sweep)

text \<open>The sweeps as the controllers call them.\<close>

lemma quiet_sweeps [quiet_rules]:
  "quiet (deleteAllOwnedDestinations D proj gvr)"
  "quiet (deleteClusterOwnedDestinations D cp gvr keep)"
  "quiet (deleteAllClusterOwnedDestinations D cp gvr)"
  "quiet (cleanupStaleClusterDestinations D cp gvr targets)"
  using np_sweep.sweep_op_quiet [of D proj gvr] cp_sweep.sweep_op_quiet [of D "(cp, k)" gvr for k]
  by (simp_all add: deleteAllClusterOwnedDestinations_def cleanupStaleClusterDestinations_def)

lemma quiet_deleteDestination [quiet_rules]:
  "quiet (deleteOneDestination D proj gvr ns name)" "quiet (deleteDestination D proj)"
  "quiet (deleteClusterDestination D cp)"
  unfolding deleteDestination_def deleteOneDestination_def deleteClusterDestination_def Let_def
  by (intro quiet_rules)+

lemma deleteClusterOwned_safe:
  assumes "safe (library D) own (calls s)"
    and "\<And>y es. isOwnedByCluster (library D) y cp \<Longrightarrow> own (calls s @ es) y"
  shows "wp (deleteClusterOwnedDestinations D cp gvr keep) (\<lambda>_. safe_calls (library D) own) s"
  using cp_sweep.sweep_op_safe [of D own s "(cp, keep)" gvr] assms by simp

lemma deleteOne_safe:
  assumes "safe (library D) own (calls s)"
    and "\<And>y es. isOwnedBy (library D) y proj \<Longrightarrow> own (calls s @ es) y"
  shows "wp (deleteOneDestination D proj gvr ns name) (\<lambda>_. safe_calls (library D) own) s"
  using assms
  by (auto simp: deleteOneDestination_def dynamic_Get_def dynamic_Delete_def wp_rules justified_def
      split: prod.splits sum.splits option.splits)

section \<open>Properties\<close>

text \<open>
  The sweep of the namespaced tier lists the objects with the Projection's UID label once and
  then attempts to delete exactly those whose annotation names this Projection, in the
  order listed; a failure does not stop it, a missing object is not a failure, and the first
  failure is what it returns.
\<close>

lemma deleteAllOwnedDestinations_exact:
  "wp (deleteAllOwnedDestinations D proj gvr) (\<lambda>r t. \<exists>listed cs.
     calls t = calls s @ DynList gvr (ownedByUIDSelector proj) listed # cs \<and>
     (case listed of
        Inl e \<Rightarrow> cs = [] \<and> r = Some (Wrap ''listing owned destinations'' e)
      | Inr items \<Rightarrow>
          deletions cs = map (\<lambda>x. (gvr, GetNamespace (library D) x, GetName (library D) x))
            (filter (\<lambda>x. isOwnedBy (library D) x proj) items) \<and>
          r = first_failure (library D) cs)) s"
  by (rule np_sweep.sweep_op_exact)

text \<open>
  The stale sweep of the cluster tier attempts to delete exactly the listed objects that carry the
  ClusterProjection's annotation and live outside the current targets. A destination in a
  target namespace is never deleted by it.
\<close>

lemma cleanupStaleClusterDestinations_exact:
  "wp (cleanupStaleClusterDestinations D cp gvr targets) (\<lambda>r t. \<exists>listed cs.
     calls t = calls s @ DynList gvr (ownedByClusterUIDSelector cp) listed # cs \<and>
     (case listed of
        Inl e \<Rightarrow> cs = [] \<and> r = Some (Wrap ''listing owned destinations'' e)
      | Inr items \<Rightarrow>
          deletions cs = map (\<lambda>x. (gvr, GetNamespace (library D) x, GetName (library D) x))
            (filter (\<lambda>x. isOwnedByCluster (library D) x cp \<and>
               GetNamespace (library D) x \<notin> set targets) items) \<and>
          r = first_failure (library D) cs)) s"
proof -
  have "fold insert targets {} = set targets" by (simp add: union_set_fold [symmetric])
  then have op: "cleanupStaleClusterDestinations D cp gvr targets =
      deleteClusterOwnedDestinations D cp gvr (Some (set targets))"
    by (simp add: cleanupStaleClusterDestinations_def)
  show ?thesis
    unfolding op
    using cp_sweep.sweep_op_exact [of D "(cp, Some (set targets))" gvr s]
    by (simp cong: sum.case_cong)
qed

end
