(* ===== verification/Finalizer.thy ===== *)
theory Finalizer
  imports Cleanup
begin

text \<open>
  \<^verbatim>\<open>internal/controller/finalizer.go\<close>: the deletion path and the stamping of the finalizer,
  for both tiers. The locale \<open>finalizer_tier\<close> states once that a finalizer is dropped only
  after the clean-up returned without error, and dropped then.
\<close>

section \<open>Definitions\<close>

definition finalizerName :: string where
  "finalizerName = ''projection.sh/finalizer''"

definition clusterFinalizerName :: string where
  "clusterFinalizerName = ''projection.sh/cluster-finalizer''"

text \<open>The result is \<^verbatim>\<open>(handled, err)\<close>.\<close>

definition handleDeletion :: "'w deps \<Rightarrow> projection \<Rightarrow> ('w, bool \<times> error option) action" where
  "handleDeletion D proj =
     (if m_DeletionTimestamp (p_ObjectMeta proj) = None then State_Monad.return (False, None)
      else if ContainsFinalizer (library D) (p_ObjectMeta proj) finalizerName then do {
        deleted \<leftarrow> deleteDestination D proj;
        case deleted of
          Some err \<Rightarrow> State_Monad.return (True, Some err)
        | None \<Rightarrow>
            (let proj = proj\<lparr>p_ObjectMeta :=
                   RemoveFinalizer (library D) (p_ObjectMeta proj) finalizerName\<rparr>
             in do {
               updated \<leftarrow> update_Projection D proj;
               case updated of
                 Inl err \<Rightarrow> State_Monad.return (True, Some err)
               | Inr _ \<Rightarrow> State_Monad.return (True, None)
             })
      } else State_Monad.return (True, None))"

text \<open>On success the value is the object as the API server returned it.\<close>

definition ensureFinalizer :: "'w deps \<Rightarrow> projection \<Rightarrow> ('w, error + projection) action" where
  "ensureFinalizer D proj =
     (if ContainsFinalizer (library D) (p_ObjectMeta proj) finalizerName
      then State_Monad.return (Inr proj)
      else
        let proj = proj\<lparr>p_ObjectMeta :=
              AddFinalizer (library D) (p_ObjectMeta proj) finalizerName\<rparr>
        in update_Projection D proj)"

definition handleClusterDeletion ::
  "'w deps \<Rightarrow> clusterProjection \<Rightarrow> ('w, bool \<times> error option) action" where
  "handleClusterDeletion D cp =
     (if m_DeletionTimestamp (cp_ObjectMeta cp) = None then State_Monad.return (False, None)
      else if ContainsFinalizer (library D) (cp_ObjectMeta cp) clusterFinalizerName then do {
        deleted \<leftarrow> deleteClusterDestination D cp;
        case deleted of
          Some err \<Rightarrow> State_Monad.return (True, Some err)
        | None \<Rightarrow>
            (let cp = cp\<lparr>cp_ObjectMeta :=
                   RemoveFinalizer (library D) (cp_ObjectMeta cp) clusterFinalizerName\<rparr>
             in do {
               updated \<leftarrow> update_ClusterProjection D cp;
               case updated of
                 Inl err \<Rightarrow> State_Monad.return (True, Some err)
               | Inr _ \<Rightarrow> State_Monad.return (True, None)
             })
      } else State_Monad.return (True, None))"

definition ensureClusterFinalizer ::
  "'w deps \<Rightarrow> clusterProjection \<Rightarrow> ('w, error + clusterProjection) action" where
  "ensureClusterFinalizer D cp =
     (if ContainsFinalizer (library D) (cp_ObjectMeta cp) clusterFinalizerName
      then State_Monad.return (Inr cp)
      else
        let cp = cp\<lparr>cp_ObjectMeta :=
              AddFinalizer (library D) (cp_ObjectMeta cp) clusterFinalizerName\<rparr>
        in update_ClusterProjection D cp)"

section \<open>A completed clean-up\<close>

text \<open>What the calls show about the resource a source reference resolves to.\<close>

definition unresolvable :: "sourceRef \<Rightarrow> call list \<Rightarrow> bool" where
  "unresolvable src cs \<longleftrightarrow> (\<exists>r. mapping_call src r \<in> set cs \<and>
     (case r of Inl _ \<Rightarrow> True | Inr m \<Rightarrow> rm_Scope m \<noteq> RESTScopeNamespace))"

definition resolved_to :: "sourceRef \<Rightarrow> gvr \<Rightarrow> call list \<Rightarrow> bool" where
  "resolved_to src gvr cs \<longleftrightarrow> (\<exists>m. mapping_call src (Inr m) \<in> set cs \<and>
     rm_Scope m = RESTScopeNamespace \<and> rm_Resource m = gvr)"

text \<open>The delete call succeeded or found nothing.\<close>

definition gone :: "lib \<Rightarrow> error option \<Rightarrow> bool" where
  "gone L r \<longleftrightarrow> (case r of None \<Rightarrow> True | Some e \<Rightarrow> IsNotFound L e)"

definition cleaned_np :: "lib \<Rightarrow> projection \<Rightarrow> call list \<Rightarrow> bool" where
  "cleaned_np L proj cs \<longleftrightarrow> unresolvable (ps_Source (p_Spec proj)) cs \<or>
     (\<exists>gvr ns name. resolved_to (ps_Source (p_Spec proj)) gvr cs \<and>
        destinationCoords proj = (ns, name) \<and>
        ((\<exists>e. DynGet gvr ns name (Inl e) \<in> set cs \<and> IsNotFound L e) \<or>
         (\<exists>y. DynGet gvr ns name (Inr y) \<in> set cs \<and> \<not> isOwnedBy L y proj) \<or>
         (\<exists>r. DynDelete gvr ns name r \<in> set cs \<and> gone L r)))"

definition cleaned_cp :: "lib \<Rightarrow> clusterProjection \<Rightarrow> call list \<Rightarrow> bool" where
  "cleaned_cp L cp cs \<longleftrightarrow> unresolvable (cps_Source (cp_Spec cp)) cs \<or>
     (\<exists>gvr items. resolved_to (cps_Source (cp_Spec cp)) gvr cs \<and>
        DynList gvr (ownedByClusterUIDSelector cp) (Inr items) \<in> set cs \<and>
        (\<forall>x\<in>set items. isOwnedByCluster L x cp \<longrightarrow>
           (\<exists>r. DynDelete gvr (GetNamespace L x) (GetName L x) r \<in> set cs \<and> gone L r)))"

lemma first_failure_None:
  "first_failure L cs = None \<longleftrightarrow>
     (\<forall>g ns n r. DynDelete g ns n r \<in> set cs \<longrightarrow> gone L r)"
proof (induction L cs rule: first_failure.induct)
  case (2 L g ns n e cs)
  then show ?case by (auto simp: gone_def) (metis option.simps(5))
qed (auto simp: gone_def)

lemma swept_all_gone:
  assumes "sweep_result L gvr doomed items None None cs" and "x \<in> set items" and "doomed x"
  shows "\<exists>r. DynDelete gvr (GetNamespace L x) (GetName L x) r \<in> set cs \<and> gone L r"
proof -
  from assms have "(gvr, GetNamespace L x, GetName L x) \<in> set (deletions cs)"
    by (auto simp: sweep_result_def)
  then obtain r where "DynDelete gvr (GetNamespace L x) (GetName L x) r \<in> set cs"
    by (auto simp: deletions_iff)
  moreover have "first_failure L cs = None" using assms(1) by (simp add: sweep_result_def)
  ultimately show ?thesis by (auto simp: first_failure_None)
qed

text \<open>Neither clean-up touches the resource itself.\<close>

lemma makes_sweep:
  assumes "\<And>g ns n r. P (DynDelete g ns n r)" and "\<And>ev. P (Eventf ev)"
  shows "makes P (sweep D reg gvr doomed items e)"
  by (induction items arbitrary: e)
    (auto simp: Let_def dynamic_Delete_def assms intro!: makes_rules makes_api_call makes_emit)


section \<open>The contract of both tiers\<close>

text \<open>
  \<open>cleaned L c cs\<close> is the tier's notion of a completed clean-up, a statement about the calls
  made; its first law says that a clean-up that returns without error leaves such calls.
\<close>

locale finalizer_tier =
  fixes fin :: string
    and meta :: "'c \<Rightarrow> objectMeta"
    and with_meta :: "'c \<Rightarrow> objectMeta \<Rightarrow> 'c"
    and cleanup :: "'w deps \<Rightarrow> 'c \<Rightarrow> ('w, error option) action"
    and upd_api :: "'w deps \<Rightarrow> 'c \<Rightarrow> 'w \<Rightarrow> (error + 'c) \<times> 'w"
    and upd_call :: "'c \<Rightarrow> error + 'c \<Rightarrow> call"
    and handle :: "'w deps \<Rightarrow> 'c \<Rightarrow> ('w, bool \<times> error option) action"
    and ensure :: "'w deps \<Rightarrow> 'c \<Rightarrow> ('w, error + 'c) action"
    and cleaned :: "lib \<Rightarrow> 'c \<Rightarrow> call list \<Rightarrow> bool"
  assumes handle_eq: "handle D c =
      (if m_DeletionTimestamp (meta c) = None then State_Monad.return (False, None)
       else if ContainsFinalizer (library D) (meta c) fin then
         State_Monad.bind (cleanup D c) (\<lambda>deleted. case deleted of
             Some err \<Rightarrow> State_Monad.return (True, Some err)
           | None \<Rightarrow> State_Monad.bind
               (let c' = with_meta c (RemoveFinalizer (library D) (meta c) fin)
                in api_call (upd_api D c') (upd_call c'))
               (\<lambda>updated. case updated of
                    Inl err \<Rightarrow> State_Monad.return (True, Some err)
                  | Inr _ \<Rightarrow> State_Monad.return (True, None)))
       else State_Monad.return (True, None))"
    and ensure_eq: "ensure D c =
      (if ContainsFinalizer (library D) (meta c) fin then State_Monad.return (Inr c)
       else let c' = with_meta c (AddFinalizer (library D) (meta c) fin)
            in api_call (upd_api D c') (upd_call c'))"
    and meta_with: "meta (with_meta c m) = m"
    and upd_call_inject: "upd_call c u = upd_call c' u' \<longleftrightarrow> c = c' \<and> u = u'"
    and cleanup_calls: "wp (cleanup D c) (\<lambda>r t. \<exists>cs. calls t = calls s @ cs \<and>
      (r = None \<longrightarrow> cleaned (library D) c cs) \<and>
      (\<forall>c' u. upd_call c' u \<notin> set cs)) s"
begin

text \<open>The deletion path always takes over from the reconcile.\<close>

lemma deletion_handled:
  assumes "m_DeletionTimestamp (meta c) \<noteq> None"
  shows "wp (handle D c) (\<lambda>r t. fst r) s"
  using assms by (simp add: handle_eq wp_rules wp_run split: option.splits sum.splits prod.splits)

text \<open>Whenever the object is updated, the clean-up is complete and the finalizer is gone from it.\<close>

lemma released_only_when_clean:
  fixes s :: "'w sys"
  assumes "lib_ok (library D)"
  shows "wp (handle D c) (\<lambda>(handled, err) t. \<exists>cs. calls t = calls s @ cs \<and>
    (\<forall>c' u. upd_call c' u \<in> set cs \<longrightarrow>
       (\<exists>pre. cs = pre @ [upd_call c' u] \<and> cleaned (library D) c pre \<and>
              c' = with_meta c ((meta c)\<lparr>m_Finalizers :=
                     filter (\<lambda>f. f \<noteq> fin) (m_Finalizers (meta c))\<rparr>) \<and>
              fin \<notin> set (m_Finalizers (meta c'))))) s"
proof (cases "m_DeletionTimestamp (meta c) = None \<or> fin \<notin> set (m_Finalizers (meta c))")
  case True
  then show ?thesis by (auto simp: handle_eq wp_rules lib_finalizers [OF assms])
next
  case False
  let ?c = "with_meta c ((meta c)\<lparr>m_Finalizers := filter (\<lambda>f. f \<noteq> fin) (m_Finalizers (meta c))\<rparr>)"
  have "fin \<notin> set (m_Finalizers (meta ?c))" by (simp add: meta_with)
  then show ?thesis
    using False
    by (simp add: handle_eq wp_rules lib_finalizers [OF assms] Let_def)
      (rule wp_mono [OF cleanup_calls [of D c s]],
       auto simp: wp_rules upd_call_inject split: option.splits prod.splits sum.splits)
qed

text \<open>
  A clean-up without error is followed by the update: the finalizer is dropped, and the
  deletion is reported as handled with the error of that update.
\<close>

lemma released_after_cleanup:
  assumes "lib_ok (library D)" and "m_DeletionTimestamp (meta c) \<noteq> None"
    and "fin \<in> set (m_Finalizers (meta c))"
    and "run_state (cleanup D c) s = (None, s1)"
  shows "\<exists>u w. run_state (handle D c) s =
    ((True, (case u of Inl err \<Rightarrow> Some err | Inr _ \<Rightarrow> None)),
     s1\<lparr>world := w, calls := calls s1 @ [upd_call (with_meta c ((meta c)\<lparr>m_Finalizers :=
        filter (\<lambda>f. f \<noteq> fin) (m_Finalizers (meta c))\<rparr>)) u]\<rparr>)"
proof -
  let ?c = "with_meta c ((meta c)\<lparr>m_Finalizers := filter (\<lambda>f. f \<noteq> fin) (m_Finalizers (meta c))\<rparr>)"
  obtain u w where u: "upd_api D ?c (world s1) = (u, w)" by fastforce
  show ?thesis
    by (intro exI [of _ u] exI [of _ w], cases u)
      (use assms u in \<open>auto simp: handle_eq lib_finalizers api_call_def Let_def\<close>)
qed

lemma ensure_adds:
  assumes "lib_ok (library D)"
  shows "wp (ensure D c) (\<lambda>r t.
    if fin \<in> set (m_Finalizers (meta c)) then r = Inr c \<and> t = s
    else \<exists>c' w. t = s\<lparr>world := w, calls := calls s @ [upd_call c' r]\<rparr> \<and>
           c' = with_meta c ((meta c)\<lparr>m_Finalizers := m_Finalizers (meta c) @ [fin]\<rparr>)) s"
  by (auto simp: ensure_eq lib_finalizers [OF assms] wp_rules Let_def split: prod.splits)

end

section \<open>Both tiers meet the contract\<close>

lemma deleteDestination_cleaned:
  "wp (deleteDestination D proj) (\<lambda>r t. \<exists>cs. calls t = calls s @ cs \<and>
     (r = None \<longrightarrow> cleaned_np (library D) proj cs) \<and> (\<forall>p u. UpdateProjection p u \<notin> set cs)) s"
  by (auto simp: deleteDestination_def wp_rules wp_resolveGVR deleteOneDestination_def
      dynamic_Get_def dynamic_Delete_def cleaned_np_def unresolvable_def resolved_to_def
      mapping_call_def gone_def Let_def
      split: prod.splits sum.splits option.splits if_splits)

lemma deleteClusterDestination_cleaned:
  "wp (deleteClusterDestination D cp) (\<lambda>r t. \<exists>cs. calls t = calls s @ cs \<and>
     (r = None \<longrightarrow> cleaned_cp (library D) cp cs) \<and>
     (\<forall>p u. UpdateClusterProjection p u \<notin> set cs)) s"
proof -
  let ?src = "cps_Source (cp_Spec cp)" and ?L = "library D"
  have swept: "wp (deleteClusterOwnedDestinations D cp gvr None) (\<lambda>r t. \<exists>cs. calls t = calls s @ cs \<and>
     (r = None \<longrightarrow> cleaned_cp ?L cp cs) \<and> (\<forall>p u. UpdateClusterProjection p u \<notin> set cs)) s'"
    if s': "calls s' = calls s @ [mapping_call ?src (Inr m)]"
      and m: "rm_Scope m = RESTScopeNamespace" "rm_Resource m = gvr" for s' m gvr
  proof (rule wp_mono)
    show "wp (deleteClusterOwnedDestinations D cp gvr None) (\<lambda>r t. \<exists>cs. calls t = calls s' @ cs \<and>
        cp_sweep.swept ?L (cp, None) gvr r cs) s'"
      using cp_sweep.sweep_op_spec [of D "(cp, None)" gvr s'] by simp
    fix r t
    assume "\<exists>cs. calls t = calls s' @ cs \<and> cp_sweep.swept ?L (cp, None) gvr r cs"
    then obtain cs where t: "calls t = calls s' @ cs" and cs: "cp_sweep.swept ?L (cp, None) gvr r cs"
      by blast
    from cs obtain listed rest where
      l: "cs = DynList gvr (ownedByClusterUIDSelector cp) listed # rest"
      "case listed of Inl err \<Rightarrow> rest = [] \<and> r = Some (Wrap ''listing owned destinations'' err)
       | Inr items \<Rightarrow> sweep_result ?L gvr (\<lambda>x. isOwnedByCluster ?L x cp) items None r rest"
      by (auto simp: cp_sweep.swept_def cong: sum.case_cong)
    have "cleaned_cp ?L cp (mapping_call ?src (Inr m) # cs)" if r: "r = None"
    proof -
      from l r obtain items where
        "cs = DynList gvr (ownedByClusterUIDSelector cp) (Inr items) # rest"
        "sweep_result ?L gvr (\<lambda>x. isOwnedByCluster ?L x cp) items None None rest"
        by (cases listed) auto
      moreover have "resolved_to ?src gvr (mapping_call ?src (Inr m) # cs)"
        using m by (auto simp: resolved_to_def)
      ultimately show ?thesis
        unfolding cleaned_cp_def
        by (intro disjI2 exI [of _ gvr] exI [of _ items]) (auto dest: swept_all_gone)
    qed
    moreover have "UpdateClusterProjection p u \<notin> set (mapping_call ?src (Inr m) # cs)" for p u
      using l by (cases listed) (auto simp: mapping_call_def sweep_result_def list_all_iff)
    ultimately show "\<exists>cs. calls t = calls s @ cs \<and> (r = None \<longrightarrow> cleaned_cp ?L cp cs) \<and>
        (\<forall>p u. UpdateClusterProjection p u \<notin> set cs)"
      by (intro exI [of _ "mapping_call ?src (Inr m) # cs"]) (simp add: t s')
  qed
  show ?thesis
    by (auto simp: deleteClusterDestination_def deleteAllClusterOwnedDestinations_def wp_rules
        wp_resolveGVR cleaned_cp_def [of _ _ "[_]"] unresolvable_def mapping_call_def
        split: prod.splits sum.splits intro!: swept)
qed

interpretation np_fin: finalizer_tier finalizerName p_ObjectMeta "\<lambda>p m. p\<lparr>p_ObjectMeta := m\<rparr>"
  deleteDestination client_Update_Projection UpdateProjection handleDeletion ensureFinalizer
  cleaned_np
  by unfold_locales
    (simp_all add: handleDeletion_def ensureFinalizer_def update_Projection_def Let_def
      deleteDestination_cleaned cong: if_cong option.case_cong)

interpretation cp_fin: finalizer_tier clusterFinalizerName cp_ObjectMeta
  "\<lambda>c m. c\<lparr>cp_ObjectMeta := m\<rparr>" deleteClusterDestination client_Update_ClusterProjection
  UpdateClusterProjection handleClusterDeletion ensureClusterFinalizer cleaned_cp
  by unfold_locales
    (simp_all add: handleClusterDeletion_def ensureClusterFinalizer_def
      update_ClusterProjection_def Let_def deleteClusterDestination_cleaned
      cong: if_cong option.case_cong)

lemma quiet_finalizers [quiet_rules]:
  "quiet (handleDeletion D proj)" "quiet (ensureFinalizer D proj)"
  "quiet (handleClusterDeletion D cp)" "quiet (ensureClusterFinalizer D cp)"
  unfolding handleDeletion_def ensureFinalizer_def handleClusterDeletion_def
    ensureClusterFinalizer_def Let_def
  by (intro quiet_rules)+

lemma harmless_ensure [makes_rules]:
  "harmless (ensureFinalizer D proj)" "harmless (ensureClusterFinalizer D cp)"
  unfolding ensureFinalizer_def ensureClusterFinalizer_def Let_def by (intro makes_rules)+

section \<open>Properties\<close>

text \<open>
  C19: the finalizer of a Projection is dropped only after its clean-up. Whenever the deletion path
  updates the resource, that update is its last call, removes exactly the controller's
  finalizer, and the calls before it show that the source kind does not resolve, or that the
  destination is missing, is not owned, or was deleted.
\<close>

theorem handleDeletion_releases_clean:
  assumes "lib_ok (library D)"
  shows "wp (handleDeletion D proj) (\<lambda>(handled, err) t. \<exists>cs. calls t = calls s @ cs \<and>
    (\<forall>proj' u. UpdateProjection proj' u \<in> set cs \<longrightarrow>
       (\<exists>pre. cs = pre @ [UpdateProjection proj' u] \<and> cleaned_np (library D) proj pre \<and>
          proj' = proj\<lparr>p_ObjectMeta := (p_ObjectMeta proj)\<lparr>m_Finalizers :=
            filter (\<lambda>f. f \<noteq> finalizerName) (m_Finalizers (p_ObjectMeta proj))\<rparr>\<rparr>))) s"
  by (rule wp_mono [OF np_fin.released_only_when_clean [OF assms]])
    (simp only: case_prod_beta, blast)

definition sample_deleting :: "objectMeta \<Rightarrow> string \<Rightarrow> objectMeta" where
  "sample_deleting m f = m\<lparr>m_DeletionTimestamp := Some 9, m_Finalizers := [f]\<rparr>"

theorem handleDeletion_releases_clean_witness:
  "let proj = sample_projection\<lparr>p_ObjectMeta :=
        sample_deleting (p_ObjectMeta sample_projection) finalizerName\<rparr> in
   wp (handleDeletion sample_deps proj) (\<lambda>(handled, err) t. \<exists>cs. calls t = calls sample_sys @ cs \<and>
    (\<forall>proj' u. UpdateProjection proj' u \<in> set cs \<longrightarrow>
       (\<exists>pre. cs = pre @ [UpdateProjection proj' u] \<and> cleaned_np (library sample_deps) proj pre \<and>
          proj' = proj\<lparr>p_ObjectMeta := (p_ObjectMeta proj)\<lparr>m_Finalizers :=
            filter (\<lambda>f. f \<noteq> finalizerName) (m_Finalizers (p_ObjectMeta proj))\<rparr>\<rparr>))) sample_sys"
  unfolding Let_def by (rule handleDeletion_releases_clean [OF sample_library_ok])

text \<open>
  C20: the finalizer of a ClusterProjection is dropped only after the source kind was found not to
  resolve, or every listed destination it owns was deleted or already missing.
\<close>

theorem handleClusterDeletion_releases_clean:
  assumes "lib_ok (library D)"
  shows "wp (handleClusterDeletion D cp) (\<lambda>(handled, err) t. \<exists>cs. calls t = calls s @ cs \<and>
    (\<forall>cp' u. UpdateClusterProjection cp' u \<in> set cs \<longrightarrow>
       (\<exists>pre. cs = pre @ [UpdateClusterProjection cp' u] \<and> cleaned_cp (library D) cp pre \<and>
          clusterFinalizerName \<notin> set (m_Finalizers (cp_ObjectMeta cp'))))) s"
  by (rule wp_mono [OF cp_fin.released_only_when_clean [OF assms]])
    (simp only: case_prod_beta, blast)

theorem handleClusterDeletion_releases_clean_witness:
  "let cp = sample_clusterProjection\<lparr>cp_ObjectMeta :=
        sample_deleting (cp_ObjectMeta sample_clusterProjection) clusterFinalizerName\<rparr> in
   wp (handleClusterDeletion sample_deps cp) (\<lambda>(handled, err) t. \<exists>cs. calls t = calls sample_sys @ cs \<and>
    (\<forall>cp' u. UpdateClusterProjection cp' u \<in> set cs \<longrightarrow>
       (\<exists>pre. cs = pre @ [UpdateClusterProjection cp' u] \<and>
          cleaned_cp (library sample_deps) cp pre \<and>
          clusterFinalizerName \<notin> set (m_Finalizers (cp_ObjectMeta cp'))))) sample_sys"
  unfolding Let_def by (rule handleClusterDeletion_releases_clean [OF sample_library_ok])

text \<open>
  A Projection is not trapped in deletion by a source kind that no longer resolves: the update
  that drops the finalizer is then made right away, with no other call in between.
\<close>

lemma unresolvable_kind_releases:
  assumes "lib_ok (library D)" and "m_DeletionTimestamp (p_ObjectMeta proj) \<noteq> None"
    and "finalizerName \<in> set (m_Finalizers (p_ObjectMeta proj))"
    and "RESTMapping D \<lparr>gk_Group = sr_Group (ps_Source (p_Spec proj)),
           gk_Kind = sr_Kind (ps_Source (p_Spec proj))\<rparr>
         (if sr_Version (ps_Source (p_Spec proj)) = '''' then None
          else Some (sr_Version (ps_Source (p_Spec proj)))) (world s) = (Inl e, w)"
  shows "\<exists>u w'. run_state (handleDeletion D proj) s =
    ((True, (case u of Inl err \<Rightarrow> Some err | Inr _ \<Rightarrow> None)),
     s\<lparr>world := w', calls := calls s @
        [mapping_call (ps_Source (p_Spec proj)) (Inl e),
         UpdateProjection (proj\<lparr>p_ObjectMeta := (p_ObjectMeta proj)\<lparr>m_Finalizers :=
            filter (\<lambda>f. f \<noteq> finalizerName) (m_Finalizers (p_ObjectMeta proj))\<rparr>\<rparr>) u]\<rparr>)"
proof -
  let ?s = "s\<lparr>world := w, calls := calls s @ [mapping_call (ps_Source (p_Spec proj)) (Inl e)]\<rparr>"
  have "wp (deleteDestination D proj) (\<lambda>r t. r = None \<and> t = ?s) s"
    using assms(4) by (simp add: deleteDestination_def wp_rules wp_resolveGVR mapping_call_def)
  then have "run_state (deleteDestination D proj) s = (None, ?s)"
    by (simp add: wp_def split: prod.splits)
  from np_fin.released_after_cleanup [OF assms(1-3) this] show ?thesis by simp
qed

definition unmapped_deps :: "unit deps" where
  "unmapped_deps = sample_deps\<lparr>RESTMapping := (\<lambda>gk v w. (Inl (Errorf ''no match''), w))\<rparr>"

lemma unresolvable_kind_releases_example:
  "let proj = sample_projection\<lparr>p_ObjectMeta :=
        sample_deleting (p_ObjectMeta sample_projection) finalizerName\<rparr> in
   \<exists>u w'. run_state (handleDeletion unmapped_deps proj) sample_sys =
    ((True, (case u of Inl err \<Rightarrow> Some err | Inr _ \<Rightarrow> None)),
     sample_sys\<lparr>world := w', calls := calls sample_sys @
        [mapping_call (ps_Source (p_Spec proj)) (Inl (Errorf ''no match'')),
         UpdateProjection (proj\<lparr>p_ObjectMeta := (p_ObjectMeta proj)\<lparr>m_Finalizers :=
            filter (\<lambda>f. f \<noteq> finalizerName) (m_Finalizers (p_ObjectMeta proj))\<rparr>\<rparr>) u]\<rparr>)"
  unfolding Let_def
  by (rule unresolvable_kind_releases [where w = "()"])
    (simp_all add: unmapped_deps_def sample_deps_def ref_lib_ok sample_deleting_def)

end
