(* ===== verification/Watches.thy ===== *)
theory Watches
  imports Finalizer
begin

text \<open>
  \<^verbatim>\<open>internal/controller/watches.go\<close> and the watch functions of both controllers: lazy, deduplicated
  registration of source and destination watches, and the functions that map an event back to
  reconcile requests. A registration holds a mutex from its first look at the map to its last
  write, so each is one step of the model. The handler and predicate that a watch is given are
  definitions of their own, since the controller runtime calls them later.
\<close>

section \<open>Registration\<close>

definition sourceIndex :: string where "sourceIndex = ''spec.sourceKey''"
definition uidIndex :: string where "uidIndex = ''metadata.uid''"
definition clusterSourceIndex :: string where "clusterSourceIndex = ''spec.sourceKey''"

definition ensureSourceWatch :: "'w deps \<Rightarrow> gvk \<Rightarrow> ('w, error option) action" where
  "ensureSourceWatch D gvk = do {
     s \<leftarrow> State_Monad.get;
     if \<not> pr_Controller (np s) \<or> \<not> pr_Cache (np s) then State_Monad.return None
     else do {
       (if pr_watched (np s) = None
        then State_Monad.update (\<lambda>s. s\<lparr>np := (np s)\<lparr>pr_watched := Some fmempty\<rparr>\<rparr>)
        else State_Monad.return ());
       s \<leftarrow> State_Monad.get;
       if fmlookup (the (pr_watched (np s))) gvk = Some True then State_Monad.return None
       else do {
         err \<leftarrow> watch D Namespaced SourceWatch gvk;
         if err \<noteq> None then State_Monad.return err
         else do {
           State_Monad.update (\<lambda>s. s\<lparr>np := (np s)\<lparr>pr_watched :=
             Some (fmupd gvk True (the (pr_watched (np s))))\<rparr>\<rparr>);
           inc_watchedGvks;
           State_Monad.return None
         }
       }
     }
   }"

definition cluster_ensureSourceWatch :: "'w deps \<Rightarrow> gvk \<Rightarrow> ('w, error option) action" where
  "cluster_ensureSourceWatch D gvk = do {
     s \<leftarrow> State_Monad.get;
     if \<not> cpr_Controller (cpr s) \<or> \<not> cpr_Cache (cpr s) then State_Monad.return None
     else do {
       (if cpr_watched (cpr s) = None
        then State_Monad.update (\<lambda>s. s\<lparr>cpr := (cpr s)\<lparr>cpr_watched := Some fmempty\<rparr>\<rparr>)
        else State_Monad.return ());
       s \<leftarrow> State_Monad.get;
       if fmlookup (the (cpr_watched (cpr s))) gvk = Some True then State_Monad.return None
       else do {
         err \<leftarrow> watch D ClusterTier SourceWatch gvk;
         if err \<noteq> None then State_Monad.return err
         else do {
           State_Monad.update (\<lambda>s. s\<lparr>cpr := (cpr s)\<lparr>cpr_watched :=
             Some (fmupd gvk True (the (cpr_watched (cpr s))))\<rparr>\<rparr>);
           inc_watchedGvks;
           State_Monad.return None
         }
       }
     }
   }"

text \<open>
  The map is passed by reference: its reader and its writer stand for it. Writing an entry
  of a nil map panics; that branch has an error value of its own.
\<close>

definition nil_map_panic :: error where
  "nil_map_panic = Errorf ''panic: assignment to entry in nil map''"

definition ensureDestWatch ::
  "'w deps \<Rightarrow> tier \<Rightarrow> bool \<Rightarrow> bool \<Rightarrow> gvk \<Rightarrow> string \<Rightarrow> ('w sys \<Rightarrow> (gvk, bool) fmap option) \<Rightarrow>
   ((gvk, bool) fmap option \<Rightarrow> 'w sys \<Rightarrow> 'w sys) \<Rightarrow> ('w, error option) action" where
  "ensureDestWatch D t ctrlr cch gvk uidLabel watched put =
     (if \<not> ctrlr \<or> \<not> cch then State_Monad.return None
      else do {
        s \<leftarrow> State_Monad.get;
        if (case watched s of None \<Rightarrow> False | Some m \<Rightarrow> fmlookup m gvk = Some True)
        then State_Monad.return None
        else do {
          err \<leftarrow> watch D t (DestWatch uidLabel) gvk;
          if err \<noteq> None then State_Monad.return err
          else do {
            s \<leftarrow> State_Monad.get;
            case watched s of
              None \<Rightarrow> State_Monad.return (Some nil_map_panic)
            | Some m \<Rightarrow> do {
                State_Monad.update (put (Some (fmupd gvk True m)));
                inc_watchedDestGvks;
                State_Monad.return None
              }
          }
        }
      })"

definition ensureNamespacedDestWatch :: "'w deps \<Rightarrow> gvk \<Rightarrow> ('w, error option) action" where
  "ensureNamespacedDestWatch D gvk = do {
     s \<leftarrow> State_Monad.get;
     (if pr_watchedDests (np s) = None
      then State_Monad.update (\<lambda>s. s\<lparr>np := (np s)\<lparr>pr_watchedDests := Some fmempty\<rparr>\<rparr>)
      else State_Monad.return ());
     ensureDestWatch D Namespaced (pr_Controller (np s)) (pr_Cache (np s)) gvk ownedByUIDLabel
       (\<lambda>s. pr_watchedDests (np s)) (\<lambda>m s. s\<lparr>np := (np s)\<lparr>pr_watchedDests := m\<rparr>\<rparr>)
   }"

definition ensureClusterDestWatch :: "'w deps \<Rightarrow> gvk \<Rightarrow> ('w, error option) action" where
  "ensureClusterDestWatch D gvk = do {
     s \<leftarrow> State_Monad.get;
     (if cpr_watchedDests (cpr s) = None
      then State_Monad.update (\<lambda>s. s\<lparr>cpr := (cpr s)\<lparr>cpr_watchedDests := Some fmempty\<rparr>\<rparr>)
      else State_Monad.return ());
     ensureDestWatch D ClusterTier (cpr_Controller (cpr s)) (cpr_Cache (cpr s)) gvk
       ownedByClusterUIDLabel
       (\<lambda>s. cpr_watchedDests (cpr s)) (\<lambda>m s. s\<lparr>cpr := (cpr s)\<lparr>cpr_watchedDests := m\<rparr>\<rparr>)
   }"

section \<open>Mapping events to requests\<close>

text \<open>What the map functions read of the object of an event.\<close>

record eventObj =
  eo_GVK :: gvk
  eo_Namespace :: string
  eo_Name :: string
  eo_Labels :: str_map

definition event_ref :: "eventObj \<Rightarrow> sourceRef" where
  "event_ref o1 = \<lparr>sr_Group = gvk_Group (eo_GVK o1), sr_Version = '''',
     sr_Kind = gvk_Kind (eo_GVK o1), sr_Namespace = eo_Namespace o1, sr_Name = eo_Name o1\<rparr>"

definition mapSource :: "'w deps \<Rightarrow> eventObj \<Rightarrow> ('w, objectKey list) action" where
  "mapSource D o1 =
     (let key = sourceKey (event_ref o1) in do {
        listed \<leftarrow> list_Projection D sourceIndex key;
        State_Monad.return (case listed of
            Inl err \<Rightarrow> []
          | Inr items \<Rightarrow> map (\<lambda>p. \<lparr>ok_Namespace = m_Namespace (p_ObjectMeta p),
                                 ok_Name = m_Name (p_ObjectMeta p)\<rparr>) items)
      })"

definition cluster_mapSource :: "'w deps \<Rightarrow> eventObj \<Rightarrow> ('w, objectKey list) action" where
  "cluster_mapSource D o1 =
     (let key = sourceKey (event_ref o1) in do {
        listed \<leftarrow> list_ClusterProjection D (Some (clusterSourceIndex, key));
        State_Monad.return (case listed of
            Inl err \<Rightarrow> []
          | Inr items \<Rightarrow> map (\<lambda>c. \<lparr>ok_Namespace = '''', ok_Name = m_Name (cp_ObjectMeta c)\<rparr>) items)
      })"

definition enqueueByUID :: "'w deps \<Rightarrow> string \<Rightarrow> ('w, objectKey list) action" where
  "enqueueByUID D uid =
     (if uid = '''' then State_Monad.return []
      else do {
        listed \<leftarrow> list_Projection D uidIndex uid;
        State_Monad.return (case listed of
            Inl err \<Rightarrow> []
          | Inr items \<Rightarrow> map (\<lambda>p. \<lparr>ok_Namespace = m_Namespace (p_ObjectMeta p),
                                 ok_Name = m_Name (p_ObjectMeta p)\<rparr>) items)
      })"

definition cluster_enqueueByUID :: "'w deps \<Rightarrow> string \<Rightarrow> ('w, objectKey list) action" where
  "cluster_enqueueByUID D uid =
     (if uid = '''' then State_Monad.return []
      else do {
        listed \<leftarrow> list_ClusterProjection D (Some (uidIndex, uid));
        State_Monad.return (case listed of
            Inl err \<Rightarrow> []
          | Inr items \<Rightarrow> map (\<lambda>c. \<lparr>ok_Namespace = '''', ok_Name = m_Name (cp_ObjectMeta c)\<rparr>) items)
      })"

text \<open>The predicate and the handler that \<^verbatim>\<open>ensureDestWatch\<close> gives to its watch.\<close>

definition destWatch_pred :: "string \<Rightarrow> eventObj \<Rightarrow> bool" where
  "destWatch_pred uidLabel o1 \<longleftrightarrow> fmlookup (eo_Labels o1) uidLabel \<noteq> None"

definition destWatch_handler ::
  "(string \<Rightarrow> ('w, objectKey list) action) \<Rightarrow> string \<Rightarrow> eventObj \<Rightarrow> ('w, objectKey list) action" where
  "destWatch_handler enqueue uidLabel o1 =
     (let uid = get_or_empty (eo_Labels o1) uidLabel in
      if uid = '''' then State_Monad.return [] else enqueue uid)"

section \<open>One watch per kind, and exact gauges\<close>

text \<open>The kinds for which a watch was successfully registered, in order.\<close>

fun registered :: "tier \<Rightarrow> watchKind \<Rightarrow> call list \<Rightarrow> gvk list" where
  "registered t k [] = []"
| "registered t k (Watch t' k' g None # cs) =
     (if t = t' \<and> k = k' then g # registered t k cs else registered t k cs)"
| "registered t k (_ # cs) = registered t k cs"

lemma registered_append [simp]: "registered t k (cs @ ds) = registered t k cs @ registered t k ds"
  by (induction t k cs rule: registered.induct) auto

text \<open>The map remembers exactly the registered kinds, and none was registered twice.\<close>

definition remembers :: "(gvk, bool) fmap option \<Rightarrow> gvk list \<Rightarrow> bool" where
  "remembers m gs \<longleftrightarrow> distinct gs \<and>
     (\<forall>g. g \<in> set gs \<longleftrightarrow> (case m of None \<Rightarrow> False | Some f \<Rightarrow> fmlookup f g = Some True))"

definition watch_inv :: "'w sys \<Rightarrow> bool" where
  "watch_inv s \<longleftrightarrow>
     remembers (pr_watched (np s)) (registered Namespaced SourceWatch (calls s)) \<and>
     remembers (cpr_watched (cpr s)) (registered ClusterTier SourceWatch (calls s)) \<and>
     remembers (pr_watchedDests (np s)) (registered Namespaced (DestWatch ownedByUIDLabel) (calls s)) \<and>
     remembers (cpr_watchedDests (cpr s))
       (registered ClusterTier (DestWatch ownedByClusterUIDLabel) (calls s)) \<and>
     watchedGvks s = length (registered Namespaced SourceWatch (calls s)) +
       length (registered ClusterTier SourceWatch (calls s)) \<and>
     watchedDestGvks s = length (registered Namespaced (DestWatch ownedByUIDLabel) (calls s)) +
       length (registered ClusterTier (DestWatch ownedByClusterUIDLabel) (calls s))"

lemma remembers_nil [simp]: "remembers (Some fmempty) gs \<longleftrightarrow> remembers None gs"
  by (simp add: remembers_def)

lemma remembers_add:
  assumes "remembers (Some f) gs" and "fmlookup f g \<noteq> Some True"
  shows "remembers (Some (fmupd g True f)) (gs @ [g])"
  using assms by (auto simp: remembers_def)

lemma remembers_add_nil: "remembers None gs \<Longrightarrow> remembers (Some (fmupd g True fmempty)) (gs @ [g])"
  by (auto simp: remembers_def)

lemmas remembers_rules = remembers_add remembers_add_nil

text \<open>Calls and updates that concern no watch keep the invariant.\<close>

lemma keeps_watch_api:
  assumes "\<And>t k r. registered t k [c r] = []"
  shows "keeps watch_inv (api_call f c)"
  using assms by (intro keepsI) (simp add: wp_rules watch_inv_def split: prod.splits)

lemma keeps_watch_calls [keeps_rules]:
  "keeps watch_inv (get_Projection D k)" "keeps watch_inv (update_Projection D p)"
  "keeps watch_inv (statusUpdate_Projection D p)" "keeps watch_inv (list_Projection D f v)"
  "keeps watch_inv (get_ClusterProjection D n)" "keeps watch_inv (update_ClusterProjection D c)"
  "keeps watch_inv (statusUpdate_ClusterProjection D c)"
  "keeps watch_inv (list_ClusterProjection D fv)" "keeps watch_inv (list_Namespace D sel)"
  "keeps watch_inv (get_Object D g k)" "keeps watch_inv (create_Object D x)"
  "keeps watch_inv (update_Object D x)" "keeps watch_inv (dynamic_Get D gr ns n)"
  "keeps watch_inv (dynamic_List D gr sl)" "keeps watch_inv (dynamic_Delete D gr ns n)"
  "keeps watch_inv (rest_Mapping D gk ver)"
  by (auto simp: call_defs intro!: keeps_watch_api)

lemma keeps_watch_other [keeps_rules]:
  "keeps watch_inv (emit D x t r a msg)" "keeps watch_inv (inc_reconcileTotal k r)"
  "keeps watch_inv (observe_e2eSeconds D k e c)"
  by (auto simp: emit_def Let_def metric_defs watch_inv_def
      intro!: keeps_rules keeps_watch_api keeps_update split: option.splits)

lemma keeps_watch_ensure [keeps_rules]:
  "keeps watch_inv (ensureSourceWatch D g)"
  "keeps watch_inv (cluster_ensureSourceWatch D g)"
  "keeps watch_inv (ensureNamespacedDestWatch D g)"
  "keeps watch_inv (ensureClusterDestWatch D g)"
  by (auto intro!: keepsI remembers_rules simp: ensureSourceWatch_def cluster_ensureSourceWatch_def
      ensureNamespacedDestWatch_def ensureClusterDestWatch_def ensureDestWatch_def watch_def
      watch_inv_def wp_rules split: prod.splits option.splits)

section \<open>From an event to the resources it concerns\<close>

text \<open>
  The index functions that \<^verbatim>\<open>SetupWithManager\<close> registers for each resource type, by field.
\<close>

definition np_index :: "string \<Rightarrow> projection \<Rightarrow> string list" where
  "np_index field p =
     (if field = sourceIndex then [sourceKey (ps_Source (p_Spec p))]
      else if field = uidIndex then [m_UID (p_ObjectMeta p)]
      else [])"

definition cp_index :: "string \<Rightarrow> clusterProjection \<Rightarrow> string list" where
  "cp_index field c =
     (if field = clusterSourceIndex then [sourceKey (cps_Source (cp_Spec c))]
      else if field = uidIndex then [m_UID (cp_ObjectMeta c)]
      else [])"

text \<open>
  A list of the cache by field: the resources of the store whose index function yields the value.
\<close>

definition np_cache_ok :: "'w deps \<Rightarrow> ('w \<Rightarrow> projection set) \<Rightarrow> bool" where
  "np_cache_ok D store \<longleftrightarrow> (\<forall>field v w items w'.
     client_List_Projection D field v w = (Inr items, w') \<longrightarrow>
     set items = {p \<in> store w. v \<in> set (np_index field p)})"

definition cp_cache_ok :: "'w deps \<Rightarrow> ('w \<Rightarrow> clusterProjection set) \<Rightarrow> bool" where
  "cp_cache_ok D store \<longleftrightarrow> (\<forall>field v w items w'.
     client_List_ClusterProjection D (Some (field, v)) w = (Inr items, w') \<longrightarrow>
     set items = {c \<in> store w. v \<in> set (cp_index field c)})"

lemma index_names: "sourceIndex \<noteq> uidIndex" "clusterSourceIndex \<noteq> uidIndex"
  by (simp_all add: sourceIndex_def uidIndex_def clusterSourceIndex_def)

definition refers_to :: "sourceRef \<Rightarrow> eventObj \<Rightarrow> bool" where
  "refers_to src o1 \<longleftrightarrow> sr_Group src = gvk_Group (eo_GVK o1) \<and> sr_Kind src = gvk_Kind (eo_GVK o1) \<and>
     sr_Namespace src = eo_Namespace o1 \<and> sr_Name src = eo_Name o1"

lemma sourceKey_event:
  assumes "admit_sourceRef src" and "admit_sourceRef (event_ref o1)"
  shows "sourceKey (event_ref o1) = sourceKey src \<longleftrightarrow> refers_to src o1"
  using sourceKey_eq_iff [OF assms(2,1)] by (auto simp: event_ref_def refers_to_def)

text \<open>
  C36: an event on an object enqueues exactly the Projections that refer to it, whatever version either
  side names, provided the cached list succeeds and the references passed admission.
\<close>

theorem mapSource_exact:
  assumes "np_cache_ok D store" and "\<forall>p \<in> store (world s). admit_sourceRef (ps_Source (p_Spec p))"
    and "admit_sourceRef (event_ref o1)"
    and "client_List_Projection D sourceIndex (sourceKey (event_ref o1)) (world s) = (Inr items, w)"
  shows "wp (mapSource D o1) (\<lambda>reqs t. set reqs =
    {\<lparr>ok_Namespace = m_Namespace (p_ObjectMeta p), ok_Name = m_Name (p_ObjectMeta p)\<rparr> | p.
       p \<in> store (world s) \<and> refers_to (ps_Source (p_Spec p)) o1}) s"
proof -
  have "set items = {p \<in> store (world s). sourceKey (event_ref o1) \<in> set (np_index sourceIndex p)}"
    using assms(1,4) unfolding np_cache_ok_def by blast
  also have "\<dots> = {p \<in> store (world s). refers_to (ps_Source (p_Spec p)) o1}"
    using assms(2,3) by (auto simp: np_index_def sourceKey_event)
  finally show ?thesis
    using assms(4) by (auto simp: mapSource_def list_Projection_def wp_rules Let_def)
qed

definition sample_event :: eventObj where
  "sample_event = \<lparr>eo_GVK = \<lparr>gvk_Group = '''', gvk_Version = ''v1'', gvk_Kind = ''ConfigMap''\<rparr>,
     eo_Namespace = ''platform'', eo_Name = ''app-config'', eo_Labels = fmempty\<rparr>"

definition cached_deps :: "unit deps" where
  "cached_deps = sample_deps\<lparr>
     client_List_Projection := (\<lambda>f v w. (Inr (filter (\<lambda>p. v \<in> set (np_index f p)) [sample_projection]), w)),
     client_List_ClusterProjection := (\<lambda>fv w. (case fv of
         None \<Rightarrow> Inr [sample_clusterProjection]
       | Some (f, v) \<Rightarrow> Inr (filter (\<lambda>c. v \<in> set (cp_index f c)) [sample_clusterProjection]), w))\<rparr>"

lemma cached_deps_ok:
  "np_cache_ok cached_deps (\<lambda>_. {sample_projection})"
  "cp_cache_ok cached_deps (\<lambda>_. {sample_clusterProjection})"
  by (auto simp: np_cache_ok_def cp_cache_ok_def cached_deps_def)

lemma sample_event_ref:
  "admit_sourceRef (event_ref sample_event)" "sourceKey (event_ref sample_event) = sourceKey sample_source_ref"
  using sample_source_ref_admitted
  by (simp_all add: event_ref_def sample_event_def sample_source_ref_def sourceKey_def
      admit_sourceRef_def version_pattern_def)

theorem mapSource_exact_witness:
  "wp (mapSource cached_deps sample_event) (\<lambda>reqs t. set reqs =
    {\<lparr>ok_Namespace = m_Namespace (p_ObjectMeta p), ok_Name = m_Name (p_ObjectMeta p)\<rparr> | p.
       p \<in> {sample_projection} \<and> refers_to (ps_Source (p_Spec p)) sample_event}) sample_sys"
  by (rule mapSource_exact [where w = "()" and items = "[sample_projection]", OF cached_deps_ok(1)])
    (simp_all add: sample_event_ref sample_source_ref_admitted sample_projection_def cached_deps_def
      np_index_def)

text \<open>And exactly the ClusterProjections that refer to it.\<close>

lemma cluster_mapSource_exact:
  assumes "cp_cache_ok D store" and "\<forall>c \<in> store (world s). admit_sourceRef (cps_Source (cp_Spec c))"
    and "admit_sourceRef (event_ref o1)"
    and "client_List_ClusterProjection D (Some (clusterSourceIndex, sourceKey (event_ref o1))) (world s) =
      (Inr items, w)"
  shows "wp (cluster_mapSource D o1) (\<lambda>reqs t. set reqs =
    {\<lparr>ok_Namespace = '''', ok_Name = m_Name (cp_ObjectMeta c)\<rparr> | c.
       c \<in> store (world s) \<and> refers_to (cps_Source (cp_Spec c)) o1}) s"
proof -
  have "set items =
      {c \<in> store (world s). sourceKey (event_ref o1) \<in> set (cp_index clusterSourceIndex c)}"
    using assms(1,4) unfolding cp_cache_ok_def by blast
  also have "\<dots> = {c \<in> store (world s). refers_to (cps_Source (cp_Spec c)) o1}"
    using assms(2,3) by (auto simp: cp_index_def sourceKey_event)
  finally show ?thesis
    using assms(4) by (auto simp: cluster_mapSource_def list_ClusterProjection_def wp_rules Let_def)
qed

lemma cluster_mapSource_exact_example:
  "wp (cluster_mapSource cached_deps sample_event) (\<lambda>reqs t. set reqs =
    {\<lparr>ok_Namespace = '''', ok_Name = m_Name (cp_ObjectMeta c)\<rparr> | c.
       c \<in> {sample_clusterProjection} \<and> refers_to (cps_Source (cp_Spec c)) sample_event}) sample_sys"
  by (rule cluster_mapSource_exact [where w = "()" and items = "[sample_clusterProjection]",
        OF cached_deps_ok(2)])
    (simp_all add: sample_event_ref sample_source_ref_admitted sample_clusterProjection_def
      cached_deps_def cp_index_def)

section \<open>Self-healing\<close>

text \<open>The event that the watch delivers for an object.\<close>

definition event_of :: "lib \<Rightarrow> obj \<Rightarrow> eventObj" where
  "event_of L x = \<lparr>eo_GVK = GroupVersionKind L x, eo_Namespace = GetNamespace L x,
     eo_Name = GetName L x, eo_Labels = nil_map (GetLabels L x)\<rparr>"

text \<open>
  C37: an event on a destination that a Projection wrote passes the predicate of the destination watch,
  and its handler enqueues that Projection, so that a manual change or deletion is repaired
  without waiting. (The Projection is in the cache and the cached list succeeds.)
\<close>

theorem destination_event_enqueues_owner:
  assumes "lib_ok L" and "metadata_of source = Some m" and "m_UID (p_ObjectMeta proj) \<noteq> ''''"
    and "np_cache_ok D store" and "proj \<in> store (world s)"
    and "client_List_Projection D uidIndex (m_UID (p_ObjectMeta proj)) (world s) = (Inr items, w)"
  shows "destWatch_pred ownedByUIDLabel (event_of L (buildDestination L source proj ns)) \<and>
    wp (destWatch_handler (enqueueByUID D) ownedByUIDLabel
          (event_of L (buildDestination L source proj ns)))
      (\<lambda>reqs t. \<lparr>ok_Namespace = m_Namespace (p_ObjectMeta proj),
                 ok_Name = m_Name (p_ObjectMeta proj)\<rparr> \<in> set reqs) s"
proof -
  have "set items = {p \<in> store (world s). m_UID (p_ObjectMeta proj) \<in> set (np_index uidIndex p)}"
    using assms(4,6) unfolding np_cache_ok_def by blast
  then have "proj \<in> set items" using assms(5) index_names by (auto simp: np_index_def)
  moreover have "fmlookup (eo_Labels (event_of L (buildDestination L source proj ns))) ownedByUIDLabel =
      Some (m_UID (p_ObjectMeta proj))"
    by (simp add: event_of_def np_tier.build_facts [OF assms(1,2)] np_tier.dest_labels_def)
  ultimately show ?thesis
    using assms(3,6)
    by (auto simp: destWatch_pred_def destWatch_handler_def enqueueByUID_def list_Projection_def
        get_or_empty_def wp_rules Let_def)
qed

theorem destination_event_enqueues_owner_witness:
  "let dst = buildDestination ref_lib sample_source sample_projection ''tenant'' in
   destWatch_pred ownedByUIDLabel (event_of ref_lib dst) \<and>
   wp (destWatch_handler (enqueueByUID cached_deps) ownedByUIDLabel (event_of ref_lib dst))
      (\<lambda>reqs t. \<lparr>ok_Namespace = m_Namespace (p_ObjectMeta sample_projection),
                 ok_Name = m_Name (p_ObjectMeta sample_projection)\<rparr> \<in> set reqs) sample_sys"
  unfolding Let_def
  by (rule destination_event_enqueues_owner [OF ref_lib_ok sample_source_metadata _ cached_deps_ok(1),
        where w = "()" and items = "[sample_projection]"])
    (simp_all add: cached_deps_def np_index_def sample_projection_def sample_meta_def index_names
      not_sym [OF index_names(1)])

end
