(* ===== verification/Reconciler.thy ===== *)
theory Reconciler
  imports Watches
begin

text \<open>
  What the two reconcile functions share. First the two notions their steps are checked
  against: \<open>ends\<close> (the run ends in one status update) and \<open>safe_for\<close> (the calls stay safe).
  Then the frame around both, as the locale \<open>reconciler\<close>: fetch the resource, handle its
  deletion, ensure its finalizer, reconcile it live.
\<close>

section \<open>Every reconcile of a live resource ends in one status update\<close>

lemma ends_cases:
  "(\<And>e. ends kind (f e)) \<Longrightarrow> (\<And>v. ends kind (g v)) \<Longrightarrow> ends kind (case x of Inl e \<Rightarrow> f e | Inr v \<Rightarrow> g v)"
  "(\<And>a b. ends kind (h a b)) \<Longrightarrow> ends kind (case y of (a, b) \<Rightarrow> h a b)"
  "ends kind m \<Longrightarrow> ends kind n \<Longrightarrow> ends kind (if b then m else n)"
  by (auto split: sum.splits prod.splits)

lemma ends_fail [simp]:
  assumes "lib_ok (library D)"
  shows "ends kindProjection (failSource D p r a m)"
    and "ends kindProjection (failDestination D p v r m)"
    and "ends kindClusterProjection (failClusterSource D c r a m)"
    and "r \<noteq> ''DestinationConflict'' \<Longrightarrow> ends kindClusterProjection (failClusterDestination D c v r m)"
    and "r \<noteq> ''DestinationConflict'' \<Longrightarrow>
      ends kindClusterProjection (failClusterDestinationCounts D c v r m w f)"
  using assms by (simp_all add: ends_def terminal_finished)

lemma ends_ready:
  assumes "lib_ok (library D)"
  shows "ends kindProjection
      (State_Monad.bind (markAllReady D p v) (\<lambda>err. State_Monad.return (Result_empty, err)))"
    and "ends kindClusterProjection
      (State_Monad.bind (markAllClusterReady D c v w) (\<lambda>err. State_Monad.return (Result_empty, err)))"
  using markAllReady_finished [OF assms] markAllClusterReady_finished [OF assms]
  by (simp_all add: ends_def wp_bind wp_return_fun)

lemma quiet_watches [quiet_rules]:
  "quiet (ensureSourceWatch D g)" "quiet (cluster_ensureSourceWatch D g)"
  "quiet (ensureNamespacedDestWatch D g)" "quiet (ensureClusterDestWatch D g)"
  unfolding ensureSourceWatch_def cluster_ensureSourceWatch_def ensureNamespacedDestWatch_def
    ensureClusterDestWatch_def ensureDestWatch_def
  by (intro quiet_rules; (rule quiet_update; simp)?)+

lemmas ends_rules = ends_quiet_bind ends_cases ends_ready ends_fail quiet_rules

section \<open>Safety of the calls\<close>

text \<open>
  \<open>safe_for L own owned s\<close>: the calls so far are safe, and whatever is made from here on, an
  object that passes the ownership test \<open>owned\<close> counts as owned. Every step of a reconcile keeps
  it.
\<close>

definition safe_for :: "lib \<Rightarrow> (call list \<Rightarrow> obj \<Rightarrow> bool) \<Rightarrow> (obj \<Rightarrow> bool) \<Rightarrow> 'w sys \<Rightarrow> bool" where
  "safe_for L own owned s \<longleftrightarrow>
     safe_calls L own s \<and> (\<forall>y es. owned y \<longrightarrow> own (calls s @ es) y)"

lemma safe_for_keeps:
  assumes "makes P m" and "\<And>s. safe_for L own owned s \<Longrightarrow> wp m (\<lambda>_. safe_calls L own) s"
  shows "keeps (safe_for L own owned) m"
proof (rule keepsI)
  fix s :: "'a sys"
  assume s: "safe_for L own owned s"
  have "wp m (\<lambda>_ t. \<exists>cs. calls t = calls s @ cs \<and> list_all P cs) s"
    using assms(1) by (simp add: makes_def)
  with assms(2) [OF s] have "wp m (\<lambda>_ t. safe_calls L own t \<and>
      (\<exists>cs. calls t = calls s @ cs \<and> list_all P cs)) s"
    by (simp add: wp_conj)
  then show "wp m (\<lambda>_. safe_for L own owned) s"
    by (rule wp_mono) (use s in \<open>auto simp: safe_for_def\<close>)
qed

lemma keeps_harmless:
  assumes "harmless m"
  shows "keeps (safe_for L own owned) m"
proof (rule safe_for_keeps [OF assms])
  fix s :: "'a sys"
  assume "safe_for L own owned s"
  then show "wp m (\<lambda>_. safe_calls L own) s"
    using harmless_safe [OF assms, of L own] by (simp add: keeps_def safe_for_def)
qed

lemma quiet_makes: "quiet m \<Longrightarrow> makes (\<lambda>c. status_write c = None) m"
  by (simp add: quiet_def)

lemma harmless_watches [makes_rules]:
  "harmless (ensureSourceWatch D g)" "harmless (cluster_ensureSourceWatch D g)"
  "harmless (ensureNamespacedDestWatch D g)" "harmless (ensureClusterDestWatch D g)"
  unfolding ensureSourceWatch_def cluster_ensureSourceWatch_def ensureNamespacedDestWatch_def
    ensureClusterDestWatch_def ensureDestWatch_def
  by (intro makes_rules; (rule makes_update; simp)?)+

lemmas keeps_quiet_steps =
  harmless_reads [THEN keeps_harmless] harmless_terminal [THEN keeps_harmless]
  harmless_ensure [THEN keeps_harmless] harmless_watches [THEN keeps_harmless]
  harmless_resolveGVR [THEN keeps_harmless] harmless_checkSourceProjectable [THEN keeps_harmless]

text \<open>The API server returns objects with metadata.\<close>

definition objects_ok :: "'w deps \<Rightarrow> bool" where
  "objects_ok D \<longleftrightarrow> (\<forall>g ns n w x w'. dyn_Get D g ns n w = (Inr x, w') \<longrightarrow> metadata_of x \<noteq> None)"

lemma keeps_source_fetch:
  assumes "objects_ok D" and "keeps I (dynamic_Get D g ns n)" and "\<And>e. keeps I (f e)"
    and "\<And>x m. metadata_of x = Some m \<Longrightarrow> keeps I (h x)"
  shows "keeps I (State_Monad.bind (dynamic_Get D g ns n)
    (\<lambda>r. case r of Inl e \<Rightarrow> f e | Inr x \<Rightarrow> h x))"
proof (rule keepsI)
  fix s
  assume s: "I s"
  obtain r w where r: "dyn_Get D g ns n (world s) = (r, w)" by fastforce
  let ?s = "s\<lparr>world := w, calls := calls s @ [DynGet g ns n r]\<rparr>"
  have "keeps I (case r of Inl e \<Rightarrow> f e | Inr x \<Rightarrow> h x)"
  proof (cases r)
    case (Inr x)
    with assms(1) r obtain m where "metadata_of x = Some m" unfolding objects_ok_def by blast
    with Inr assms(4) show ?thesis by simp
  qed (simp add: assms(3))
  moreover have "I ?s"
    using keepsD [OF assms(2) s] r by (simp add: dynamic_Get_def api_call_def)
  ultimately show "wp (State_Monad.bind (dynamic_Get D g ns n)
      (\<lambda>r. case r of Inl e \<Rightarrow> f e | Inr x \<Rightarrow> h x)) (\<lambda>_. I) s"
    by (simp add: wp_rules dynamic_Get_def r keeps_def)
qed

context destination_writer
begin

lemma keeps_write_op:
  assumes "lib_ok (library D)" and "metadata_of source = Some m" and "ns_ok c ns"
  shows "keeps (safe_for (library D) own (\<lambda>y. t_owned T (library D) y c)) (write_op D c source ns)"
proof (rule safe_for_keeps [OF quiet_makes])
  show "quiet (write_op D c source ns)" using assms(3) by (simp add: write_eq quiet_write_template)
  show "wp (write_op D c source ns) (\<lambda>_. safe_calls (library D) own) s"
    if "safe_for (library D) own (\<lambda>y. t_owned T (library D) y c) s" for s
    using that by (intro write_safe [OF assms]) (auto simp: safe_for_def)
qed

end

context sweeper
begin

lemma keeps_sweep_op: "keeps (safe_for (library D) own (owned (library D) c)) (sweep_op D c gvr)"
  by (rule safe_for_keeps [OF quiet_makes [OF sweep_op_quiet]])
    (auto simp: safe_for_def intro!: sweep_op_safe)

end

lemma keeps_deleteDestination:
  "keeps (safe_for (library D) own (\<lambda>y. isOwnedBy (library D) y proj)) (deleteDestination D proj)"
proof -
  have "keeps (safe_for (library D) own (\<lambda>y. isOwnedBy (library D) y proj))
      (deleteOneDestination D proj gvr ns name)" for gvr ns name
    by (rule safe_for_keeps [OF quiet_makes [OF quiet_deleteDestination(1)]])
      (auto simp: safe_for_def intro!: deleteOne_safe)
  then show ?thesis
    unfolding deleteDestination_def Let_def by (intro keeps_rules keeps_quiet_steps)
qed

section \<open>The frame of a reconcile\<close>

lemma quiet_calls_only:
  fixes s :: "'w sys"
  assumes "quiet m"
  shows "wp m (\<lambda>_ t. (\<exists>cs. calls t = calls s @ cs \<and> list_all (\<lambda>c. status_write c = None) cs) \<and>
    reconcileTotal t = reconcileTotal s) s"
  using assms by (simp add: quiet_def makes_def wp_conj)

locale reconciler =
  finalizer_tier fin meta with_meta cleanup upd_api upd_call handle ensure cleaned
  for fin :: string and meta :: "'c \<Rightarrow> objectMeta" and with_meta :: "'c \<Rightarrow> objectMeta \<Rightarrow> 'c"
    and cleanup :: "'w deps \<Rightarrow> 'c \<Rightarrow> ('w, error option) action"
    and upd_api :: "'w deps \<Rightarrow> 'c \<Rightarrow> 'w \<Rightarrow> (error + 'c) \<times> 'w"
    and upd_call :: "'c \<Rightarrow> error + 'c \<Rightarrow> call"
    and handle :: "'w deps \<Rightarrow> 'c \<Rightarrow> ('w, bool \<times> error option) action"
    and ensure :: "'w deps \<Rightarrow> 'c \<Rightarrow> ('w, error + 'c) action"
    and cleaned :: "lib \<Rightarrow> 'c \<Rightarrow> call list \<Rightarrow> bool" +
  fixes kind :: string
    and get_api :: "'w deps \<Rightarrow> 'k \<Rightarrow> 'w \<Rightarrow> (error + 'c) \<times> 'w"
    and get_call :: "'k \<Rightarrow> error + 'c \<Rightarrow> call"
    and live :: "'w deps \<Rightarrow> 'c \<Rightarrow> ('w, reconcile_result) action"
    and reconcile :: "'w deps \<Rightarrow> 'k \<Rightarrow> ('w, reconcile_result) action"
    and owned :: "lib \<Rightarrow> 'c \<Rightarrow> obj \<Rightarrow> bool"
  assumes reconcile_eq: "reconcile D k =
      State_Monad.bind (api_call (get_api D k) (get_call k)) (\<lambda>got. case got of
          Inl err \<Rightarrow> State_Monad.return
            (Result_empty, if IsNotFound (library D) err then None else Some err)
        | Inr c \<Rightarrow> State_Monad.bind (handle D c) (\<lambda>(handled, err).
            if handled then State_Monad.return (Result_empty, err)
            else State_Monad.bind (ensure D c) (\<lambda>ensured. case ensured of
                Inl err \<Rightarrow> State_Monad.return (Result_empty, Some err)
              | Inr c' \<Rightarrow> live D c')))"
    and frame_calls: "status_write (get_call k r) = None" "status_write (upd_call c u) = None"
      "\<not> mutates (get_call k r)" "\<not> mutates (upd_call c u)"
    and cleanup_quiet: "quiet (cleanup D c)"
    and cleanup_safe: "keeps (safe_for (library D) own (owned (library D) c)) (cleanup D c)"
    and live_ends: "lib_ok (library D) \<Longrightarrow> ends kind (live D c)"
    and live_safe: "lib_ok (library D) \<Longrightarrow> objects_ok D \<Longrightarrow>
      keeps (safe_for (library D) own (owned (library D) c)) (live D c)"
begin

text \<open>The resource this reconcile works for, as its calls show it.\<close>

definition owned_here :: "lib \<Rightarrow> 'k \<Rightarrow> call list \<Rightarrow> obj \<Rightarrow> bool" where
  "owned_here L k pre y \<longleftrightarrow>
     (\<exists>c. owned L c y \<and> (get_call k (Inr c) \<in> set pre \<or>
        (\<exists>sent. upd_call sent (Inr c) \<in> set pre)))"

lemma quiet_handle: "quiet (handle D c)"
  unfolding handle_eq Let_def
  by (intro quiet_rules cleanup_quiet quiet_api_call frame_calls)

lemma keeps_handle: "keeps (safe_for (library D) own (owned (library D) c)) (handle D c)"
  unfolding handle_eq Let_def
  by (intro keeps_rules cleanup_safe keeps_harmless [OF makes_api_call] frame_calls)

lemma live_safe_wp:
  assumes "lib_ok (library D)" "objects_ok D" "safe_for (library D) own (owned (library D) c) t"
  shows "wp (live D c) (\<lambda>_. safe_calls (library D) own) t"
  using live_safe [OF assms(1,2), of own c] assms(3)
  by (auto simp: keeps_def safe_for_def intro: wp_mono)

lemma ensure_safe:
  assumes "safe_for (library D) (owned_here (library D) k) (owned (library D) c) t"
  shows "wp (ensure D c) (\<lambda>r t. case r of
      Inl _ \<Rightarrow> safe_calls (library D) (owned_here (library D) k) t
    | Inr c' \<Rightarrow> safe_for (library D) (owned_here (library D) k) (owned (library D) c') t) t"
  using assms unfolding ensure_eq Let_def
  by (auto simp: wp_rules safe_for_def owned_here_def frame_calls split: prod.splits sum.splits)

lemma reconcile_safe:
  fixes s :: "'w sys"
  assumes ok: "lib_ok (library D)" "objects_ok D" and "calls s = []"
  shows "wp (reconcile D k) (\<lambda>_. safe_calls (library D) (owned_here (library D) k)) s"
proof -
  let ?L = "library D" and ?own = "owned_here (library D) k"
  obtain got w where got: "get_api D k (world s) = (got, w)" by fastforce
  let ?s = "s\<lparr>world := w, calls := [get_call k got]\<rparr>"
  have s: "safe_calls ?L ?own ?s"
    using safe_snoc [of ?L ?own "[]"] by (simp add: frame_calls)
  show ?thesis
  proof (cases got)
    case (Inl err)
    with got assms(3) s show ?thesis by (simp add: reconcile_eq wp_rules)
  next
    case (Inr c)
    have "safe_for ?L ?own (owned ?L c) ?s" using s Inr by (auto simp: safe_for_def owned_here_def)
    then have "wp (handle D c) (\<lambda>_. safe_for ?L ?own (owned ?L c)) ?s"
      using keeps_handle [of D ?own c] by (simp add: keeps_def)
    then have "wp (handle D c) (\<lambda>(handled, err). wp
        (if handled then State_Monad.return (Result_empty, err)
         else State_Monad.bind (ensure D c) (\<lambda>ensured. case ensured of
            Inl err \<Rightarrow> State_Monad.return (Result_empty, Some err)
          | Inr c' \<Rightarrow> live D c')) (\<lambda>_. safe_calls ?L ?own)) ?s"
      by (rule wp_mono)
        (auto simp: wp_rules safe_for_def [of _ _ _ "_ :: 'w sys"] split: prod.splits sum.splits
          intro!: wp_mono [OF ensure_safe] live_safe_wp ok)
    with got Inr assms(3) show ?thesis by (simp add: reconcile_eq wp_rules case_prod_beta')
  qed
qed

text \<open>
  A reconcile that ends before it has a live resource with its finalizer: the resource could
  not be fetched, is being deleted, or could not be given the finalizer.
\<close>

definition exits_early :: "'k \<Rightarrow> call list \<Rightarrow> error option \<Rightarrow> bool" where
  "exits_early k cs err \<longleftrightarrow>
     (\<exists>e. get_call k (Inl e) \<in> set cs) \<or>
     (\<exists>c. get_call k (Inr c) \<in> set cs \<and>
        (m_DeletionTimestamp (meta c) \<noteq> None \<or>
         (\<exists>sent e. upd_call sent (Inl e) \<in> set cs \<and> err = Some e)))"

definition outcome :: "'k \<Rightarrow> 'w sys \<Rightarrow> reconcile_result \<Rightarrow> 'w sys \<Rightarrow> bool" where
  "outcome k s r t \<longleftrightarrow> finished kind s t (snd r) \<or>
    (\<exists>cs. calls t = calls s @ cs \<and> exits_early k cs (snd r) \<and> fst r = Result_empty \<and>
       list_all (\<lambda>c. status_write c = None) cs \<and> reconcileTotal t = reconcileTotal s)"

lemma live_outcome:
  assumes "lib_ok (library D)" "calls t = calls s @ cs" "list_all (\<lambda>c. status_write c = None) cs"
    "reconcileTotal t = reconcileTotal s"
  shows "wp (live D c) (outcome k s) t"
proof (rule wp_mono)
  show "wp (live D c) (\<lambda>(res, err) u. finished kind t u err) t"
    using live_ends [OF assms(1)] by (simp add: ends_def)
qed (use assms in \<open>auto simp: outcome_def elim: finished_after\<close>)

lemma ensure_failed_outcome:
  assumes "calls t = calls s @ [get_call k (Inr c), upd_call c' (Inl e)]"
    "reconcileTotal t = reconcileTotal s"
  shows "outcome k s (Result_empty, Some e) t"
proof -
  let ?cs = "[get_call k (Inr c), upd_call c' (Inl e)]"
  have "exits_early k ?cs (Some e)"
    unfolding exits_early_def by (intro disjI2 exI [of _ c]) auto
  then show ?thesis
    unfolding outcome_def by (intro disjI2 exI [of _ ?cs]) (simp add: assms frame_calls)
qed

lemma ensured_outcome:
  assumes "lib_ok (library D)" and s': "calls s' = calls s @ [get_call k (Inr c)]"
    "reconcileTotal s' = reconcileTotal s"
  shows "wp (ensure D c) (\<lambda>r. wp (case r of
        Inl err \<Rightarrow> State_Monad.return (Result_empty, Some err)
      | Inr c' \<Rightarrow> live D c') (outcome k s)) s'"
proof (rule wp_mono [OF ensure_adds [OF assms(1), of c s']])
  fix r and t :: "'w sys"
  assume *: "if fin \<in> set (m_Finalizers (meta c)) then r = Inr c \<and> t = s'
    else \<exists>c' w. t = s'\<lparr>world := w, calls := calls s' @ [upd_call c' r]\<rparr> \<and>
      c' = with_meta c ((meta c)\<lparr>m_Finalizers := m_Finalizers (meta c) @ [fin]\<rparr>)"
  show "wp (case r of Inl err \<Rightarrow> State_Monad.return (Result_empty, Some err)
    | Inr c' \<Rightarrow> live D c') (outcome k s) t"
  proof (cases r)
    case (Inl e)
    with * s' show ?thesis by (auto simp: wp_rules split: if_splits intro!: ensure_failed_outcome)
  next
    case (Inr c')
    with * s' show ?thesis
      by (auto simp: frame_calls split: if_splits intro!: live_outcome [OF assms(1)])
  qed
qed

lemma handled_outcome:
  assumes "m_DeletionTimestamp (meta c) \<noteq> None" and s': "calls s' = calls s @ [get_call k (Inr c)]"
    "reconcileTotal s' = reconcileTotal s"
  shows "wp (handle D c) (\<lambda>(handled, err) t. handled \<and> outcome k s (Result_empty, err) t) s'"
proof -
  have "wp (handle D c) (\<lambda>r t. fst r) s'" by (rule deletion_handled [OF assms(1)])
  with quiet_calls_only [OF quiet_handle [of D c], of s']
  have "wp (handle D c) (\<lambda>r t. ((\<exists>cs. calls t = calls s' @ cs \<and>
      list_all (\<lambda>c. status_write c = None) cs) \<and> reconcileTotal t = reconcileTotal s') \<and> fst r) s'"
    by (simp add: wp_conj)
  then show ?thesis
  proof (rule wp_mono)
    fix r :: "bool \<times> error option" and t :: "'w sys"
    assume *: "((\<exists>cs. calls t = calls s' @ cs \<and> list_all (\<lambda>c. status_write c = None) cs) \<and>
      reconcileTotal t = reconcileTotal s') \<and> fst r"
    then obtain cs where cs: "calls t = calls s' @ cs" "list_all (\<lambda>c. status_write c = None) cs"
      by blast
    have "exits_early k (get_call k (Inr c) # cs) (snd r)"
      unfolding exits_early_def using assms(1) by (intro disjI2 exI [of _ c]) simp
    then have "outcome k s (Result_empty, snd r) t"
      unfolding outcome_def using * cs s'
      by (intro disjI2 exI [of _ "get_call k (Inr c) # cs"]) (simp add: frame_calls)
    with * show "(case r of (handled, err) \<Rightarrow> \<lambda>t. handled \<and> outcome k s (Result_empty, err) t) t"
      by (simp add: case_prod_beta)
  qed
qed

lemma reconcile_outcome:
  assumes "lib_ok (library D)"
  shows "wp (reconcile D k) (outcome k s) s"
proof -
  obtain got w where got: "get_api D k (world s) = (got, w)" by fastforce
  let ?s = "s\<lparr>world := w, calls := calls s @ [get_call k got]\<rparr>"
  show ?thesis
  proof (cases got)
    case (Inl err)
    with got show ?thesis by (auto simp: reconcile_eq wp_rules outcome_def exits_early_def frame_calls)
  next
    case (Inr c)
    show ?thesis
    proof (cases "m_DeletionTimestamp (meta c)")
      case None
      with got Inr ensured_outcome [OF assms, of ?s s k c] show ?thesis
        by (simp add: reconcile_eq wp_rules handle_eq)
    next
      case (Some ts)
      then have "wp (handle D c) (\<lambda>(handled, err) t. handled \<and> outcome k s (Result_empty, err) t) ?s"
        using Inr by (intro handled_outcome) simp_all
      then have "wp (handle D c) (\<lambda>(handled, err). wp
        (if handled then State_Monad.return (Result_empty, err)
         else State_Monad.bind (ensure D c) (\<lambda>ensured. case ensured of
            Inl err \<Rightarrow> State_Monad.return (Result_empty, Some err)
          | Inr c' \<Rightarrow> live D c')) (outcome k s)) ?s"
        by (rule wp_mono) (auto simp: wp_rules)
      with got Inr show ?thesis by (simp add: reconcile_eq wp_rules case_prod_beta')
    qed
  qed
qed

end

section \<open>Where the mutating calls go\<close>

text \<open>
  A property of mutating calls that may mention the resource: if the clean-up and the live part
  only make such calls, so does the reconcile, for a resource that its calls show.
\<close>

lemma makes_keeps: "makes P m \<Longrightarrow> keeps (\<lambda>s. list_all P (calls s)) m"
  by (fastforce simp: keeps_def makes_def intro: wp_mono)

lemma ends_makes: "ends kind m \<Longrightarrow> makes (\<lambda>_. True) m"
  unfolding ends_def makes_def
  by (rule allI, drule spec, erule wp_mono) (auto simp: finished_def list_all_iff)

context reconciler
begin

definition known :: "'k \<Rightarrow> call list \<Rightarrow> 'c \<Rightarrow> bool" where
  "known k cs c \<longleftrightarrow> get_call k (Inr c) \<in> set cs \<or> (\<exists>sent. upd_call sent (Inr c) \<in> set cs)"

definition stays_in :: "('c \<Rightarrow> call \<Rightarrow> bool) \<Rightarrow> 'k \<Rightarrow> call list \<Rightarrow> bool" where
  "stays_in P k cs \<longleftrightarrow> (\<forall>d \<in> set cs. mutates d \<longrightarrow> (\<exists>c. known k cs c \<and> P c d))"

lemma stays_inI:
  assumes "list_all (\<lambda>d. mutates d \<longrightarrow> P c d) cs" and "known k cs c"
  shows "stays_in P k cs"
  using assms by (auto simp: stays_in_def list_all_iff)

lemma stays_in_reads: "list_all (\<lambda>d. \<not> mutates d) cs \<Longrightarrow> stays_in P k cs"
  by (auto simp: stays_in_def list_all_iff)

text \<open>From a state whose calls all pass and show the resource, each part ends in such a state.\<close>

lemma part_within:
  assumes "keeps (\<lambda>s. list_all (\<lambda>d. mutates d \<longrightarrow> P c d) (calls s)) m"
    and "makes Q m" and "list_all (\<lambda>d. mutates d \<longrightarrow> P c d) (calls s)" and "known k (calls s) c"
  shows "wp m (\<lambda>_ t. stays_in P k (calls t)) s"
proof -
  have "wp m (\<lambda>_ t. list_all (\<lambda>d. mutates d \<longrightarrow> P c d) (calls t)) s"
    using assms(1,3) by (simp add: keeps_def)
  moreover have "wp m (\<lambda>_ t. \<exists>cs. calls t = calls s @ cs \<and> list_all Q cs) s"
    using assms(2) by (simp add: makes_def)
  ultimately have "wp m (\<lambda>_ t. list_all (\<lambda>d. mutates d \<longrightarrow> P c d) (calls t) \<and>
      (\<exists>cs. calls t = calls s @ cs \<and> list_all Q cs)) s"
    by (simp add: wp_conj)
  then show ?thesis
    by (rule wp_mono) (use assms(4) in \<open>auto simp: known_def intro!: stays_inI\<close>)
qed

lemma reconcile_within:
  fixes s :: "'w sys"
  assumes ok: "lib_ok (library D)" and "calls s = []"
    and live: "\<And>c. keeps (\<lambda>s. list_all (\<lambda>d. mutates d \<longrightarrow> P c d) (calls s)) (live D c)"
    and cleanup: "\<And>c. keeps (\<lambda>s. list_all (\<lambda>d. mutates d \<longrightarrow> P c d) (calls s)) (cleanup D c)"
  shows "wp (reconcile D k) (\<lambda>_ t. stays_in P k (calls t)) s"
proof -
  obtain got w where got: "get_api D k (world s) = (got, w)" by fastforce
  let ?s = "s\<lparr>world := w, calls := [get_call k got]\<rparr>"
  show ?thesis
  proof (cases got)
    case (Inl err)
    with got assms(2) show ?thesis by (simp add: reconcile_eq wp_rules stays_in_def frame_calls)
  next
    case (Inr c)
    have frame: "keeps (\<lambda>s. list_all (\<lambda>d. mutates d \<longrightarrow> P c d) (calls s)) (handle D c)"
      unfolding handle_eq Let_def
      by (intro keeps_rules cleanup makes_keeps makes_api_call) (simp add: frame_calls)
    have handled: "wp (handle D c) (\<lambda>_ t. stays_in P k (calls t)) ?s"
      using Inr quiet_makes [OF quiet_handle]
      by (intro part_within [where P = P and c = c, OF frame]) (auto simp: frame_calls known_def)
    have rest: "wp (ensure D c) (\<lambda>r. wp (case r of
          Inl err \<Rightarrow> State_Monad.return (Result_empty, Some err)
        | Inr c' \<Rightarrow> live D c') (\<lambda>_ t. stays_in P k (calls t))) ?s"
      unfolding ensure_eq Let_def
      using Inr
      by (auto simp: wp_rules frame_calls stays_in_reads split: prod.splits sum.splits
          intro!: part_within [where P = P, OF live ends_makes [OF live_ends [OF ok]]]) (auto simp: known_def)
    show ?thesis
    proof (cases "m_DeletionTimestamp (meta c)")
      case None
      with rest got Inr assms(2) show ?thesis by (simp add: reconcile_eq wp_rules handle_eq)
    next
      case (Some ts)
      then have "wp (handle D c) (\<lambda>r t. fst r) ?s" by (intro deletion_handled) simp
      with handled have "wp (handle D c) (\<lambda>r t. stays_in P k (calls t) \<and> fst r) ?s"
        by (simp add: wp_conj)
      then have "wp (handle D c) (\<lambda>(handled, err). wp
        (if handled then State_Monad.return (Result_empty, err)
         else State_Monad.bind (ensure D c) (\<lambda>ensured. case ensured of
            Inl err \<Rightarrow> State_Monad.return (Result_empty, Some err)
          | Inr c' \<Rightarrow> live D c')) (\<lambda>_ t. stays_in P k (calls t))) ?s"
        by (rule wp_mono) (auto simp: wp_rules)
      with got Inr assms(2) show ?thesis by (simp add: reconcile_eq wp_rules case_prod_beta')
    qed
  qed
qed

end

section \<open>Sequencing after quiet steps\<close>

lemma quiet_then:
  fixes s :: "'w sys"
  assumes "quiet m" and "\<And>a t cs. calls t = calls s @ cs \<Longrightarrow> reconcileTotal t = reconcileTotal s \<Longrightarrow>
    wp (f a) Q t"
  shows "wp (State_Monad.bind m f) Q s"
  unfolding wp_bind by (rule wp_mono [OF quiet_calls_only [OF assms(1)]]) (use assms(2) in blast)

section \<open>Successes\<close>

text \<open>The success bucket of a kind; nothing quiet touches it.\<close>

definition successes :: "string \<Rightarrow> 'w sys \<Rightarrow> nat" where
  "successes kind s = reconcileTotal s (kind, resultSuccess)"

lemma quiet_success: "quiet m \<Longrightarrow> wp m (\<lambda>_ t. successes kind t = successes kind s) s"
  unfolding quiet_def successes_def by (fastforce elim: wp_mono)

lemma quiet_then_success:
  assumes "quiet m" and "\<And>a t cs. calls t = calls s @ cs \<Longrightarrow> successes kind t = successes kind s \<Longrightarrow>
    wp (f a) Q t"
  shows "wp (State_Monad.bind m f) Q s"
  by (rule quiet_then [OF assms(1)]) (use assms(2) in \<open>auto simp: successes_def\<close>)

context reconciler
begin

text \<open>
  If the live part counts a success only when its calls are good, so does the reconcile, for a
  resource that its calls show.
\<close>

lemma live_success:
  fixes t :: "'w sys"
  assumes "wp (live D c) (\<lambda>_ u. successes kind u = n \<or> good c (calls u)) t"
    and "makes (\<lambda>_. True) (live D c)" and "known k (calls t) c"
  shows "wp (live D c) (\<lambda>_ u. successes kind u = n \<or> (\<exists>c. known k (calls u) c \<and> good c (calls u))) t"
proof -
  have "wp (live D c) (\<lambda>_ u. \<exists>cs. calls u = calls t @ cs \<and> list_all (\<lambda>_. True) cs) t"
    using assms(2) by (simp add: makes_def)
  with assms(1) have "wp (live D c) (\<lambda>_ u. (successes kind u = n \<or> good c (calls u)) \<and>
      (\<exists>cs. calls u = calls t @ cs \<and> list_all (\<lambda>_. True) cs)) t"
    by (simp add: wp_conj)
  moreover have "known k (calls t @ cs) c" for cs using assms(3) by (auto simp: known_def)
  ultimately show ?thesis by (fastforce elim!: wp_mono)
qed

lemma reconcile_success:
  fixes s :: "'w sys"
  assumes live: "\<And>c t. np t = np s \<Longrightarrow> cpr t = cpr s \<Longrightarrow>
      wp (live D c) (\<lambda>_ u. successes kind u = successes kind t \<or> good c (calls u)) t"
    and grows: "\<And>c. makes (\<lambda>_. True) (live D c)"
  shows "wp (reconcile D k) (\<lambda>_ t. successes kind t = successes kind s \<or>
    (\<exists>c. known k (calls t) c \<and> good c (calls t))) s"
proof -
  let ?Q = "\<lambda>_ t. successes kind t = successes kind s \<or>
    (\<exists>c. known k (calls t) c \<and> good c (calls t))"
  have run: "wp (live D c) ?Q t"
    if "successes kind t = successes kind s" "np t = np s" "cpr t = cpr s" "known k (calls t) c" for c t
    using live_success [where good = good, OF live [of t c] grows] that by simp
  obtain got w where got: "get_api D k (world s) = (got, w)" by fastforce
  show ?thesis
  proof (cases got)
    case (Inl err)
    with got show ?thesis by (simp add: reconcile_eq wp_rules successes_def)
  next
    case (Inr c)
    let ?s = "s\<lparr>world := w, calls := calls s @ [get_call k got]\<rparr>"
    show ?thesis
    proof (cases "m_DeletionTimestamp (meta c)")
      case None
      have "wp (ensure D c) (\<lambda>ensured. wp (case ensured of
            Inl err \<Rightarrow> State_Monad.return (Result_empty, Some err)
          | Inr c' \<Rightarrow> live D c') ?Q) ?s"
        unfolding ensure_eq Let_def
        by (auto simp: wp_rules Inr successes_def known_def split: prod.splits sum.splits
            intro!: run [unfolded successes_def known_def])
      with None got Inr show ?thesis by (simp add: reconcile_eq wp_rules handle_eq)
    next
      case (Some ts)
      then have "wp (handle D c) (\<lambda>r t. fst r) ?s" by (intro deletion_handled) simp
      with quiet_success [OF quiet_handle, of D c kind ?s]
      have "wp (handle D c) (\<lambda>r t. successes kind t = successes kind ?s \<and> fst r) ?s"
        by (simp add: wp_conj)
      then have "wp (handle D c) (\<lambda>(handled, err). wp
          (if handled then State_Monad.return (Result_empty, err)
           else State_Monad.bind (ensure D c) (\<lambda>ensured. case ensured of
               Inl err \<Rightarrow> State_Monad.return (Result_empty, Some err)
             | Inr c' \<Rightarrow> live D c')) ?Q) ?s"
        by (rule wp_mono) (auto simp: wp_rules successes_def)
      with got Inr show ?thesis by (simp add: reconcile_eq wp_rules case_prod_beta')
    qed
  qed
qed

end

end
