(* ===== verification/Projection_Controller.thy ===== *)
theory Projection_Controller
  imports Reconciler
begin

text \<open>
  \<^verbatim>\<open>internal/controller/projection_controller.go\<close>: the reconcile function of the namespaced
  tier, with \<^verbatim>\<open>handleSourceFetchError\<close> of \<^verbatim>\<open>source.go\<close>. Log lines (the logger and the benchmark
  stamp latency) have no effect on the state and are left out. \<open>Reconcile\<close> is cut at the two
  points where the code has acquired a live resource and a projectable source.
\<close>

section \<open>Definitions\<close>

definition handleSourceFetchError ::
  "'w deps \<Rightarrow> projection \<Rightarrow> gvr \<Rightarrow> error \<Rightarrow> ('w, reconcile_result) action" where
  "handleSourceFetchError D proj gvr err =
     (if \<not> IsNotFound (library D) err
      then failSource D proj ''SourceFetchFailed'' ''Get'' (Error err)
      else do {
        cleanupErr \<leftarrow> deleteAllOwnedDestinations D proj gvr;
        let src = ps_Source (p_Spec proj);
            (reason, msg) =
              (if pst_DestinationName (p_Status proj) \<noteq> '''' then
                 (''SourceDeleted'',
                  ''source '' @ sr_Namespace src @ ''/'' @ sr_Name src @ '' has been deleted'')
               else
                 (''SourceNotFound'',
                  ''source '' @ sr_Namespace src @ ''/'' @ sr_Name src @ '' not found''))
        in failSource D proj reason ''Get'' msg
      })"

text \<open>From a fetched source on: policy, write, watch, status.\<close>

definition Reconcile_fetched ::
  "'w deps \<Rightarrow> projection \<Rightarrow> gvk \<Rightarrow> string \<Rightarrow> obj \<Rightarrow> ('w, reconcile_result) action" where
  "Reconcile_fetched D proj watchGVK resolvedVersion source = do {
     (reason, msg, ok) \<leftarrow> checkSourceProjectable D source;
     if \<not> ok then do {
       delErr \<leftarrow> deleteDestination D proj;
       failSource D proj reason ''Validate'' msg
     } else do {
       (reason, msg) \<leftarrow> writeDestination D proj source;
       if reason \<noteq> '''' then failDestination D proj resolvedVersion reason msg
       else do {
         watchErr \<leftarrow> ensureNamespacedDestWatch D watchGVK;
         err \<leftarrow> markAllReady D proj resolvedVersion;
         State_Monad.return (Result_empty, err)
       }
     }
   }"

text \<open>From a live resource with its finalizer on: resolve, watch and fetch the source.\<close>

definition Reconcile_live :: "'w deps \<Rightarrow> projection \<Rightarrow> ('w, reconcile_result) action" where
  "Reconcile_live D proj = do {
     resolved \<leftarrow> resolveGVR D (ps_Source (p_Spec proj));
     case resolved of
       Inl err \<Rightarrow> failSource D proj ''SourceResolutionFailed'' ''Resolve'' (Error err)
     | Inr (gvr, resolvedVersion) \<Rightarrow>
         (let watchGVK = \<lparr>gvk_Group = gvr_Group gvr, gvk_Version = resolvedVersion,
                gvk_Kind = sr_Kind (ps_Source (p_Spec proj))\<rparr>
          in do {
            watchErr \<leftarrow> ensureSourceWatch D watchGVK;
            fetched \<leftarrow> dynamic_Get D gvr (sr_Namespace (ps_Source (p_Spec proj)))
                        (sr_Name (ps_Source (p_Spec proj)));
            case fetched of
              Inl err \<Rightarrow> handleSourceFetchError D proj gvr err
            | Inr source \<Rightarrow> Reconcile_fetched D proj watchGVK resolvedVersion source
          })
   }"

definition Reconcile :: "'w deps \<Rightarrow> objectKey \<Rightarrow> ('w, reconcile_result) action" where
  "Reconcile D req = do {
     got \<leftarrow> get_Projection D req;
     case got of
       Inl err \<Rightarrow> State_Monad.return
         (Result_empty, if IsNotFound (library D) err then None else Some err)
     | Inr proj \<Rightarrow> do {
         (handled, err) \<leftarrow> handleDeletion D proj;
         if handled then State_Monad.return (Result_empty, err)
         else do {
           ensured \<leftarrow> ensureFinalizer D proj;
           case ensured of
             Inl err \<Rightarrow> State_Monad.return (Result_empty, Some err)
           | Inr proj \<Rightarrow> Reconcile_live D proj
         }
       }
   }"

section \<open>The live part\<close>

lemma ends_Reconcile_live:
  assumes "lib_ok (library D)"
  shows "ends kindProjection (Reconcile_live D proj)"
  unfolding Reconcile_live_def Reconcile_fetched_def handleSourceFetchError_def Let_def
  by (intro ends_rules assms)

lemma keeps_Reconcile_live:
  assumes "lib_ok (library D)" and "objects_ok D"
  shows "keeps (safe_for (library D) own (\<lambda>y. isOwnedBy (library D) y proj)) (Reconcile_live D proj)"
proof -
  let ?I = "safe_for (library D) own (\<lambda>y. isOwnedBy (library D) y proj)"
  have "keeps ?I (writeDestination D proj source)" if "metadata_of source = Some m" for source m
    using np_writer.keeps_write_op [OF assms(1) that refl, of own proj] by simp
  moreover have "keeps ?I (deleteAllOwnedDestinations D proj gvr)" for gvr
    by (rule np_sweep.keeps_sweep_op)
  ultimately show ?thesis
    unfolding Reconcile_live_def Reconcile_fetched_def handleSourceFetchError_def Let_def
    by (intro keeps_source_fetch keeps_rules keeps_quiet_steps keeps_deleteDestination assms(2)) blast+
qed

section \<open>The reconcile function\<close>

interpretation np_rec: reconciler finalizerName p_ObjectMeta "\<lambda>p m. p\<lparr>p_ObjectMeta := m\<rparr>"
  deleteDestination client_Update_Projection UpdateProjection handleDeletion ensureFinalizer
  cleaned_np kindProjection client_Get_Projection GetProjection Reconcile_live Reconcile
  "\<lambda>L p y. isOwnedBy L y p"
  by unfold_locales
    (simp_all add: Reconcile_def get_Projection_def quiet_rules keeps_deleteDestination
      ends_Reconcile_live keeps_Reconcile_live)

definition owned_here :: "lib \<Rightarrow> objectKey \<Rightarrow> call list \<Rightarrow> obj \<Rightarrow> bool" where
  "owned_here L req pre y \<longleftrightarrow>
     (\<exists>proj. isOwnedBy L y proj \<and> (GetProjection req (Inr proj) \<in> set pre \<or>
        (\<exists>sent. UpdateProjection sent (Inr proj) \<in> set pre)))"

text \<open>
  C1: every object a reconcile of a Projection creates was just reported missing under its kind,
  namespace and name; every object it updates was just fetched, carries the ownership
  annotation of this Projection and is sent with the fetched resource version; every object
  it deletes was just fetched or listed and carries that annotation.
\<close>

theorem Reconcile_safe:
  assumes "lib_ok (library D)" and "objects_ok D" and "calls s = []"
  shows "wp (Reconcile D req) (\<lambda>_ t. safe (library D) (owned_here (library D) req) (calls t)) s"
  using np_rec.reconcile_safe [OF assms, of req]
  by (simp add: np_rec.owned_here_def [abs_def] owned_here_def [abs_def])

lemma sample_objects_ok: "objects_ok sample_deps"
  unfolding objects_ok_def using sample_dyn_Get_metadata by blast

theorem Reconcile_safe_witness:
  "wp (Reconcile sample_deps \<lparr>ok_Namespace = ''tenant'', ok_Name = ''mirror''\<rparr>)
     (\<lambda>_ t. safe ref_lib
       (owned_here ref_lib \<lparr>ok_Namespace = ''tenant'', ok_Name = ''mirror''\<rparr>) (calls t)) sample_sys"
  using Reconcile_safe [of sample_deps sample_sys, OF sample_library_ok sample_objects_ok] by simp

text \<open>
  C3: a reconcile either ends early, writing no status and counting nothing (the resource was not
  fetched, is being deleted, or could not be given its finalizer), or its last call is its
  only status update; the three conditions it writes agree with each other and with the one
  bucket of \<^verbatim>\<open>projection_reconcile_total\<close> that is incremented, and the error it returns is
  that of the status update.
\<close>

theorem Reconcile_outcome:
  assumes "lib_ok (library D)"
  shows "wp (Reconcile D req) (\<lambda>(res, err) t. finished kindProjection s t err \<or>
    (\<exists>cs. calls t = calls s @ cs \<and> res = Result_empty \<and>
       list_all (\<lambda>c. status_write c = None) cs \<and> reconcileTotal t = reconcileTotal s \<and>
       ((\<exists>e. GetProjection req (Inl e) \<in> set cs) \<or>
        (\<exists>proj. GetProjection req (Inr proj) \<in> set cs \<and>
           (m_DeletionTimestamp (p_ObjectMeta proj) \<noteq> None \<or>
            (\<exists>sent e. UpdateProjection sent (Inl e) \<in> set cs \<and> err = Some e)))))) s"
  by (rule wp_mono [OF np_rec.reconcile_outcome [OF assms, of req s]])
    (auto simp: np_rec.outcome_def np_rec.exits_early_def)

theorem Reconcile_outcome_witness:
  "wp (Reconcile sample_deps \<lparr>ok_Namespace = ''tenant'', ok_Name = ''mirror''\<rparr>)
     (\<lambda>(res, err) t. finished kindProjection sample_sys t err \<or>
    (\<exists>cs. calls t = cs \<and> res = Result_empty \<and>
       list_all (\<lambda>c. status_write c = None) cs \<and> reconcileTotal t = reconcileTotal sample_sys \<and>
       ((\<exists>e. GetProjection \<lparr>ok_Namespace = ''tenant'', ok_Name = ''mirror''\<rparr> (Inl e) \<in> set cs) \<or>
        (\<exists>proj. GetProjection \<lparr>ok_Namespace = ''tenant'', ok_Name = ''mirror''\<rparr> (Inr proj) \<in> set cs \<and>
           (m_DeletionTimestamp (p_ObjectMeta proj) \<noteq> None \<or>
            (\<exists>sent e. UpdateProjection sent (Inl e) \<in> set cs \<and> err = Some e)))))) sample_sys"
  using Reconcile_outcome [OF sample_library_ok, of _ sample_sys] by simp

section \<open>Confinement\<close>

text \<open>Where a Projection may create or update: its own namespace, under the requested name.\<close>

fun confined :: "lib \<Rightarrow> projection \<Rightarrow> call \<Rightarrow> bool" where
  "confined L proj (CreateObject x _) \<longleftrightarrow> key_of L x =
     \<lparr>ok_Namespace = m_Namespace (p_ObjectMeta proj), ok_Name = snd (destinationCoords proj)\<rparr>"
| "confined L proj (UpdateObject x _) \<longleftrightarrow> key_of L x =
     \<lparr>ok_Namespace = m_Namespace (p_ObjectMeta proj), ok_Name = snd (destinationCoords proj)\<rparr>"
| "confined L proj _ \<longleftrightarrow> True"

context destination_writer
begin

text \<open>A write only creates or updates under the key of the built object.\<close>

lemma finish_key:
  assumes ok: "lib_ok (library D)" "metadata_of source = Some m"
    and P: "\<And>x r. key_of (library D) x = \<lparr>ok_Namespace = ns, ok_Name = dname c\<rparr> \<Longrightarrow>
      P (CreateObject x r) \<and> P (UpdateObject x r)" "\<And>ev. P (Eventf ev)"
  shows "makes P (write_finish D T c source ns fetched)"
proof -
  let ?dst = "t_build T (library D) source c ns"
  have key: "key_of (library D) ?dst = \<lparr>ok_Namespace = ns, ok_Name = dname c\<rparr>"
    by (simp add: key_of_def build_facts [OF ok])
  have "metadata_of ?dst \<noteq> None" by (simp add: build_expand [OF ok])
  then have sent: "key_of (library D) (SetResourceVersion (library D)
      (preserveAPIServerAllocatedFields (library D) x ?dst) (GetResourceVersion (library D) x)) =
      \<lparr>ok_Namespace = ns, ok_Name = dname c\<rparr>" for x
    using update_sent_facts(1) [OF ok(1), of ?dst] key by auto
  show ?thesis
    unfolding write_finish_def write_failed_def Let_def create_Object_def update_Object_def
    by (intro makes_rules makes_emit makes_api_call) (simp_all add: P key sent)
qed

lemma write_op_key:
  assumes ok: "lib_ok (library D)" "metadata_of source = Some m" and "ns_ok c ns"
    and P: "\<And>x r. key_of (library D) x = \<lparr>ok_Namespace = ns, ok_Name = dname c\<rparr> \<Longrightarrow>
      P (CreateObject x r) \<and> P (UpdateObject x r)"
      "\<And>g k r. P (GetObject g k r)" "\<And>ev. P (Eventf ev)"
  shows "makes P (write_op D c source ns)"
  unfolding write_eq [OF assms(3)] write_template_def get_Object_def
  by (intro makes_rules makes_api_call finish_key [OF ok] P)

end

lemma makes_sweeps:
  assumes "\<And>g ns n r. P (DynDelete g ns n r)" and "\<And>ev. P (Eventf ev)"
    and "\<And>g sel r. P (DynList g sel r)"
  shows "makes P (deleteAllOwnedDestinations D proj gvr)"
    and "makes P (deleteClusterOwnedDestinations D cp gvr keep)"
  unfolding deleteAllOwnedDestinations_def deleteClusterOwnedDestinations_def np_loop_sweep
    cp_loop_sweep dynamic_List_def Let_def
  by (intro makes_rules makes_sweep makes_api_call assms)+

lemma makes_deleteDestination:
  assumes "\<And>g ns n r. P (DynDelete g ns n r)" and "\<And>ev. P (Eventf ev)"
    and "\<And>g ns n r. P (DynGet g ns n r)" and "\<And>gk v r. P (RESTMap gk v r)"
  shows "makes P (deleteDestination D proj)"
  unfolding deleteDestination_def deleteOneDestination_def resolveGVR_def Let_def dynamic_Get_def
    dynamic_Delete_def rest_Mapping_def
  by (intro makes_rules makes_emit makes_api_call assms)+

lemma quiet_mutations: "harmless m \<Longrightarrow> keeps (\<lambda>s. list_all (\<lambda>d. mutates d \<longrightarrow> P d) (calls s)) m"
  by (rule makes_keeps) (erule makes_mono, simp)

lemmas keeps_mutations =
  harmless_reads [THEN quiet_mutations] harmless_terminal [THEN quiet_mutations]
  harmless_ensure [THEN quiet_mutations] harmless_watches [THEN quiet_mutations]
  harmless_resolveGVR [THEN quiet_mutations]
  harmless_checkSourceProjectable [THEN quiet_mutations]

lemma confined_live:
  assumes "lib_ok (library D)" and "objects_ok D"
  shows "keeps (\<lambda>s. list_all (\<lambda>d. mutates d \<longrightarrow> confined (library D) proj d) (calls s))
    (Reconcile_live D proj)"
proof -
  let ?I = "\<lambda>s. list_all (\<lambda>d. mutates d \<longrightarrow> confined (library D) proj d) (calls s)"
  have "keeps ?I (writeDestination D proj source)" if "metadata_of source = Some m" for source m
    by (rule makes_keeps, rule np_writer.write_op_key [OF assms(1) that refl]) simp_all
  moreover have "keeps ?I (deleteAllOwnedDestinations D proj gvr)"
    and "keeps ?I (deleteDestination D proj)" for gvr
    by (rule makes_keeps, rule makes_sweeps makes_deleteDestination; simp)+
  ultimately show ?thesis
    unfolding Reconcile_live_def Reconcile_fetched_def handleSourceFetchError_def Let_def
    by (intro keeps_source_fetch keeps_rules keeps_mutations assms(2)) blast+
qed

text \<open>
  C17: a Projection writes only into its own namespace: every object that a reconcile creates or updates
  has the namespace of the Projection it fetched, and the name its spec asks for.
\<close>

theorem Reconcile_confined:
  assumes "lib_ok (library D)" and "objects_ok D" and "calls s = []"
  shows "wp (Reconcile D req) (\<lambda>_ t. \<forall>d \<in> set (calls t). mutates d \<longrightarrow>
    (\<exists>proj. (GetProjection req (Inr proj) \<in> set (calls t) \<or>
       (\<exists>sent. UpdateProjection sent (Inr proj) \<in> set (calls t))) \<and>
      confined (library D) proj d)) s"
proof -
  have "keeps (\<lambda>s. list_all (\<lambda>d. mutates d \<longrightarrow> confined (library D) proj d) (calls s))
      (deleteDestination D proj)" for proj
    by (rule makes_keeps, rule makes_deleteDestination) simp_all
  then show ?thesis
    using np_rec.reconcile_within [OF assms(1,3), of "confined (library D)" req]
      confined_live [OF assms(1,2)]
    by (simp add: np_rec.stays_in_def np_rec.known_def)
qed

theorem Reconcile_confined_witness:
  "wp (Reconcile sample_deps \<lparr>ok_Namespace = ''tenant'', ok_Name = ''mirror''\<rparr>)
     (\<lambda>_ t. \<forall>d \<in> set (calls t). mutates d \<longrightarrow>
    (\<exists>proj. (GetProjection \<lparr>ok_Namespace = ''tenant'', ok_Name = ''mirror''\<rparr> (Inr proj) \<in> set (calls t) \<or>
       (\<exists>sent. UpdateProjection sent (Inr proj) \<in> set (calls t))) \<and>
      confined (library sample_deps) proj d)) sample_sys"
  by (rule Reconcile_confined [OF sample_library_ok sample_objects_ok sample_sys_calls])

section \<open>What the conditions mean\<close>

text \<open>
  The destination is in place, by the calls made: it was created, or an owned object was updated,
  or an owned object was found that needs no update.
\<close>

definition placed :: "lib \<Rightarrow> (obj \<Rightarrow> bool) \<Rightarrow> gvk \<Rightarrow> obj \<Rightarrow> call list \<Rightarrow> bool" where
  "placed L owned g dst cs \<longleftrightarrow>
     (\<exists>r. CreateObject dst (Inr r) \<in> set cs) \<or>
     (\<exists>x. GetObject g (key_of L dst) (Inr x) \<in> set cs \<and> owned x \<and>
        (\<not> needsUpdate L x (preserveAPIServerAllocatedFields L x dst) \<or>
         (\<exists>r. UpdateObject (SetResourceVersion L (preserveAPIServerAllocatedFields L x dst)
            (GetResourceVersion L x)) (Inr r) \<in> set cs)))"

lemma placed_mono: "placed L owned g dst cs \<Longrightarrow> set cs \<subseteq> set ds \<Longrightarrow> placed L owned g dst ds"
  unfolding placed_def by blast

lemma write_result_placed:
  assumes "write_result L owned dst fetched '''' cs"
  shows "placed L owned g dst (GetObject g (key_of L dst) fetched # cs)"
proof (cases fetched)
  case (Inl e)
  with assms obtain r where m: "mutations cs = [CreateObject dst r]"
    "(case r of Inl _ \<Rightarrow> ''DestinationCreateFailed'' | Inr _ \<Rightarrow> '''') = ''''"
    by (auto simp: write_result_def split: if_splits)
  from m(2) obtain v where "r = Inr v" by (cases r) auto
  moreover have "CreateObject dst r \<in> set (mutations cs)" unfolding m(1) by simp
  ultimately show ?thesis by (auto simp: placed_def)
next
  case (Inr x)
  show ?thesis
  proof (cases "needsUpdate L x (preserveAPIServerAllocatedFields L x dst)")
    case True
    let ?sent = "SetResourceVersion L (preserveAPIServerAllocatedFields L x dst) (GetResourceVersion L x)"
    from True assms Inr obtain r where m: "owned x" "mutations cs = [UpdateObject ?sent r]"
      "(case r of Inl _ \<Rightarrow> ''DestinationUpdateFailed'' | Inr _ \<Rightarrow> '''') = ''''"
      by (auto simp: write_result_def split: if_splits)
    from m(3) obtain v where "r = Inr v" by (cases r) auto
    moreover have "UpdateObject ?sent r \<in> set (mutations cs)" unfolding m(2) by simp
    ultimately show ?thesis using Inr m(1) by (auto simp: placed_def)
  next
    case False
    with assms Inr have "owned x" by (auto simp: write_result_def split: if_splits)
    with False Inr show ?thesis by (auto simp: placed_def)
  qed
qed

text \<open>Failing does not touch the success bucket.\<close>

lemma fail_no_success:
  "wp (failSource D p r a m) (\<lambda>_ t. successes kindProjection t = successes kindProjection s) s"
  "wp (failDestination D p v r m) (\<lambda>_ t. successes kindProjection t = successes kindProjection s) s"
  "wp (failClusterSource D c r a m)
     (\<lambda>_ t. successes kindClusterProjection t = successes kindClusterProjection s) s"
  "wp (failClusterDestination D c v r m)
     (\<lambda>_ t. successes kindClusterProjection t = successes kindClusterProjection s) s"
  "wp (failClusterDestinationCounts D c v r m w f)
     (\<lambda>_ t. successes kindClusterProjection t = successes kindClusterProjection s) s"
  by (auto simp: terminal_defs Let_def wp_rules call_defs successes_def metric_labels
      split: prod.splits option.splits)

lemma writeDestination_placed:
  "wp (writeDestination D proj source) (\<lambda>(reason, msg) t.
     successes kind t = successes kind s \<and>
     (reason = '''' \<longrightarrow> placed (library D) (\<lambda>x. isOwnedBy (library D) x proj)
        (GroupVersionKind (library D) source)
        (buildDestination (library D) source proj (m_Namespace (p_ObjectMeta proj))) (calls t))) s"
proof -
  let ?ns = "m_Namespace (p_ObjectMeta proj)"
  have "wp (writeDestination D proj source) (\<lambda>r t. successes kind t = successes kind s \<and>
      (case r of (reason, msg) \<Rightarrow> \<lambda>t. \<exists>fetched cs.
        calls t = calls s @ GetObject (GroupVersionKind (library D) source)
          (key_of (library D) (t_build np_ops (library D) source proj ?ns)) fetched # cs \<and>
        write_result (library D) (\<lambda>x. t_owned np_ops (library D) x proj)
          (t_build np_ops (library D) source proj ?ns) fetched reason cs) t) s"
    using quiet_success [OF quiet_writeDestination, of D proj source kind s]
      write_template_result [of D np_ops proj source ?ns s]
    by (simp add: writeDestination_template wp_conj)
  then show ?thesis
    by (rule wp_mono)
      (auto dest!: write_result_placed [where g = "GroupVersionKind (library D) source"]
        elim: placed_mono)
qed

text \<open>What a success of the live part rests on.\<close>

definition projected :: "lib \<Rightarrow> string \<Rightarrow> projection \<Rightarrow> call list \<Rightarrow> bool" where
  "projected L mode proj cs \<longleftrightarrow> (\<exists>gvr source.
     DynGet gvr (sr_Namespace (ps_Source (p_Spec proj))) (sr_Name (ps_Source (p_Spec proj))) (Inr source)
       \<in> set cs \<and>
     projectable (fmlookup (nil_map (GetAnnotations L source)) projectableAnnotation) mode \<and>
     placed L (\<lambda>x. isOwnedBy L x proj) (GroupVersionKind L source)
       (buildDestination L source proj (m_Namespace (p_ObjectMeta proj))) cs)"

lemma projectedI:
  "DynGet gvr (sr_Namespace (ps_Source (p_Spec proj))) (sr_Name (ps_Source (p_Spec proj)))
     (Inr source) \<in> set cs \<Longrightarrow>
   projectable (fmlookup (nil_map (GetAnnotations L source)) projectableAnnotation) mode \<Longrightarrow>
   placed L (\<lambda>x. isOwnedBy L x proj) (GroupVersionKind L source)
     (buildDestination L source proj (m_Namespace (p_ObjectMeta proj))) cs \<Longrightarrow>
   projected L mode proj cs"
  unfolding projected_def by blast

lemma projected_mono: "projected L mode proj cs \<Longrightarrow> set cs \<subseteq> set ds \<Longrightarrow> projected L mode proj ds"
  unfolding projected_def by (blast intro: placed_mono)

lemma after_write_success:
  fixes t :: "'w sys"
  assumes "successes kindProjection t = n" "reason = '''' \<Longrightarrow> projected L mode proj (calls t)"
  shows "wp (if reason \<noteq> '''' then failDestination D proj v reason msg
      else State_Monad.bind (ensureNamespacedDestWatch D g) (\<lambda>_.
        State_Monad.bind (markAllReady D proj v) (\<lambda>err. State_Monad.return (Result_empty, err))))
    (\<lambda>_ u. successes kindProjection u = n \<or> projected L mode proj (calls u)) t"
proof (cases "reason = ''''")
  case True
  let ?m = "State_Monad.bind (ensureNamespacedDestWatch D g) (\<lambda>_.
    State_Monad.bind (markAllReady D proj v) (\<lambda>err. State_Monad.return (Result_empty, err)))"
  have "harmless ?m" by (intro makes_rules)
  then have "wp ?m (\<lambda>_ u. \<exists>cs. calls u = calls t @ cs \<and> list_all (\<lambda>c. \<not> mutates c) cs) t"
    by (simp add: makes_def)
  then have "wp ?m (\<lambda>_ u. projected L mode proj (calls u)) t"
    by (rule wp_mono) (use assms(2) [OF True] in \<open>auto elim: projected_mono\<close>)
  then show ?thesis using True by (auto elim: wp_mono)
next
  case False
  then show ?thesis using assms(1) by (auto intro: wp_mono [OF fail_no_success(2)])
qed

lemma Reconcile_fetched_success:
  fixes s :: "'w sys"
  assumes "DynGet gvr (sr_Namespace (ps_Source (p_Spec proj))) (sr_Name (ps_Source (p_Spec proj)))
      (Inr source) \<in> set (calls s)"
  shows "wp (Reconcile_fetched D proj g v source) (\<lambda>_ t.
    successes kindProjection t = successes kindProjection s \<or>
    projected (library D) (pr_SourceMode (np s)) proj (calls t)) s"
proof -
  let ?n = "successes kindProjection s" and ?mode = "pr_SourceMode (np s)" and ?L = "library D"
  let ?Q = "\<lambda>_ t. successes kindProjection t = ?n \<or> projected ?L ?mode proj (calls t)"
  obtain reason msg ok where c: "checkProjectable ?L source ?mode = (reason, msg, ok)"
    by (metis surj_pair)
  show ?thesis
  proof (cases ok)
    case False
    have "wp (State_Monad.bind (deleteDestination D proj)
        (\<lambda>_. failSource D proj reason ''Validate'' msg)) ?Q s"
      by (rule quiet_then_success [OF quiet_deleteDestination(2), where kind = kindProjection])
        (rule wp_mono [OF fail_no_success(1)], simp)
    with False show ?thesis
      by (simp add: Reconcile_fetched_def checkSourceProjectable_def wp_rules c)
  next
    case True
    have ok: "projectable (fmlookup (nil_map (GetAnnotations ?L source)) projectableAnnotation) ?mode"
      using checkProjectable_decides [of ?L source ?mode] True by (simp add: c)
    have "wp (writeDestination D proj source) (\<lambda>_ t. \<exists>cs. calls t = calls s @ cs) s"
      by (rule wp_mono [OF quiet_calls_only [OF quiet_writeDestination]]) auto
    with writeDestination_placed [of D proj source kindProjection s]
    have "wp (writeDestination D proj source) (\<lambda>r t.
        (case r of (reason, msg) \<Rightarrow> \<lambda>t. successes kindProjection t = ?n \<and> (reason = '''' \<longrightarrow>
          placed ?L (\<lambda>x. isOwnedBy ?L x proj) (GroupVersionKind ?L source)
            (buildDestination ?L source proj (m_Namespace (p_ObjectMeta proj))) (calls t))) t \<and>
        (\<exists>cs. calls t = calls s @ cs)) s"
      by (simp add: wp_conj)
    then have "wp (State_Monad.bind (writeDestination D proj source) (\<lambda>(reason, msg).
        if reason \<noteq> '''' then failDestination D proj v reason msg
        else State_Monad.bind (ensureNamespacedDestWatch D g) (\<lambda>_.
          State_Monad.bind (markAllReady D proj v) (\<lambda>err.
            State_Monad.return (Result_empty, err))))) ?Q s"
      unfolding wp_bind [of "writeDestination D proj source"]
      by (rule wp_mono, simp only: split_paired_all prod.case)
        (rule after_write_success, use assms ok in \<open>auto intro!: projectedI\<close>)
    with True show ?thesis
      by (simp add: Reconcile_fetched_def checkSourceProjectable_def wp_rules c)
  qed
qed

lemma Reconcile_live_success:
  fixes s :: "'w sys"
  shows "wp (Reconcile_live D proj) (\<lambda>_ t.
    successes kindProjection t = successes kindProjection s \<or>
    projected (library D) (pr_SourceMode (np s)) proj (calls t)) s"
proof -
  let ?n = "successes kindProjection s" and ?mode = "pr_SourceMode (np s)"
  let ?Q = "\<lambda>_ t. successes kindProjection t = ?n \<or> projected (library D) ?mode proj (calls t)"
  let ?ns = "sr_Namespace (ps_Source (p_Spec proj))" and ?name = "sr_Name (ps_Source (p_Spec proj))"
  have fetched: "wp (State_Monad.bind (dynamic_Get D gvr ?ns ?name) (\<lambda>fetched. case fetched of
        Inl err \<Rightarrow> handleSourceFetchError D proj gvr err
      | Inr source \<Rightarrow> Reconcile_fetched D proj g v source)) ?Q t"
    if t: "successes kindProjection t = ?n" "pr_SourceMode (np t) = ?mode" for t gvr g v
  proof -
    obtain r w where r: "dyn_Get D gvr ?ns ?name (world t) = (r, w)" by fastforce
    let ?t = "t\<lparr>world := w, calls := calls t @ [DynGet gvr ?ns ?name r]\<rparr>"
    have t': "successes kindProjection ?t = ?n" "pr_SourceMode (np ?t) = ?mode"
      using t by (simp_all add: successes_def)
    have "wp (case r of Inl err \<Rightarrow> handleSourceFetchError D proj gvr err
        | Inr source \<Rightarrow> Reconcile_fetched D proj g v source) ?Q ?t"
    proof (cases r)
      case (Inl err)
      have "wp (State_Monad.bind (deleteAllOwnedDestinations D proj gvr) (\<lambda>_.
          failSource D proj reason ''Get'' msg)) ?Q ?t" for reason msg
        by (rule quiet_then_success [OF quiet_sweeps(1), where kind = kindProjection])
          (rule wp_mono [OF fail_no_success(1)], simp add: t')
      with Inl t' show ?thesis
        by (auto simp: handleSourceFetchError_def Let_def intro: wp_mono [OF fail_no_success(1)])
    next
      case (Inr source)
      then have "wp (Reconcile_fetched D proj g v source) (\<lambda>_ u.
          successes kindProjection u = successes kindProjection ?t \<or>
          projected (library D) (pr_SourceMode (np ?t)) proj (calls u)) ?t"
        by (intro Reconcile_fetched_success [where gvr = gvr]) simp
      with Inr t' show ?thesis by simp
    qed
    then show ?thesis by (simp add: wp_rules dynamic_Get_def r)
  qed
  have watched: "wp (ensureSourceWatch D g) (\<lambda>_ u. successes kindProjection u = ?n \<and>
      pr_SourceMode (np u) = ?mode) t"
    if "successes kindProjection t = ?n" "pr_SourceMode (np t) = ?mode" for t g
    using that by (auto simp: ensureSourceWatch_def watch_def wp_rules successes_def split: prod.splits)
  show ?thesis
    by (auto simp: Reconcile_live_def wp_rules wp_resolveGVR Let_def successes_def
        split: prod.splits sum.splits
        intro!: wp_mono [OF watched] wp_mono [OF fail_no_success(1)]
          fetched [unfolded wp_bind successes_def])
qed

text \<open>Everything only appends to the calls.\<close>

lemma grows_quiet: "quiet m \<Longrightarrow> makes (\<lambda>_. True) m"
  by (erule makes_mono [OF quiet_makes]) simp

lemma grows_harmless: "harmless m \<Longrightarrow> makes (\<lambda>_. True) m"
  by (erule makes_mono) simp

lemmas grows_rules =
  makes_bind makes_if makes_case_sum makes_case_option makes_case_prod makes_return
  harmless_terminal [THEN grows_harmless] quiet_calls [THEN grows_quiet]
  quiet_resolveGVR [THEN grows_quiet] quiet_checkSourceProjectable [THEN grows_quiet]
  quiet_writeDestination [THEN grows_quiet] quiet_sweeps [THEN grows_quiet]
  quiet_deleteDestination [THEN grows_quiet] quiet_finalizers [THEN grows_quiet]
  quiet_watches [THEN grows_quiet]

lemma grows_Reconcile_live: "makes (\<lambda>_. True) (Reconcile_live D proj)"
  unfolding Reconcile_live_def Reconcile_fetched_def handleSourceFetchError_def Let_def
  by (intro grows_rules)

text \<open>
  C5: a reconcile is counted as a success only if the Projection is really projected: its calls show the
  source object, allowed by the configured mode and its annotation, and the destination built
  from that very object created, updated, or found up to date under the Projection's ownership.
\<close>

theorem Reconcile_success_projected:
  "wp (Reconcile D req) (\<lambda>_ t.
     reconcileTotal t (kindProjection, resultSuccess) = reconcileTotal s (kindProjection, resultSuccess) \<or>
     (\<exists>proj. (GetProjection req (Inr proj) \<in> set (calls t) \<or>
        (\<exists>sent. UpdateProjection sent (Inr proj) \<in> set (calls t))) \<and>
        projected (library D) (pr_SourceMode (np s)) proj (calls t))) s"
proof -
  have "wp (Reconcile_live D proj) (\<lambda>_ u. successes kindProjection u = successes kindProjection t \<or>
      projected (library D) (pr_SourceMode (np s)) proj (calls u)) t" if "np t = np s" for proj t
    using Reconcile_live_success [of D proj t] that by simp
  then show ?thesis
    using np_rec.reconcile_success [of s D "projected (library D) (pr_SourceMode (np s))" req]
      grows_Reconcile_live [of D]
    by (simp add: successes_def np_rec.known_def)
qed

section \<open>Error paths\<close>

lemma makes_api_bind:
  fixes f :: "'w \<Rightarrow> 'r \<times> 'w" and h :: "'r \<Rightarrow> ('w, 'a) action"
  assumes "\<And>r. P (c r)" and "\<And>w r w'. f w = (r, w') \<Longrightarrow> makes P (h r)"
  shows "makes P (State_Monad.bind (api_call f c) h)"
  unfolding makes_def
proof
  fix s :: "'w sys"
  obtain r w where r: "f (world s) = (r, w)" by fastforce
  let ?s = "s\<lparr>world := w, calls := calls s @ [c r]\<rparr>"
  have "wp (h r) (\<lambda>_ t. \<exists>cs. calls t = calls ?s @ cs \<and> list_all P cs) ?s"
    using assms(2) [OF r] unfolding makes_def by blast
  then have "wp (h r) (\<lambda>_ t. \<exists>cs. calls t = calls s @ cs \<and> list_all P cs) ?s"
    by (rule wp_mono) (use assms(1) in auto)
  with r show "wp (State_Monad.bind (api_call f c) h)
      (\<lambda>_ t. \<exists>cs. calls t = calls s @ cs \<and> list_all P cs) s"
    by (simp add: wp_rules)
qed

text \<open>
  C26: as long as fetching the source fails for any reason other than its absence, reconciling a live
  Projection creates, updates and deletes nothing: existing destinations stay in place.
\<close>

theorem transient_error_changes_nothing:
  assumes "\<And>gvr w r w'. dyn_Get D gvr (sr_Namespace (ps_Source (p_Spec proj)))
      (sr_Name (ps_Source (p_Spec proj))) w = (r, w') \<Longrightarrow>
    (\<exists>e. r = Inl e \<and> \<not> IsNotFound (library D) e)"
  shows "makes (\<lambda>c. \<not> mutates c) (Reconcile_live D proj)"
proof -
  have fetch: "harmless (State_Monad.bind (dynamic_Get D gvr (sr_Namespace (ps_Source (p_Spec proj)))
      (sr_Name (ps_Source (p_Spec proj)))) (\<lambda>fetched. case fetched of
        Inl err \<Rightarrow> handleSourceFetchError D proj gvr err
      | Inr source \<Rightarrow> Reconcile_fetched D proj g v source))" for gvr g v
    unfolding dynamic_Get_def
    by (rule makes_api_bind)
      (auto dest!: assms simp: handleSourceFetchError_def intro: makes_rules)
  show ?thesis
    unfolding Reconcile_live_def Let_def by (intro fetch makes_rules)
qed

definition down_deps :: "unit deps" where
  "down_deps = sample_deps\<lparr>dyn_Get := (\<lambda>g ns n w. (Inl (ApiError ''ServiceUnavailable'' ''down''), w))\<rparr>"

theorem transient_error_changes_nothing_witness:
  "makes (\<lambda>c. \<not> mutates c) (Reconcile_live down_deps sample_projection)"
  by (rule transient_error_changes_nothing) (auto simp: down_deps_def sample_deps_def ref_lib_def)

text \<open>
  C27: when the source is gone, the sweep over the owned destinations runs to its end, and the
  status then written says that the source was deleted or, if nothing had ever been projected, that
  it was not found. A failing sweep does not keep the status from being written.
\<close>

theorem source_gone_sweeps_and_reports:
  fixes s :: "'w sys"
  assumes "lib_ok (library D)" and "IsNotFound (library D) err"
  shows "wp (handleSourceFetchError D proj gvr err) (\<lambda>_ t. \<exists>listed cs evs p r.
    calls t = calls s @ DynList gvr (ownedByUIDSelector proj) listed # cs @ evs @
      [StatusUpdateProjection p r] \<and>
    (case listed of
       Inl _ \<Rightarrow> cs = []
     | Inr items \<Rightarrow> deletions cs =
         map (\<lambda>x. (gvr, GetNamespace (library D) x, GetName (library D) x))
           (filter (\<lambda>x. isOwnedBy (library D) x proj) items)) \<and>
    source_failed (pst_Conditions (p_Status p))
      (if pst_DestinationName (p_Status proj) = '''' then ''SourceNotFound'' else ''SourceDeleted'')) s"
proof -
  let ?ok = "\<lambda>listed cs. case listed of Inl _ \<Rightarrow> cs = [] | Inr items \<Rightarrow> deletions cs =
      map (\<lambda>x. (gvr, GetNamespace (library D) x, GetName (library D) x))
        (filter (\<lambda>x. isOwnedBy (library D) x proj) items)"
  have fail: "wp (failSource D proj reason ''Get'' msg) (\<lambda>_ t. \<exists>evs p r.
      calls t = calls u @ evs @ [StatusUpdateProjection p r] \<and>
      source_failed (pst_Conditions (p_Status p)) reason) u" for reason msg u
    by (auto simp: failSource_def Let_def statusUpdate_Projection_def wp_rules
        np_staged_conditions(2) [OF assms(1)] split: prod.splits option.splits)
  have "wp (deleteAllOwnedDestinations D proj gvr) (\<lambda>_. wp (failSource D proj reason ''Get'' msg)
      (\<lambda>_ t. \<exists>listed cs evs p r. calls t = calls s @ DynList gvr (ownedByUIDSelector proj) listed # cs @
        evs @ [StatusUpdateProjection p r] \<and> ?ok listed cs \<and>
        source_failed (pst_Conditions (p_Status p)) reason)) s" for reason msg
  proof (rule wp_mono [OF np_sweep.sweep_op_exact], elim exE conjE)
    fix r listed cs and u :: "'w sys"
    assume u: "calls u = calls s @ DynList gvr (ownedByUIDSelector proj) listed # cs"
      and l: "case listed of
        Inl e \<Rightarrow> cs = [] \<and> r = Some (Wrap ''listing owned destinations'' e)
      | Inr items \<Rightarrow> deletions cs = map (\<lambda>x. (gvr, GetNamespace (library D) x, GetName (library D) x))
            (filter (\<lambda>x. isOwnedBy (library D) x proj) items) \<and> r = first_failure (library D) cs"
    from l have ok: "?ok listed cs" by (cases listed) auto
    show "wp (failSource D proj reason ''Get'' msg) (\<lambda>_ t. \<exists>listed cs evs p r.
        calls t = calls s @ DynList gvr (ownedByUIDSelector proj) listed # cs @
        evs @ [StatusUpdateProjection p r] \<and> ?ok listed cs \<and>
        source_failed (pst_Conditions (p_Status p)) reason) u"
    proof (rule wp_mono [OF fail], elim exE conjE)
      fix x evs p q and t :: "'w sys"
      assume "calls t = calls u @ evs @ [StatusUpdateProjection p q]"
        and "source_failed (pst_Conditions (p_Status p)) reason"
      with u ok show "\<exists>listed cs evs p r. calls t = calls s @ DynList gvr (ownedByUIDSelector proj) listed # cs @
          evs @ [StatusUpdateProjection p r] \<and> ?ok listed cs \<and>
          source_failed (pst_Conditions (p_Status p)) reason"
        by (intro exI [of _ listed] exI [of _ cs] exI [of _ evs] exI [of _ p] exI [of _ q]) simp
    qed
  qed
  then show ?thesis
    using assms(2) by (auto simp: handleSourceFetchError_def Let_def wp_bind)
qed

theorem source_gone_sweeps_and_reports_witness:
  "wp (handleSourceFetchError sample_deps sample_projection (rm_Resource sample_mapping) NotFound) (\<lambda>_ t. \<exists>listed cs evs p r.
    calls t = calls sample_sys @ DynList (rm_Resource sample_mapping) (ownedByUIDSelector sample_projection) listed # cs @ evs @
      [StatusUpdateProjection p r] \<and>
    (case listed of
       Inl _ \<Rightarrow> cs = []
     | Inr items \<Rightarrow> deletions cs =
         map (\<lambda>x. (rm_Resource sample_mapping, GetNamespace ref_lib x, GetName ref_lib x))
           (filter (\<lambda>x. isOwnedBy ref_lib x sample_projection) items)) \<and>
    source_failed (pst_Conditions (p_Status p)) ''SourceNotFound'') sample_sys"
proof -
  have gone: "IsNotFound (library sample_deps) NotFound"
    by (simp add: NotFound_def ref_lib_def)
  have new: "pst_DestinationName (p_Status sample_projection) = ''''"
    by (simp add: sample_projection_def)
  show ?thesis
    using source_gone_sweeps_and_reports [of sample_deps NotFound sample_projection
        "rm_Resource sample_mapping" sample_sys, OF sample_library_ok gone]
    unfolding new if_True sample_library eqTrueI [OF refl] .
qed

end
