(* ===== verification/Fan_Out.thy ===== *)
theory Fan_Out
  imports Projection_Controller
begin

text \<open>
  \<^verbatim>\<open>fanOut\<close> and \<^verbatim>\<open>summarizeFailures\<close> of \<^verbatim>\<open>cluster_projection_controller.go\<close>. The function runs
  three kinds of goroutines. Its own sends every target on the \<^verbatim>\<open>jobs\<close> channel, closes that channel,
  starts the closer, and only then ranges over \<^verbatim>\<open>results\<close> until that channel is closed and empty.
  The workers range over \<^verbatim>\<open>jobs\<close>, write one destination per job and send its result. The
  closer waits for the wait group and closes \<^verbatim>\<open>results\<close>. The state has the program counter of each,
  the two buffered channels with their capacities and closed flags, and the counter of the wait
  group. One step is one channel operation, fetch, write, or exit of one goroutine, and the
  steps of different goroutines interleave freely.

  A goroutine blocks where Go blocks: on sending to a full channel, on receiving from an empty one
  that is not closed, and on waiting for a positive counter. Sending on a closed channel, closing
  it twice and a negative counter panic, which ends the process: no step follows a panic.
  (The capacities here are positive; a channel of capacity 0 would need a rendezvous.) The
  workers are started before anything is sent, and block until then, so the loop that starts
  them is not interleaved.

  \<open>fanOut\<close> runs the pool under a scheduler that picks the next goroutine from the whole state
  of the pool; every property holds for every scheduler.
\<close>

section \<open>The pool\<close>

record result =
  r_ns :: string
  r_reason :: string
  r_msg :: string

datatype worker =
    Ready                            \<comment> \<open>at the receive from \<^verbatim>\<open>jobs\<close>\<close>
  | Working string                   \<comment> \<open>about to fetch the destination\<close>
  | Fetched string "error + obj"     \<comment> \<open>about to act on what was fetched\<close>
  | Sending result                   \<comment> \<open>about to send on \<^verbatim>\<open>results\<close>\<close>
  | Exited                           \<comment> \<open>after \<^verbatim>\<open>wg.Done()\<close>\<close>

datatype phase =
    Dispatching                      \<comment> \<open>at the loop over the targets, or the close of \<^verbatim>\<open>jobs\<close> after it\<close>
  | Launching                        \<comment> \<open>about to start the closer\<close>
  | Collecting                       \<comment> \<open>at the receive from \<^verbatim>\<open>results\<close>\<close>
  | Collected                        \<comment> \<open>after the range over \<^verbatim>\<open>results\<close>: the function returns\<close>

datatype closer = Unstarted | Waiting | Ended

record 'w pool =
  main_phase :: phase
  unsent :: "string list"
  jobs :: "string list"
  jobsCap :: nat
  jobsClosed :: bool
  workers :: "worker list"
  wg :: nat
  results :: "result list"
  resultsCap :: nat
  resultsClosed :: bool
  closer :: closer
  written :: nat
  failed :: nat
  failureMsgs :: str_map
  psys :: "'w sys"

datatype actor = Main | Closer | Worker nat

text \<open>Where a goroutine is about to panic.\<close>

definition panics :: "'w pool \<Rightarrow> bool" where
  "panics p \<longleftrightarrow> (main_phase p = Dispatching \<and> jobsClosed p) \<or>
     (closer p = Waiting \<and> wg p = 0 \<and> resultsClosed p) \<or>
     list_ex (\<lambda>w. case w of
        Sending res \<Rightarrow> resultsClosed p
      | Ready \<Rightarrow> jobs p = [] \<and> jobsClosed p \<and> wg p = 0
      | _ \<Rightarrow> False) (workers p)"

fun can :: "'w pool \<Rightarrow> actor \<Rightarrow> bool" where
  "can p Main \<longleftrightarrow> \<not> panics p \<and>
     (case main_phase p of
        Dispatching \<Rightarrow> unsent p = [] \<or> length (jobs p) < jobsCap p
      | Launching \<Rightarrow> True
      | Collecting \<Rightarrow> results p \<noteq> [] \<or> resultsClosed p
      | Collected \<Rightarrow> False)"
| "can p Closer \<longleftrightarrow> \<not> panics p \<and> closer p = Waiting \<and> wg p = 0"
| "can p (Worker i) \<longleftrightarrow> \<not> panics p \<and> i < length (workers p) \<and>
     (case workers p ! i of
        Ready \<Rightarrow> jobs p \<noteq> [] \<or> jobsClosed p
      | Sending res \<Rightarrow> length (results p) < resultsCap p
      | Exited \<Rightarrow> False
      | _ \<Rightarrow> True)"

definition collect :: "result \<Rightarrow> 'w pool \<Rightarrow> 'w pool" where
  "collect res p =
     (if r_reason res = '''' then p\<lparr>written := Suc (written p)\<rparr>
      else p\<lparr>failed := Suc (failed p),
             failureMsgs := fmupd (r_ns res) (r_reason res @ '': '' @ r_msg res) (failureMsgs p)\<rparr>)"

definition main_step :: "'w pool \<Rightarrow> 'w pool" where
  "main_step p =
     (case main_phase p of
        Dispatching \<Rightarrow>
          (case unsent p of
             [] \<Rightarrow> p\<lparr>jobsClosed := True, main_phase := Launching\<rparr>
           | ns # rest \<Rightarrow> p\<lparr>unsent := rest, jobs := jobs p @ [ns]\<rparr>)
      | Launching \<Rightarrow> p\<lparr>closer := Waiting, main_phase := Collecting\<rparr>
      | Collecting \<Rightarrow>
          (case results p of
             [] \<Rightarrow> p\<lparr>main_phase := Collected\<rparr>
           | res # rest \<Rightarrow> collect res (p\<lparr>results := rest\<rparr>))
      | Collected \<Rightarrow> p)"

definition work :: "'w deps \<Rightarrow> clusterProjection \<Rightarrow> obj \<Rightarrow> nat \<Rightarrow> 'w pool \<Rightarrow> 'w pool" where
  "work D cp src i p =
     (case workers p ! i of
        Ready \<Rightarrow>
          (case jobs p of
             [] \<Rightarrow> p\<lparr>workers := (workers p)[i := Exited], wg := wg p - 1\<rparr>
           | ns # js \<Rightarrow> p\<lparr>jobs := js, workers := (workers p)[i := Working ns]\<rparr>)
      | Working ns \<Rightarrow>
          (case run_state (get_Object D (GroupVersionKind (library D) src)
                  (clusterDestinationKey (library D) src cp ns)) (psys p) of
             (fetched, s) \<Rightarrow> p\<lparr>workers := (workers p)[i := Fetched ns fetched], psys := s\<rparr>)
      | Fetched ns fetched \<Rightarrow>
          (case run_state (writeClusterDestination_switch D cp src ns fetched) (psys p) of
             ((reason, msg), s) \<Rightarrow>
               p\<lparr>workers := (workers p)
                   [i := Sending \<lparr>r_ns = ns, r_reason = reason, r_msg = msg\<rparr>], psys := s\<rparr>)
      | Sending res \<Rightarrow>
          p\<lparr>results := results p @ [res], workers := (workers p)[i := Ready]\<rparr>
      | Exited \<Rightarrow> p)"

fun perform :: "'w deps \<Rightarrow> clusterProjection \<Rightarrow> obj \<Rightarrow> actor \<Rightarrow> 'w pool \<Rightarrow> 'w pool" where
  "perform D cp src Main p = main_step p"
| "perform D cp src Closer p = p\<lparr>resultsClosed := True, closer := Ended\<rparr>"
| "perform D cp src (Worker i) p = work D cp src i p"

text \<open>What a step of the function's own goroutine is: a send, a receive, or a change of control only.\<close>

lemma main_cases:
  assumes "can p Main"
  obtains (send) ns rest where "unsent p = ns # rest"
      "perform D cp src Main p = p\<lparr>unsent := rest, jobs := jobs p @ [ns]\<rparr>"
  | (receive) res rest where "results p = res # rest"
      "perform D cp src Main p = collect res (p\<lparr>results := rest\<rparr>)"
  | (control) ph jc c where
      "perform D cp src Main p = p\<lparr>main_phase := ph, jobsClosed := jc, closer := c\<rparr>"
proof (cases "main_phase p")
  case Dispatching
  then show thesis
    using that(1) that(3) [where ph = Launching and jc = True and c = "closer p"]
    by (cases "unsent p") (simp_all add: main_step_def)
next
  case Launching
  then show thesis
    using that(3) [where ph = Collecting and jc = "jobsClosed p" and c = Waiting] by (simp add: main_step_def)
next
  case Collecting
  then show thesis
    using that(2) that(3) [where ph = Collected and jc = "jobsClosed p" and c = "closer p"]
    by (cases "results p") (simp_all add: main_step_def)
qed (use assms in simp)

inductive pool_step :: "'w deps \<Rightarrow> clusterProjection \<Rightarrow> obj \<Rightarrow> 'w pool \<Rightarrow> 'w pool \<Rightarrow> bool"
  for D cp src where
  act: "can p a \<Longrightarrow> pool_step D cp src p (perform D cp src a p)"

inductive pool_steps :: "'w deps \<Rightarrow> clusterProjection \<Rightarrow> obj \<Rightarrow> 'w pool \<Rightarrow> 'w pool \<Rightarrow> bool"
  for D cp src where
  here: "pool_steps D cp src p p"
| step: "pool_steps D cp src p q \<Longrightarrow> pool_step D cp src q r \<Longrightarrow> pool_steps D cp src p r"

inductive_cases pool_stepE: "pool_step D cp src p q"

text \<open>The function has returned and left nothing running and nothing in its channels.\<close>

definition finished_pool :: "'w pool \<Rightarrow> bool" where
  "finished_pool p \<longleftrightarrow> main_phase p = Collected \<and> closer p = Ended \<and>
     list_all (\<lambda>w. w = Exited) (workers p) \<and> results p = []"

definition pool_start :: "string list \<Rightarrow> int \<Rightarrow> 'w sys \<Rightarrow> 'w pool" where
  "pool_start targets selectorWriteConcurrency s =
     (let concurrency = selectorWriteConcurrency;
          concurrency = (if concurrency \<le> 0 then 16 else concurrency);
          concurrency = (if concurrency > int (length targets) then int (length targets)
                         else concurrency)
      in \<lparr>main_phase = Dispatching, unsent = targets,
          jobs = [], jobsCap = length targets, jobsClosed = False,
          workers = replicate (nat concurrency) Ready, wg = nat concurrency,
          results = [], resultsCap = length targets, resultsClosed = False, closer = Unstarted,
          written = 0, failed = 0, failureMsgs = fmempty, psys = s\<rparr>)"

section \<open>Termination\<close>

fun weight :: "worker \<Rightarrow> nat" where
  "weight Ready = 1"
| "weight (Working _) = 5"
| "weight (Fetched _ _) = 4"
| "weight (Sending _) = 3"
| "weight Exited = 0"

fun phase_weight :: "phase \<Rightarrow> nat" where
  "phase_weight Dispatching = 4"
| "phase_weight Launching = 3"
| "phase_weight Collecting = 1"
| "phase_weight Collected = 0"

definition pool_size :: "'w pool \<Rightarrow> nat" where
  "pool_size p = 6 * length (unsent p) + 5 * length (jobs p) + sum_list (map weight (workers p)) +
     length (results p) + phase_weight (main_phase p) + (if closer p = Ended then 0 else 1)"

lemma sum_weight_update:
  "i < length ws \<Longrightarrow>
   sum_list (map weight (ws[i := w])) + weight (ws ! i) = sum_list (map weight ws) + weight w"
  by (induction ws arbitrary: i) (auto split: nat.splits)

lemma perform_decreases:
  assumes "can p a"
  shows "pool_size (perform D cp src a p) < pool_size p"
proof (cases a)
  case Main
  with assms show ?thesis
    by (auto simp: pool_size_def main_step_def collect_def split: phase.splits list.splits)
next
  case Closer
  with assms show ?thesis by (simp add: pool_size_def)
next
  case (Worker i)
  with assms have i: "i < length (workers p)" by simp
  have less: "sum_list (map weight ((workers p)[i := w])) + k < m + sum_list (map weight (workers p))"
    if "weight w + k < weight (workers p ! i) + m" for w k m
    using sum_weight_update [OF i, of w] that by linarith
  show ?thesis
    using assms Worker i less [of _ 0 0] less [of _ 1 0] less [of _ 0 5]
    by (auto simp: work_def pool_size_def split: worker.splits list.splits prod.splits)
qed

text \<open>The scheduler picks one of the goroutines that can move.\<close>

definition runnable :: "'w pool \<Rightarrow> actor list" where
  "runnable p = filter (can p) (Main # Closer # map Worker [0..<length (workers p)])"

lemma runnable_iff: "a \<in> set (runnable p) \<longleftrightarrow> can p a"
  by (cases a) (auto simp: runnable_def)

function pool_run ::
  "'w deps \<Rightarrow> clusterProjection \<Rightarrow> obj \<Rightarrow> ('w pool \<Rightarrow> nat) \<Rightarrow> 'w pool \<Rightarrow> 'w pool" where
  "pool_run D cp src sched p =
     (case runnable p of
        [] \<Rightarrow> p
      | a # as \<Rightarrow> pool_run D cp src sched
          (perform D cp src ((a # as) ! (sched p mod length (a # as))) p))"
  by pat_completeness auto

lemma picked_can:
  assumes "runnable p = a # as"
  shows "can p ((a # as) ! (k mod length (a # as)))"
proof -
  have "(a # as) ! (k mod length (a # as)) \<in> set (runnable p)"
    unfolding assms by (rule nth_mem) simp
  then show ?thesis by (simp add: runnable_iff)
qed

termination pool_run
  by (relation "measure (\<lambda>(D, cp, src, sched, p). pool_size p)")
    (simp_all only: wf_measure in_measure prod.case perform_decreases picked_can)

declare pool_run.simps [simp del]

lemma pool_steps_trans:
  "pool_steps D cp src q r \<Longrightarrow> pool_steps D cp src p q \<Longrightarrow> pool_steps D cp src p r"
  by (induction rule: pool_steps.induct) (auto intro: pool_steps.step)

lemma pool_run_steps: "pool_steps D cp src p (pool_run D cp src sched p)"
proof (induction D cp src sched p rule: pool_run.induct)
  case (1 D cp src sched p)
  show ?case
  proof (cases "runnable p")
    case Nil
    then show ?thesis by (subst pool_run.simps) (simp add: pool_steps.here)
  next
    case (Cons a as)
    let ?q = "perform D cp src ((a # as) ! (sched p mod length (a # as))) p"
    have "pool_step D cp src p ?q" by (rule pool_step.act [OF picked_can [OF Cons]])
    then have "pool_steps D cp src p ?q" using pool_steps.here pool_steps.step by metis
    with 1 [OF Cons] show ?thesis
      by (subst pool_run.simps) (simp add: Cons pool_steps_trans)
  qed
qed

lemma pool_run_stops: "runnable (pool_run D cp src sched p) = []"
proof (induction D cp src sched p rule: pool_run.induct)
  case (1 D cp src sched p)
  then show ?case by (subst pool_run.simps) (auto split: list.splits)
qed

text \<open>
  The results of the fan-out under a scheduler: the counts of written and failed targets and
  the message of each failed one.
\<close>

definition fanOut ::
  "'w deps \<Rightarrow> ('w pool \<Rightarrow> nat) \<Rightarrow> clusterProjection \<Rightarrow> obj \<Rightarrow> string list \<Rightarrow>
   ('w, nat \<times> nat \<times> str_map) action" where
  "fanOut D sched cp src targets =
     (if targets = [] then State_Monad.return (0, 0, fmempty)
      else State (\<lambda>s.
        let p = pool_run D cp src sched
              (pool_start targets (cpr_SelectorWriteConcurrency (cpr s)) s)
        in ((written p, failed p, failureMsgs p), psys p)))"

definition summarizeFailures :: "nat \<Rightarrow> str_map \<Rightarrow> string" where
  "summarizeFailures n msgs =
     (let maxNamespacesInMessage = 5;
          names = sorted_list_of_fset (fmdom msgs);
          shown = (if length names > maxNamespacesInMessage then take maxNamespacesInMessage names
                   else names)
      in if n > length shown then
           ''write failed in '' @ show_nat n @ '' namespaces (first: '' @ show_strings shown @
             '', +'' @ show_nat (n - length shown) @ '' more)''
         else ''write failed in '' @ show_nat n @ '' namespaces: '' @ show_strings shown)"

section \<open>Invariants of the pool\<close>

lemma pool_invariant:
  assumes "pool_steps D cp src p q" and "I p"
    and "\<And>p a. I p \<Longrightarrow> can p a \<Longrightarrow> I (perform D cp src a p)"
  shows "I q"
  using assms(1,2)
  by (induction rule: pool_steps.induct) (auto elim!: pool_stepE intro: assms(3))

text \<open>What happens to the list of namespaces that a worker holds when it moves.\<close>

lemma mset_concat_update:
  assumes "i < length ws"
  shows "mset (concat (map f (ws[i := w]))) + mset (f (ws ! i)) =
    mset (concat (map f ws)) + mset (f w)"
  using assms by (induction ws arbitrary: i) (auto split: nat.splits simp: ac_simps)

fun holds :: "worker \<Rightarrow> string list" where
  "holds (Working ns) = [ns]"
| "holds (Fetched ns _) = [ns]"
| "holds (Sending res) = [r_ns res]"
| "holds _ = []"

definition note_failure :: "result \<Rightarrow> str_map \<Rightarrow> str_map" where
  "note_failure res msgs =
     (if r_reason res = '''' then msgs
      else fmupd (r_ns res) (r_reason res @ '': '' @ r_msg res) msgs)"

text \<open>
  The control of the goroutines: the capacities have room for every target; \<^verbatim>\<open>jobs\<close> is closed once
  everything is sent; the wait group counts the workers that have not exited; the closer is
  started after the close of \<^verbatim>\<open>jobs\<close>, and has closed \<^verbatim>\<open>results\<close> only when no worker is left; a worker
  exits only when no job is left.
\<close>

definition active :: "worker list \<Rightarrow> nat" where
  "active ws = length (filter (\<lambda>w. w \<noteq> Exited) ws)"

definition control_inv :: "nat \<Rightarrow> 'w pool \<Rightarrow> bool" where
  "control_inv n p \<longleftrightarrow> jobsCap p = n \<and> resultsCap p = n \<and>
     (jobsClosed p \<longleftrightarrow> main_phase p \<noteq> Dispatching) \<and> (main_phase p \<noteq> Dispatching \<longrightarrow> unsent p = []) \<and>
     (closer p = Unstarted \<longleftrightarrow> main_phase p = Dispatching \<or> main_phase p = Launching) \<and>
     (resultsClosed p \<longleftrightarrow> closer p = Ended) \<and>
     wg p = active (workers p) \<and> (closer p = Ended \<longrightarrow> wg p = 0) \<and>
     (Exited \<in> set (workers p) \<longrightarrow> jobsClosed p \<and> jobs p = []) \<and>
     (main_phase p = Collected \<longrightarrow> resultsClosed p \<and> results p = [])"

lemma active_update:
  "i < length ws \<Longrightarrow> active (ws[i := w]) + (if ws ! i = Exited then 0 else 1) =
     active ws + (if w = Exited then 0 else 1)"
proof (induction ws arbitrary: i)
  case (Cons v ws)
  show ?case
    using Cons.prems Cons.IH [of "i - 1"] by (cases i) (simp_all add: active_def split: if_splits)
qed simp

lemma active_0: "active ws = 0 \<longleftrightarrow> list_all (\<lambda>w. w = Exited) ws"
  by (simp add: active_def filter_empty_conv list_all_iff)

text \<open>Under this control nobody panics.\<close>

lemma no_panic:
  assumes "control_inv n p"
  shows "\<not> panics p"
proof -
  have "active (workers p) \<noteq> 0" if "w \<in> set (workers p)" "w \<noteq> Exited" for w
    using that by (auto simp: active_0 list_all_iff)
  with assms show ?thesis
    by (fastforce simp: panics_def control_inv_def list_ex_iff split: worker.splits)
qed

lemma control_inv_Worker:
  assumes inv: "control_inv n p" and can: "can p (Worker i)"
  shows "control_inv n (perform D cp src (Worker i) p)"
proof -
  from can have i: "i < length (workers p)" by simp
  have busy: "workers p ! i \<noteq> Exited" using can by auto
  then have "active (workers p) \<noteq> 0"
    using nth_mem [OF i] by (auto simp: active_0 list_all_iff)
  with inv have running: "\<not> resultsClosed p" "closer p \<noteq> Ended" "main_phase p \<noteq> Collected"
    by (auto simp: control_inv_def)
  have left: "w = Exited \<or> Exited \<in> set (workers p)" if "Exited \<in> set ((workers p)[i := w])" for w
    using that set_update_subset_insert [of "workers p" i w] by auto
  note act = active_update [OF i]
  have same: "active ((workers p)[i := w]) = active (workers p)" if "w \<noteq> Exited" for w
    using act [of w] busy that by simp
  have less: "active ((workers p)[i := Exited]) = active (workers p) - 1"
    using act [of Exited] busy by simp
  show ?thesis
    using inv can running left
    by (cases "workers p ! i")
      (auto simp: control_inv_def work_def same less split: list.splits prod.splits)
qed

lemma control_inv_perform:
  assumes inv: "control_inv n p" and can: "can p a"
  shows "control_inv n (perform D cp src a p)"
proof (cases a)
  case Main
  show ?thesis
  proof (cases "main_phase p")
    case Dispatching
    with Main inv show ?thesis
      by (auto simp: main_step_def control_inv_def split: list.splits)
  next
    case Collecting
    with Main inv can show ?thesis
      by (auto simp: main_step_def control_inv_def collect_def split: list.splits)
  qed (use Main inv can in \<open>auto simp: main_step_def control_inv_def\<close>)
next
  case Closer
  with inv can show ?thesis by (auto simp: control_inv_def)
qed (use control_inv_Worker [OF inv] can in simp)

text \<open>
  Every target is in exactly one place: not sent, in the channel, held by a worker, among the
  results, or counted. The counts are those of the collected results.
\<close>

definition pool_inv :: "string list \<Rightarrow> nat \<Rightarrow> 'w pool \<Rightarrow> bool" where
  "pool_inv targets n p \<longleftrightarrow> length (workers p) = n \<and>
     (\<exists>got. mset targets = mset (unsent p) + mset (jobs p) +
          mset (concat (map holds (workers p))) + mset (map r_ns (results p)) + mset (map r_ns got) \<and>
        written p = length (filter (\<lambda>r. r_reason r = '''') got) \<and>
        failed p = length (filter (\<lambda>r. r_reason r \<noteq> '''') got) \<and>
        failureMsgs p = fold note_failure got fmempty) \<and>
     control_inv (length targets) p"

lemma pool_start_inv:
  assumes "targets \<noteq> []"
  shows "pool_inv targets (length (workers (pool_start targets c s))) (pool_start targets c s)"
    and "workers (pool_start targets c s) \<noteq> []"
  using assms
  by (auto simp: pool_inv_def control_inv_def pool_start_def Let_def concat_replicate_trivial active_def)

lemma pool_inv_send:
  assumes "pool_inv targets n p" and "unsent p = ns # rest"
    and "control_inv (length targets) (p\<lparr>unsent := rest, jobs := jobs p @ [ns]\<rparr>)"
  shows "pool_inv targets n (p\<lparr>unsent := rest, jobs := jobs p @ [ns]\<rparr>)"
  using assms by (auto simp: pool_inv_def ac_simps)

lemma pool_inv_receive:
  assumes "pool_inv targets n p" and res: "results p = res # rs"
    and control: "control_inv (length targets) (collect res (p\<lparr>results := rs\<rparr>))"
  shows "pool_inv targets n (collect res (p\<lparr>results := rs\<rparr>))"
proof -
  from assms(1) obtain got where got: "mset targets = mset (unsent p) + mset (jobs p) +
      mset (concat (map holds (workers p))) + mset (map r_ns (results p)) + mset (map r_ns got)"
    "written p = length (filter (\<lambda>r. r_reason r = '''') got)"
    "failed p = length (filter (\<lambda>r. r_reason r \<noteq> '''') got)"
    "failureMsgs p = fold note_failure got fmempty"
    unfolding pool_inv_def by blast
  have "mset targets = mset (unsent p) + mset (jobs p) + mset (concat (map holds (workers p))) +
      mset (map r_ns rs) + mset (map r_ns (got @ [res]))"
    using got(1) res by simp
  with assms(1) got control show ?thesis
    unfolding pool_inv_def
    by (intro conjI exI [of _ "got @ [res]"]) (auto simp: collect_def note_failure_def)
qed

text \<open>A step of a worker moves what it holds, and nothing else.\<close>

lemma pool_inv_Worker:
  assumes inv: "pool_inv targets n p" and i: "i < length (workers p)"
    and upd: "workers q = (workers p)[i := w]" "unsent q = unsent p" "written q = written p"
      "failed q = failed p" "failureMsgs q = failureMsgs p"
    and moved: "mset (jobs q) + mset (holds w) + mset (map r_ns (results q)) =
      mset (jobs p) + mset (holds (workers p ! i)) + mset (map r_ns (results p))"
    and control: "control_inv (length targets) q"
  shows "pool_inv targets n q"
proof -
  let ?held = "\<lambda>p. mset (concat (map holds (workers p)))"
  have held: "?held q + mset (holds (workers p ! i)) = ?held p + mset (holds w)"
    unfolding upd(1) by (rule mset_concat_update [OF i])
  have "(mset (jobs q) + ?held q + mset (map r_ns (results q))) + mset (holds (workers p ! i)) =
      (mset (jobs q) + mset (holds w) + mset (map r_ns (results q))) + ?held p"
    using held by (simp only: add_ac)
  also have "\<dots> = (mset (jobs p) + ?held p + mset (map r_ns (results p))) + mset (holds (workers p ! i))"
    unfolding moved by (simp only: add_ac)
  finally have "mset (jobs q) + ?held q + mset (map r_ns (results q)) =
      mset (jobs p) + ?held p + mset (map r_ns (results p))"
    by (simp only: add_right_cancel)
  then have "mset (unsent q) + mset (jobs q) + ?held q + mset (map r_ns (results q)) =
      mset (unsent p) + mset (jobs p) + ?held p + mset (map r_ns (results p))"
    by (simp only: upd(2) add.assoc)
  with inv control show ?thesis
    unfolding pool_inv_def upd(3-5) by (simp only: upd(1) length_list_update simp_thms)
qed

lemma pool_inv_perform:
  assumes inv: "pool_inv targets n p" and can: "can p a"
  shows "pool_inv targets n (perform D cp src a p)"
proof -
  have control: "control_inv (length targets) (perform D cp src a p)"
    using inv can by (intro control_inv_perform) (simp_all add: pool_inv_def)
  show ?thesis
  proof (cases a)
    case Main
    with can have "can p Main" by simp
    then show ?thesis
    proof (cases rule: main_cases [where D = D and cp = cp and src = src])
      case send
      with Main control show ?thesis using pool_inv_send [OF inv] by simp
    next
      case receive
      with Main control show ?thesis using pool_inv_receive [OF inv] by simp
    next
      case control
      with Main inv \<open>control_inv (length targets) (perform D cp src a p)\<close> show ?thesis
        by (simp add: pool_inv_def)
    qed
  next
    case Closer
    with inv control show ?thesis by (simp add: pool_inv_def)
  next
    case (Worker i)
    with can have i: "i < length (workers p)" by simp
    show ?thesis
    proof (rule pool_inv_Worker [OF inv i])
      show "workers (perform D cp src a p) = (workers p)[i := workers (perform D cp src a p) ! i]"
        using i can by (auto simp: Worker work_def split: worker.splits list.splits prod.splits)
      show "mset (jobs (perform D cp src a p)) + mset (holds (workers (perform D cp src a p) ! i)) +
          mset (map r_ns (results (perform D cp src a p))) =
        mset (jobs p) + mset (holds (workers p ! i)) + mset (map r_ns (results p))"
        using i can by (auto simp: Worker work_def split: worker.splits list.splits prod.splits)
      show "control_inv (length targets) (perform D cp src a p)" by (rule control)
    qed (use can in \<open>auto simp: Worker work_def
        split: worker.splits list.splits prod.splits\<close>)
  qed
qed

lemma pool_inv_reached:
  assumes "targets \<noteq> []" and "pool_steps D cp src (pool_start targets c s) p"
  shows "pool_inv targets (length (workers (pool_start targets c s))) p"
  using pool_invariant [OF assms(2), where I = "pool_inv targets (length (workers (pool_start targets c s)))"]
    pool_start_inv(1) [OF assms(1)] pool_inv_perform by blast

text \<open>Nobody waits for ever: a pool in which nobody can move has finished all its jobs.\<close>

lemma no_deadlock:
  assumes "runnable p = []" and ne: "workers p \<noteq> []" "targets \<noteq> []" and inv: "pool_inv targets n p"
  shows "finished_pool p \<and> unsent p = [] \<and> jobs p = []"
proof -
  have none: "\<not> can p a" for a using assms(1) runnable_iff [of a p] by simp
  from inv obtain got :: "result list" where targets: "mset targets = mset (unsent p) + mset (jobs p) +
      mset (concat (map holds (workers p))) + mset (map r_ns (results p)) + mset (map r_ns got)"
    and control: "control_inv (length targets) p"
    unfolding pool_inv_def by blast
  have size: "length targets \<ge> length (unsent p) + length (jobs p)"
    using arg_cong [OF targets, of size] by simp
  have calm: "\<not> panics p" by (rule no_panic [OF control])
  have over: "main_phase p = Collected"
  proof (cases "main_phase p")
    case Dispatching
    with none [of Main] calm control have "unsent p \<noteq> []" "length (jobs p) \<ge> length targets"
      by (auto simp: control_inv_def)
    with size show ?thesis by (cases "unsent p") auto
  next
    case Collecting
    with none [of Main] calm have empty: "results p = []" "\<not> resultsClosed p" by auto
    have "workers p ! i = Exited" if "i < length (workers p)" for i
      using none [of "Worker i"] calm that ne(2) empty control Collecting
      by (auto simp: control_inv_def split: worker.splits)
    then have "active (workers p) = 0" by (simp add: active_0 list_all_length)
    with control Collecting empty have "wg p = 0" "closer p = Waiting"
      by (cases "closer p"; simp add: control_inv_def)+
    with none [of Closer] calm show ?thesis by simp
  qed (use none [of Main] calm in auto)
  with control have "resultsClosed p" "results p = []" "closer p = Ended" "active (workers p) = 0"
    "unsent p = []" by (auto simp: control_inv_def)
  moreover from this ne(1) have "Exited \<in> set (workers p)"
    by (cases "workers p") (auto simp: active_0)
  ultimately show ?thesis
    using control over by (auto simp: finished_pool_def active_0 control_inv_def)
qed

section \<open>What the pool does to the process state\<close>

lemma pool_keeps:
  assumes "\<And>k. keeps I (get_Object D (GroupVersionKind (library D) src) k)"
    and "\<And>ns r. keeps I (writeClusterDestination_switch D cp src ns r)"
    and "pool_steps D cp src p q" and "I (psys p)"
  shows "I (psys q)"
proof (rule pool_invariant [OF assms(3), where I = "\<lambda>p. I (psys p)"])
  show "I (psys (perform D cp src a p))" if "I (psys p)" for p a
    using that
    by (cases a) (auto simp: work_def collect_def main_step_def
        split: worker.splits phase.splits list.splits prod.splits
        dest: keepsD [OF assms(1)] keepsD [OF assms(2)])
qed (rule assms(4))

lemma fanOut_cases:
  assumes "targets = [] \<Longrightarrow> Q (0, 0, fmempty) s"
    and "\<And>p. \<lbrakk>targets \<noteq> [];
      pool_steps D cp src (pool_start targets (cpr_SelectorWriteConcurrency (cpr s)) s) p;
      finished_pool p; unsent p = []; jobs p = [];
      pool_inv targets (length (workers (pool_start targets (cpr_SelectorWriteConcurrency (cpr s)) s))) p\<rbrakk>
      \<Longrightarrow> Q (written p, failed p, failureMsgs p) (psys p)"
  shows "wp (fanOut D sched cp src targets) Q s"
proof (cases "targets = []")
  case False
  let ?p = "pool_start targets (cpr_SelectorWriteConcurrency (cpr s)) s"
  let ?q = "pool_run D cp src sched ?p"
  have steps: "pool_steps D cp src ?p ?q" by (rule pool_run_steps)
  have inv: "pool_inv targets (length (workers ?p)) ?q" by (rule pool_inv_reached [OF False steps])
  then have "workers ?q \<noteq> []"
    using pool_start_inv(2) [OF False, of "cpr_SelectorWriteConcurrency (cpr s)" s]
    by (auto simp: pool_inv_def)
  with inv False have "finished_pool ?q \<and> unsent ?q = [] \<and> jobs ?q = []"
    by (intro no_deadlock pool_run_stops)
  with steps inv False have "Q (written ?q, failed ?q, failureMsgs ?q) (psys ?q)"
    by (intro assms(2)) auto
  with False show ?thesis by (simp add: fanOut_def wp_def Let_def)
qed (simp add: fanOut_def wp_rules assms(1))

lemma pool_start_psys [simp]: "psys (pool_start targets c s) = s"
  by (simp add: pool_start_def Let_def)

lemma fanOut_keeps:
  assumes "\<And>k. keeps I (get_Object D (GroupVersionKind (library D) src) k)"
    and "\<And>ns r. keeps I (writeClusterDestination_switch D cp src ns r)"
  shows "keeps I (fanOut D sched cp src targets)"
  by (intro keepsI fanOut_cases) (auto dest: pool_keeps [OF assms])

text \<open>Writing all targets writes no status and counts no reconcile.\<close>

lemma quiet_switch [quiet_rules]: "quiet (writeClusterDestination_switch D cp src ns r)"
  unfolding switch_template by (rule quiet_write_template)

definition quiet_since :: "'w sys \<Rightarrow> 'w sys \<Rightarrow> bool" where
  "quiet_since s t \<longleftrightarrow>
     (\<exists>cs. calls t = calls s @ cs \<and> list_all (\<lambda>c. status_write c = None) cs) \<and>
     reconcileTotal t = reconcileTotal s"

lemma quiet_iff: "quiet m \<longleftrightarrow> (\<forall>s. keeps (quiet_since s) m)"
proof
  assume m: "quiet m"
  show "\<forall>s. keeps (quiet_since s) m"
  proof (intro allI keepsI)
    fix s t :: "'a sys"
    assume "quiet_since s t"
    then show "wp m (\<lambda>_. quiet_since s) t"
      by (intro wp_mono [OF quiet_calls_only [OF m, of t]]) (auto simp: quiet_since_def)
  qed
next
  assume m: "\<forall>s. keeps (quiet_since s) m"
  have "wp m (\<lambda>_. quiet_since s) s" for s
  proof -
    have "quiet_since s s" by (simp add: quiet_since_def)
    with m show ?thesis by (simp add: keeps_def)
  qed
  then show "quiet m" by (simp add: quiet_def makes_def wp_conj quiet_since_def [abs_def])
qed

lemma quiet_fanOut [quiet_rules]: "quiet (fanOut D sched cp src targets)"
proof -
  have "keeps (quiet_since s) (get_Object D g k)" for s g k
    using quiet_calls(8) [of D g k] by (simp add: quiet_iff)
  moreover have "keeps (quiet_since s) (writeClusterDestination_switch D cp src ns r)" for s ns r
    using quiet_switch [of D cp src ns r] by (simp add: quiet_iff)
  ultimately show ?thesis unfolding quiet_iff by (blast intro: fanOut_keeps)
qed

section \<open>Safety of interleaved writes\<close>

text \<open>
  However the workers interleave, what a worker fetched is among the calls when it acts on it.
\<close>

definition pool_safe ::
  "'w deps \<Rightarrow> clusterProjection \<Rightarrow> obj \<Rightarrow> (call list \<Rightarrow> obj \<Rightarrow> bool) \<Rightarrow> 'w pool \<Rightarrow> bool" where
  "pool_safe D cp src own p \<longleftrightarrow>
     safe_for (library D) own (\<lambda>y. isOwnedByCluster (library D) y cp) (psys p) \<and>
     (\<forall>ns r. Fetched ns r \<in> set (workers p) \<longrightarrow>
        GetObject (GroupVersionKind (library D) src) (clusterDestinationKey (library D) src cp ns) r
          \<in> set (calls (psys p)))"

lemma clusterDestinationKey_eq:
  "clusterDestinationKey L src cp ns = key_of L (buildClusterDestination L src cp ns)"
  by (simp add: clusterDestinationKey_def key_of_def Let_def)

lemma switch_safe:
  assumes ok: "lib_ok (library D)" "metadata_of src = Some m"
    and s: "safe_for (library D) own (\<lambda>y. isOwnedByCluster (library D) y cp) s"
    and got: "GetObject (GroupVersionKind (library D) src)
      (clusterDestinationKey (library D) src cp ns) r \<in> set (calls s)"
  shows "wp (writeClusterDestination_switch D cp src ns r) (\<lambda>_ t.
    safe_for (library D) own (\<lambda>y. isOwnedByCluster (library D) y cp) t \<and>
    (\<exists>cs. calls t = calls s @ cs)) s"
proof -
  let ?L = "library D"
  have own: "own (calls s) y" if "isOwnedByCluster ?L y cp" for y
    using s that unfolding safe_for_def by (metis append_Nil2)
  have "wp (writeClusterDestination_switch D cp src ns r) (\<lambda>_. safe_calls ?L own) s"
    unfolding switch_template
    by (rule cp_writer.finish_safe [OF ok])
      (use s got own in \<open>auto simp: safe_for_def clusterDestinationKey_eq\<close>)
  moreover have "wp (writeClusterDestination_switch D cp src ns r)
      (\<lambda>_ t. \<exists>cs. calls t = calls s @ cs) s"
    by (rule wp_mono [OF quiet_calls_only [OF quiet_switch]]) auto
  ultimately have "wp (writeClusterDestination_switch D cp src ns r)
      (\<lambda>_ t. safe_calls ?L own t \<and> (\<exists>cs. calls t = calls s @ cs)) s"
    by (simp add: wp_conj)
  then show ?thesis by (rule wp_mono) (use s in \<open>auto simp: safe_for_def\<close>)
qed

lemma pool_safe_perform:
  assumes ok: "lib_ok (library D)" "metadata_of src = Some m"
    and safe: "pool_safe D cp src own p" and can: "can p a"
  shows "pool_safe D cp src own (perform D cp src a p)"
proof (cases a)
  case (Worker i)
  with can have i: "i < length (workers p)" by simp
  have other: "Fetched ns r \<in> set ((workers p)[i := w]) \<Longrightarrow> Fetched ns r \<noteq> w \<Longrightarrow>
      Fetched ns r \<in> set (workers p)" for ns r w
    using set_update_subset_insert [of "workers p" i w] by auto
  show ?thesis
  proof (cases "workers p ! i")
    case (Working ns)
    with Worker safe show ?thesis
      by (auto simp: work_def pool_safe_def safe_for_def get_Object_def api_call_def
          split: prod.splits dest!: other)
  next
    case (Fetched ns r)
    with i have "Fetched ns r \<in> set (workers p)" by (metis nth_mem)
    with safe have "wp (writeClusterDestination_switch D cp src ns r) (\<lambda>_ t.
      safe_for (library D) own (\<lambda>y. isOwnedByCluster (library D) y cp) t \<and>
      (\<exists>cs. calls t = calls (psys p) @ cs)) (psys p)"
      by (intro switch_safe [OF ok]) (auto simp: pool_safe_def)
    with Worker Fetched safe show ?thesis
      by (auto simp: work_def pool_safe_def wp_def split: prod.splits dest!: other)
  qed (use Worker safe can in \<open>auto simp: work_def pool_safe_def split: list.splits dest!: other\<close>)
qed (use safe in \<open>auto simp: pool_safe_def collect_def main_step_def split: phase.splits list.splits\<close>)

lemma keeps_fanOut:
  assumes ok: "lib_ok (library D)" "metadata_of src = Some m"
  shows "keeps (safe_for (library D) own (\<lambda>y. isOwnedByCluster (library D) y cp))
    (fanOut D sched cp src targets)"
proof (intro keepsI fanOut_cases)
  fix s :: "'a sys" and p
  let ?p = "pool_start targets (cpr_SelectorWriteConcurrency (cpr s)) s"
  assume s: "safe_for (library D) own (\<lambda>y. isOwnedByCluster (library D) y cp) s"
    and steps: "pool_steps D cp src ?p p"
  have "pool_safe D cp src own ?p" using s by (auto simp: pool_safe_def pool_start_def Let_def)
  with steps have "pool_safe D cp src own p"
    using pool_invariant [where I = "pool_safe D cp src own"] pool_safe_perform [OF ok] by blast
  then show "safe_for (library D) own (\<lambda>y. isOwnedByCluster (library D) y cp) (psys p)"
    by (simp add: pool_safe_def)
qed

section \<open>The counts\<close>

lemma filter_lengths: "length (filter P xs) + length (filter (\<lambda>x. \<not> P x) xs) = length xs"
  by (induction xs) auto

lemma note_failures_dom:
  "fset (fmdom (fold note_failure got msgs)) =
     fset (fmdom msgs) \<union> r_ns ` {r \<in> set got. r_reason r \<noteq> ''''}"
  by (induction got arbitrary: msgs) (auto simp: note_failure_def)

lemma collected_counts:
  assumes targets: "mset targets = mset (map r_ns got)"
  shows "length (filter (\<lambda>r. r_reason r = '''') got) + length (filter (\<lambda>r. r_reason r \<noteq> '''') got) =
      length targets"
    and "fset (fmdom (fold note_failure got fmempty)) \<subseteq> set targets"
    and "length (filter (\<lambda>r. r_reason r \<noteq> '''') got) = 0 \<longleftrightarrow> fold note_failure got fmempty = fmempty"
    and "distinct targets \<Longrightarrow> fcard (fmdom (fold note_failure got fmempty)) =
      length (filter (\<lambda>r. r_reason r \<noteq> '''') got)"
proof -
  let ?bad = "filter (\<lambda>r. r_reason r \<noteq> '''') got" and ?msgs = "fold note_failure got fmempty"
  have dom: "fset (fmdom ?msgs) = r_ns ` set ?bad" by (simp add: note_failures_dom)
  show "length (filter (\<lambda>r. r_reason r = '''') got) + length ?bad = length targets"
    using filter_lengths targets by (metis length_map size_mset)
  have "set targets = r_ns ` set got" using targets by (metis list.set_map set_mset_mset)
  with dom show "fset (fmdom ?msgs) \<subseteq> set targets" by auto
  have "length ?bad = 0 \<longleftrightarrow> fset (fmdom ?msgs) = {}"
    unfolding dom by (auto simp: filter_empty_conv)
  also have "\<dots> \<longleftrightarrow> ?msgs = fmempty"
    by (metis bot_fset.rep_eq fmdom_empty fmrestrict_fset_dom fmrestrict_fset_null fset_inject)
  finally show "length ?bad = 0 \<longleftrightarrow> ?msgs = fmempty" .
  show "fcard (fmdom ?msgs) = length ?bad" if "distinct targets"
  proof -
    have "distinct (map r_ns got)" using that targets by (metis mset_eq_imp_distinct_iff)
    then have "distinct (map r_ns ?bad)" by (rule distinct_map_filter)
    then have "card (set (map r_ns ?bad)) = length ?bad" by (metis distinct_card length_map)
    then show ?thesis using dom by (simp add: fcard.rep_eq)
  qed
qed

lemma finished_pool_got:
  assumes "finished_pool p" "unsent p = []" "jobs p = []" "pool_inv targets n p"
  obtains got where "mset targets = mset (map r_ns got)"
    "written p = length (filter (\<lambda>r. r_reason r = '''') got)"
    "failed p = length (filter (\<lambda>r. r_reason r \<noteq> '''') got)"
    "failureMsgs p = fold note_failure got fmempty"
proof -
  from assms(1) have "\<forall>w \<in> set (workers p). holds w = []"
    by (auto simp: finished_pool_def list_all_iff)
  then have "concat (map holds (workers p)) = []" by simp
  with assms that show thesis unfolding pool_inv_def finished_pool_def by auto
qed

lemma fanOut_counts:
  "wp (fanOut D sched cp src targets) (\<lambda>(w, f, msgs) t.
     w + f = length targets \<and> fset (fmdom msgs) \<subseteq> set targets \<and>
     (f = 0 \<longleftrightarrow> msgs = fmempty) \<and>
     (distinct targets \<longrightarrow> fcard (fmdom msgs) = f)) s"
proof (rule fanOut_cases)
  fix p
  assume "finished_pool p" "unsent p = []" "jobs p = []"
    and "pool_inv targets (length (workers (pool_start targets (cpr_SelectorWriteConcurrency (cpr s)) s))) p"
  then obtain got where "mset targets = mset (map r_ns got)"
    "written p = length (filter (\<lambda>r. r_reason r = '''') got)"
    "failed p = length (filter (\<lambda>r. r_reason r \<noteq> '''') got)"
    "failureMsgs p = fold note_failure got fmempty"
    by (rule finished_pool_got)
  then show "(case (written p, failed p, failureMsgs p) of (w, f, msgs) \<Rightarrow> \<lambda>t.
     w + f = length targets \<and> fset (fmdom msgs) \<subseteq> set targets \<and>
     (f = 0 \<longleftrightarrow> msgs = fmempty) \<and> (distinct targets \<longrightarrow> fcard (fmdom msgs) = f)) (psys p)"
    using collected_counts [of targets got] by (simp only: prod.case) blast
qed simp

section \<open>Every target is attempted once\<close>

fun fetches :: "call list \<Rightarrow> (gvk \<times> objectKey) list" where
  "fetches [] = []"
| "fetches (GetObject g k r # cs) = (g, k) # fetches cs"
| "fetches (_ # cs) = fetches cs"

lemma fetches_append [simp]: "fetches (cs @ ds) = fetches cs @ fetches ds"
  by (induction cs rule: fetches.induct) auto

lemma fetches_none: "list_all (\<lambda>c. fetches [c] = []) cs \<Longrightarrow> fetches cs = []"
proof (induction cs)
  case (Cons c cs)
  then show ?case using fetches_append [of "[c]" cs] by simp
qed simp

fun pending :: "worker \<Rightarrow> string list" where
  "pending (Working ns) = [ns]"
| "pending _ = []"

definition attempt_inv ::
  "(string \<Rightarrow> gvk \<times> objectKey) \<Rightarrow> string list \<Rightarrow> call list \<Rightarrow> 'w pool \<Rightarrow> bool" where
  "attempt_inv key targets before p \<longleftrightarrow> (\<exists>cs. calls (psys p) = before @ cs \<and>
     mset (map key targets) = mset (map key (unsent p)) + mset (map key (jobs p)) +
       image_mset key (mset (concat (map pending (workers p)))) + mset (fetches cs))"

lemma switch_no_fetch:
  "makes (\<lambda>c. fetches [c] = []) (writeClusterDestination_switch D cp src ns r)"
  unfolding switch_template write_finish_def write_failed_def Let_def create_Object_def
    update_Object_def
  by (intro makes_rules makes_emit makes_api_call; simp)

lemma attempt_inv_Worker:
  assumes inv: "attempt_inv key targets before p" and i: "i < length (workers p)"
    and upd: "workers q = (workers p)[i := w]" "unsent q = unsent p"
      "calls (psys q) = calls (psys p) @ ds"
    and moved: "image_mset key (mset (jobs q)) + image_mset key (mset (pending w)) + mset (fetches ds) =
      image_mset key (mset (jobs p)) + image_mset key (mset (pending (workers p ! i)))"
  shows "attempt_inv key targets before q"
proof -
  let ?held = "\<lambda>p. image_mset key (mset (concat (map pending (workers p))))"
    and ?was = "image_mset key (mset (pending (workers p ! i)))"
    and ?is = "image_mset key (mset (pending w))"
    and ?jobs = "\<lambda>p. image_mset key (mset (jobs p))"
  have held: "?held q + ?was = ?held p + ?is"
    unfolding upd(1) using mset_concat_update [OF i, of pending w] by (metis image_mset_union)
  have "(?jobs q + ?held q + mset (fetches ds)) + ?was = (?jobs q + ?is + mset (fetches ds)) + ?held p"
    using held by (simp only: add_ac)
  also have "\<dots> = (?jobs p + ?held p) + ?was" unfolding moved by (simp only: add_ac)
  finally have eq: "?jobs q + ?held q + mset (fetches ds) = ?jobs p + ?held p"
    by (simp only: add_right_cancel)
  from inv obtain cs where cs: "calls (psys p) = before @ cs"
    "mset (map key targets) = mset (map key (unsent p)) + ?jobs p + ?held p + mset (fetches cs)"
    unfolding attempt_inv_def mset_map by blast
  have "mset (map key targets) = mset (map key (unsent q)) + ?jobs q + ?held q + mset (fetches (cs @ ds))"
  proof -
    have "mset (map key targets) = mset (map key (unsent p)) + mset (fetches cs) + (?jobs p + ?held p)"
      unfolding cs(2) by (simp only: add_ac)
    then show ?thesis
      unfolding eq [symmetric] upd(2) fetches_append mset_append by (simp only: add_ac)
  qed
  then show ?thesis
    unfolding attempt_inv_def using cs(1) upd(3) by (intro exI [of _ "cs @ ds"]) simp
qed

lemma attempt_inv_send:
  assumes "attempt_inv key targets before p" and "unsent p = ns # rest"
  shows "attempt_inv key targets before (p\<lparr>unsent := rest, jobs := jobs p @ [ns]\<rparr>)"
  using assms unfolding attempt_inv_def by simp

lemma attempt_inv_receive:
  "attempt_inv key targets before (collect r (p\<lparr>results := rs\<rparr>)) \<longleftrightarrow> attempt_inv key targets before p"
  unfolding attempt_inv_def collect_def by simp

lemma attempt_inv_perform:
  fixes D :: "'w deps" and src cp
  defines "key \<equiv> \<lambda>ns. (GroupVersionKind (library D) src, clusterDestinationKey (library D) src cp ns)"
  assumes inv: "attempt_inv key targets before p" and can: "can p a"
  shows "attempt_inv key targets before (perform D cp src a p)"
proof (cases a)
  case Main
  with can have "can p Main" by simp
  then show ?thesis
  proof (cases rule: main_cases [where D = D and cp = cp and src = src])
    case send
    with Main show ?thesis using attempt_inv_send [OF inv] by simp
  next
    case receive
    with Main inv show ?thesis by (simp add: attempt_inv_receive)
  next
    case control
    with Main inv show ?thesis by (simp add: attempt_inv_def)
  qed
next
  case Closer
  with inv show ?thesis by (simp add: attempt_inv_def)
next
  case (Worker i)
  with can have i: "i < length (workers p)" by simp
  note move = attempt_inv_Worker [OF inv i]
  show ?thesis
  proof (cases "workers p ! i")
    case Ready
    show ?thesis
    proof (cases "jobs p")
      case Nil
      show ?thesis
        by (rule move [where w = Exited and ds = "[]"]) (simp_all add: Worker work_def Ready Nil)
    next
      case (Cons ns js)
      show ?thesis
        by (rule move [where w = "Working ns" and ds = "[]"]) (simp_all add: Worker work_def Ready Cons)
    qed
  next
    case (Working ns)
    obtain r w where got: "client_Get D (GroupVersionKind (library D) src)
        (clusterDestinationKey (library D) src cp ns) (world (psys p)) = (r, w)" by fastforce
    show ?thesis
      by (rule move [where w = "Fetched ns r" and ds = "[GetObject (GroupVersionKind (library D) src)
            (clusterDestinationKey (library D) src cp ns) r]"])
        (simp_all add: Worker work_def Working get_Object_def api_call_def got key_def)
  next
    case (Fetched ns r)
    obtain reason msg s where run:
      "run_state (writeClusterDestination_switch D cp src ns r) (psys p) = ((reason, msg), s)"
      by (metis surj_pair)
    have "wp (writeClusterDestination_switch D cp src ns r)
        (\<lambda>_ t. \<exists>ds. calls t = calls (psys p) @ ds \<and> list_all (\<lambda>c. fetches [c] = []) ds) (psys p)"
      using switch_no_fetch [of D cp src ns r] by (simp add: makes_def)
    then obtain ds where "calls s = calls (psys p) @ ds" "fetches ds = []"
      using run by (auto simp: wp_def dest!: fetches_none)
    then show ?thesis
      by (intro move [where w = "Sending \<lparr>r_ns = ns, r_reason = reason, r_msg = msg\<rparr>" and ds = ds])
        (simp_all add: Worker work_def Fetched run)
  next
    case (Sending res)
    show ?thesis
      by (rule move [where w = Ready and ds = "[]"]) (simp_all add: Worker work_def Sending)
  qed (use Worker can in auto)
qed

lemma fanOut_attempts:
  fixes D :: "'w deps"
  shows "wp (fanOut D sched cp src targets) (\<lambda>_ t. \<exists>cs. calls t = calls s @ cs \<and>
     mset (fetches cs) = mset (map (\<lambda>ns. (GroupVersionKind (library D) src,
       clusterDestinationKey (library D) src cp ns)) targets)) s"
proof (rule fanOut_cases)
  let ?key = "\<lambda>ns. (GroupVersionKind (library D) src, clusterDestinationKey (library D) src cp ns)"
  let ?p = "pool_start targets (cpr_SelectorWriteConcurrency (cpr s)) s"
  fix p
  assume steps: "pool_steps D cp src ?p p" and fin: "finished_pool p" "unsent p = []" "jobs p = []"
  have "attempt_inv ?key targets (calls s) ?p"
    by (auto simp: attempt_inv_def pool_start_def Let_def concat_replicate_trivial)
  then have "attempt_inv ?key targets (calls s) p"
    using pool_invariant [OF steps, where I = "attempt_inv ?key targets (calls s)"]
      attempt_inv_perform by blast
  moreover have "concat (map pending (workers p)) = []"
    using fin(1) by (auto simp: finished_pool_def list_all_iff)
  ultimately show "\<exists>cs. calls (psys p) = calls s @ cs \<and> mset (fetches cs) = mset (map ?key targets)"
    using fin(2,3) by (auto simp: attempt_inv_def)
qed simp

section \<open>Bounded concurrency\<close>

definition writing :: "worker \<Rightarrow> bool" where
  "writing w \<longleftrightarrow> (case w of Working _ \<Rightarrow> True | Fetched _ _ \<Rightarrow> True | _ \<Rightarrow> False)"

lemma pool_workers_length:
  "pool_steps D cp src p q \<Longrightarrow> length (workers q) = length (workers p)"
  by (erule pool_invariant [where I = "\<lambda>q. length (workers q) = length (workers p)"])
    (auto simp: work_def main_step_def collect_def elim!: can.elims
      split: worker.splits phase.splits list.splits prod.splits)

end
