(* ===== verification/Fan_Out_Props.thy ===== *)
theory Fan_Out_Props
  imports Fan_Out
begin

text \<open>
  What the fan-out promises to the reconcile function, whatever the interleaving of its
  goroutines: it ends, it attempts every target once, it never has more writes in flight than
  configured, its counts and messages account for every target, and a target that is not
  reported as failed has its destination in place.
\<close>

section \<open>Termination\<close>

text \<open>
  C13: the fan-out ends, under every interleaving of its goroutines. No infinite sequence of steps
  exists; in no state it can reach does a goroutine send on a closed channel, close one twice or
  drive the wait group below zero; in every state it can reach some goroutine can move,
  although channels are bounded and receivers wait for a close, unless everything is over; and
  the function returns only when every worker and the closer have ended, both channels are
  empty and every target is counted.
\<close>

theorem fanOut_pool_terminates:
  assumes "targets \<noteq> []" and "pool_steps D cp src (pool_start targets c s) p"
  shows "wfp (\<lambda>q p. pool_step D cp src p q) \<and> \<not> panics p \<and>
    ((\<exists>q. pool_step D cp src p q) \<or> main_phase p = Collected) \<and>
    (main_phase p = Collected \<longrightarrow>
       finished_pool p \<and> unsent p = [] \<and> jobs p = [] \<and> written p + failed p = length targets)"
proof (intro conjI impI)
  show "wfp (\<lambda>q p. pool_step D cp src p q)"
    by (rule wfp_if_convertible_to_nat [where f = pool_size])
      (auto elim!: pool_stepE intro: perform_decreases)
  let ?n = "length (workers (pool_start targets c s))"
  have inv: "pool_inv targets ?n p" by (rule pool_inv_reached [OF assms])
  then have control: "control_inv (length targets) p" by (simp add: pool_inv_def)
  have ne: "workers p \<noteq> []"
    using inv pool_start_inv(2) [OF assms(1), of c s] by (auto simp: pool_inv_def)
  show "\<not> panics p" by (rule no_panic [OF control])
  show "(\<exists>q. pool_step D cp src p q) \<or> main_phase p = Collected"
  proof (cases "runnable p")
    case Nil
    with no_deadlock [OF Nil ne assms(1) inv] show ?thesis by (simp add: finished_pool_def)
  next
    case (Cons a as)
    then have "can p a" using runnable_iff [of a p] by simp
    then show ?thesis by (blast intro: pool_step.act)
  qed
  assume "main_phase p = Collected"
  with control ne show fin: "finished_pool p" "unsent p = []" "jobs p = []"
    by (cases "workers p"; auto simp: control_inv_def finished_pool_def active_0)+
  obtain got where got: "mset targets = mset (map r_ns got)"
    "written p = length (filter (\<lambda>r. r_reason r = '''') got)"
    "failed p = length (filter (\<lambda>r. r_reason r \<noteq> '''') got)"
    "failureMsgs p = fold note_failure got fmempty"
    by (rule finished_pool_got [OF fin inv])
  then show "written p + failed p = length targets" using collected_counts(1) [OF got(1)] by simp
qed

definition sample_pool :: "unit pool" where
  "sample_pool = pool_start [''a'', ''b''] 16 sample_sys"

theorem fanOut_pool_terminates_witness:
  "wfp (\<lambda>q p. pool_step sample_deps sample_clusterProjection sample_source p q) \<and>
    \<not> panics sample_pool \<and> (\<exists>q. pool_step sample_deps sample_clusterProjection sample_source sample_pool q)"
proof -
  have "main_phase sample_pool \<noteq> Collected" by (simp add: sample_pool_def pool_start_def Let_def)
  moreover have "pool_steps sample_deps sample_clusterProjection sample_source
      (pool_start [''a'', ''b''] 16 sample_sys) sample_pool"
    by (simp add: sample_pool_def pool_steps.here)
  ultimately show ?thesis
    using fanOut_pool_terminates [of "[''a'', ''b'']" sample_deps sample_clusterProjection sample_source
        16 sample_sys sample_pool] by simp
qed

section \<open>Bounded concurrency\<close>

text \<open>
  C23: at no moment are more destination writes in flight than \<^verbatim>\<open>SelectorWriteConcurrency\<close> allows (16 if
  it is zero or negative), nor more than there are targets.
\<close>

theorem fanOut_bounded_writes:
  assumes "pool_steps D cp src (pool_start targets c s) p"
  shows "length (filter writing (workers p)) \<le> (if c \<le> 0 then 16 else nat c) \<and>
    length (filter writing (workers p)) \<le> length targets"
proof -
  have "length (filter writing (workers p)) \<le> length (workers p)" by simp
  also have "\<dots> = length (workers (pool_start targets c s))"
    using assms by (rule pool_workers_length)
  finally show ?thesis by (auto simp: pool_start_def Let_def split: if_splits)
qed

theorem fanOut_bounded_writes_witness:
  "length (filter writing (workers sample_pool)) \<le> (if (16::int) \<le> 0 then 16 else nat 16) \<and>
    length (filter writing (workers sample_pool)) \<le> length [''a'', ''b'']"
  by (rule fanOut_bounded_writes [where D = sample_deps and cp = sample_clusterProjection
        and src = sample_source and s = sample_sys])
    (simp add: sample_pool_def pool_steps.here)

section \<open>Accounting\<close>

text \<open>
  C22: every target gets its own attempt: the destinations fetched during a fan-out are exactly those
  of the targets, each as often as it is listed, whatever fails for the others.
\<close>

theorem fanOut_attempts_every_target:
  "wp (fanOut D sched cp src targets) (\<lambda>_ t. \<exists>cs. calls t = calls s @ cs \<and>
     mset (fetches cs) = mset (map (\<lambda>ns. (GroupVersionKind (library D) src,
       clusterDestinationKey (library D) src cp ns)) targets)) s"
  by (rule fanOut_attempts)

text \<open>
  The counts of a fan-out add up to the number of targets, a message is kept for a namespace
  only if it is a target, and on a duplicate-free list of targets there is one message per
  failure: the number of failures is zero exactly when there is no message.
\<close>

lemma fanOut_counts_add_up:
  assumes "distinct targets"
  shows "wp (fanOut D sched cp src targets) (\<lambda>(w, f, msgs) t.
     w + f = length targets \<and> fset (fmdom msgs) \<subseteq> set targets \<and>
     (f = 0 \<longleftrightarrow> msgs = fmempty) \<and> fcard (fmdom msgs) = f) s"
  by (rule wp_mono [OF fanOut_counts]) (use assms in auto)

lemma fanOut_counts_add_up_example:
  "wp (fanOut sample_deps (\<lambda>_. 0) sample_clusterProjection sample_source [''a'', ''b''])
     (\<lambda>(w, f, msgs) t. w + f = length [''a'', ''b''] \<and> fset (fmdom msgs) \<subseteq> set [''a'', ''b''] \<and>
     (f = 0 \<longleftrightarrow> msgs = fmempty) \<and> fcard (fmdom msgs) = f) sample_sys"
  by (rule fanOut_counts_add_up) simp

section \<open>The failure message\<close>

lemma length_show_nat: "n < 10 ^ k \<Longrightarrow> 0 < k \<Longrightarrow> length (show_nat n) \<le> k"
proof (induction n arbitrary: k rule: show_nat.induct)
  case (1 n)
  show ?case
  proof (cases "n < 10")
    case True
    with 1 show ?thesis by (subst show_nat.simps) simp
  next
    case False
    from 1(2) have k: "k \<noteq> Suc 0" using False by auto
    with 1(3) obtain j where j: "k = Suc j" "0 < j" by (cases k) auto
    with 1(2) have "n div 10 < 10 ^ j" by auto
    with 1(1) [OF False _ j(2)] have "length (show_nat (n div 10)) \<le> j" by blast
    with False j show ?thesis by (subst show_nat.simps) simp
  qed
qed

lemma length_join:
  "list_all (\<lambda>x. length x \<le> m) xs \<Longrightarrow> length (join sep xs) \<le> length xs * (m + length sep)"
proof (induction sep xs rule: join.induct)
  case (3 sep x y ys)
  then show ?case by simp
qed auto

text \<open>
  C40: the failure message names the first five failed namespaces in order and says how many more there
  are, and with five failures or fewer it names them all. So however many namespaces failed, it
  is at most \<open>47 + 2 d + 5 (m + 1)\<close> characters long if their names have at most \<open>m\<close> characters and
  there are fewer than \<open>10 ^ d\<close> of them. (For names that the API server admits, \<open>m\<close> is 63;
  the listed names of a ClusterProjection are not validated, so \<open>m\<close> is the longest of them.)
\<close>

theorem summarizeFailures_bounded:
  assumes "fcard (fmdom msgs) = n" and "\<And>ns. ns |\<in>| fmdom msgs \<Longrightarrow> length ns \<le> m"
    and "n < 10 ^ d" and "0 < d"
  shows "summarizeFailures n msgs =
      (if n > 5 then ''write failed in '' @ show_nat n @ '' namespaces (first: '' @
         show_strings (take 5 (sorted_list_of_fset (fmdom msgs))) @ '', +'' @ show_nat (n - 5) @ '' more)''
       else ''write failed in '' @ show_nat n @ '' namespaces: '' @
         show_strings (sorted_list_of_fset (fmdom msgs))) \<and>
    length (summarizeFailures n msgs) \<le> 47 + 2 * d + 5 * (m + 1)"
proof
  define names where "names = sorted_list_of_fset (fmdom msgs)"
  have set: "set names = fset (fmdom msgs)" by (simp add: names_def)
  have "length names = card (set names)"
    by (simp add: names_def sorted_list_of_fset.rep_eq)
  with assms(1) have n: "length names = n" unfolding set by (simp add: fcard.rep_eq)
  have eq: "summarizeFailures n msgs =
      (if n > 5 then ''write failed in '' @ show_nat n @ '' namespaces (first: '' @
         show_strings (take 5 names) @ '', +'' @ show_nat (n - 5) @ '' more)''
       else ''write failed in '' @ show_nat n @ '' namespaces: '' @ show_strings names)"
    by (simp add: summarizeFailures_def Let_def names_def [symmetric] n)
  then show "summarizeFailures n msgs =
      (if n > 5 then ''write failed in '' @ show_nat n @ '' namespaces (first: '' @
         show_strings (take 5 (sorted_list_of_fset (fmdom msgs))) @ '', +'' @ show_nat (n - 5) @ '' more)''
       else ''write failed in '' @ show_nat n @ '' namespaces: '' @
         show_strings (sorted_list_of_fset (fmdom msgs)))"
    by (simp add: names_def)
  have shown: "length (show_strings xs) \<le> 2 + 5 * (m + 1)"
    if "set xs \<subseteq> set names" "length xs \<le> 5" for xs
  proof -
    have "list_all (\<lambda>x. length x \<le> m) xs"
      using that(1) assms(2) set by (auto simp: list_all_iff)
    then have "length (join '' '' xs) \<le> length xs * (m + length '' '')" by (rule length_join)
    also have "\<dots> \<le> 5 * (m + length '' '')" using that(2) by (rule mult_le_mono1)
    finally show ?thesis by (simp add: show_strings_def)
  qed
  have digits: "length (show_nat n) \<le> d" "length (show_nat (n - 5)) \<le> d"
    using assms(3,4) by (auto intro!: length_show_nat)
  have five: "length (show_strings (take 5 names)) \<le> 2 + 5 * (m + 1)"
    by (rule shown) (auto dest: in_set_takeD)
  show "length (summarizeFailures n msgs) \<le> 47 + 2 * d + 5 * (m + 1)"
  proof (cases "n > 5")
    case True
    with five digits show ?thesis unfolding eq by simp
  next
    case False
    then have "length (show_strings names) \<le> 2 + 5 * (m + 1)" using n by (intro shown) simp_all
    with False digits show ?thesis unfolding eq by simp
  qed
qed

theorem summarizeFailures_bounded_witness:
  "summarizeFailures 1 (fmap_of_list [(''a'', ''DestinationConflict: taken'')]) =
     ''write failed in 1 namespaces: [a]'' \<and>
   length (summarizeFailures 1 (fmap_of_list [(''a'', ''DestinationConflict: taken'')])) \<le>
     47 + 2 * 1 + 5 * (1 + 1)"
proof -
  let ?msgs = "fmap_of_list [(''a'', ''DestinationConflict: taken'')]"
  have dom: "fmdom ?msgs = {|''a''|}" by simp
  have one: "sorted_list_of_fset {|''a''|} = [''a'']" by (simp add: sorted_list_of_fset.rep_eq)
  have "show_nat 1 = ''1''" by code_simp
  moreover have "show_strings [''a''] = ''[a]''" by (simp add: show_strings_def)
  ultimately show ?thesis
    using summarizeFailures_bounded [of ?msgs 1 1 1] unfolding dom one by (simp add: fcard.rep_eq)
qed

section \<open>Written means in place\<close>

definition cluster_placed :: "lib \<Rightarrow> clusterProjection \<Rightarrow> obj \<Rightarrow> string \<Rightarrow> call list \<Rightarrow> bool" where
  "cluster_placed L cp src ns cs \<longleftrightarrow> placed L (\<lambda>x. isOwnedByCluster L x cp) (GroupVersionKind L src)
     (buildClusterDestination L src cp ns) cs"

lemma cluster_placed_mono:
  "cluster_placed L cp src ns cs \<Longrightarrow> set cs \<subseteq> set ds \<Longrightarrow> cluster_placed L cp src ns ds"
  unfolding cluster_placed_def by (rule placed_mono)

text \<open>Where a target that is not yet accounted for can be.\<close>

definition somewhere :: "'w pool \<Rightarrow> string set" where
  "somewhere p = set (unsent p) \<union> set (jobs p) \<union> set (concat (map holds (workers p))) \<union>
     r_ns ` set (results p) \<union> fset (fmdom (failureMsgs p))"

definition cover_inv :: "'w deps \<Rightarrow> clusterProjection \<Rightarrow> obj \<Rightarrow> string list \<Rightarrow> 'w pool \<Rightarrow> bool" where
  "cover_inv D cp src targets p \<longleftrightarrow>
     (\<forall>ns r. Fetched ns r \<in> set (workers p) \<longrightarrow>
        GetObject (GroupVersionKind (library D) src) (clusterDestinationKey (library D) src cp ns) r
          \<in> set (calls (psys p))) \<and>
     (\<forall>res. Sending res \<in> set (workers p) \<or> res \<in> set (results p) \<longrightarrow> r_reason res = '''' \<longrightarrow>
        cluster_placed (library D) cp src (r_ns res) (calls (psys p))) \<and>
     (\<forall>ns \<in> set targets. ns \<in> somewhere p \<or>
        cluster_placed (library D) cp src ns (calls (psys p)))"

lemma switch_placed:
  assumes "GetObject (GroupVersionKind (library D) src) (clusterDestinationKey (library D) src cp ns) r
      \<in> set (calls s)"
  shows "wp (writeClusterDestination_switch D cp src ns r) (\<lambda>(reason, msg) t.
    set (calls s) \<subseteq> set (calls t) \<and>
    (reason = '''' \<longrightarrow> cluster_placed (library D) cp src ns (calls t))) s"
  unfolding switch_template
  by (rule wp_mono [OF write_finish_result])
    (use assms in \<open>auto simp: cluster_placed_def clusterDestinationKey_eq
      dest!: write_result_placed [where g = "GroupVersionKind (library D) src"] elim!: placed_mono\<close>)

text \<open>A worker's step, seen from the invariant.\<close>

lemma cover_inv_Worker:
  assumes inv: "cover_inv D cp src targets p" and i: "i < length (workers p)"
    and upd: "workers q = (workers p)[i := w]" "unsent q = unsent p" "failureMsgs q = failureMsgs p"
    and calls: "set (calls (psys p)) \<subseteq> set (calls (psys q))"
    and fetched: "\<And>ns r. w = Fetched ns r \<Longrightarrow>
      GetObject (GroupVersionKind (library D) src) (clusterDestinationKey (library D) src cp ns) r
        \<in> set (calls (psys q))"
    and sending: "\<And>res. w = Sending res \<or> res \<in> set (results q) - set (results p) \<Longrightarrow>
      r_reason res = '''' \<Longrightarrow> cluster_placed (library D) cp src (r_ns res) (calls (psys q))"
    and moved: "set (jobs p) \<union> set (holds (workers p ! i)) \<union> r_ns ` set (results p) \<subseteq>
      set (jobs q) \<union> set (holds w) \<union> r_ns ` set (results q)"
  shows "cover_inv D cp src targets q"
proof -
  have set_q: "x \<in> set (workers q) \<Longrightarrow> x = w \<or> x \<in> set (workers p)" for x
    unfolding upd(1) using set_update_subset_insert [of "workers p" i w] by auto
  have w: "w \<in> set (workers q)" unfolding upd(1) by (rule set_update_memI [OF i])
  have stay: "x \<in> set (workers q) \<or> x = workers p ! i" if "x \<in> set (workers p)" for x
    using that i unfolding upd(1) by (metis in_set_conv_nth length_list_update nth_list_update_neq)
  have held: "x \<in> set (concat (map holds (workers q))) \<or> x \<in> set (holds (workers p ! i))"
    if "x \<in> set (concat (map holds (workers p)))" for x
    using that stay by fastforce
  have "set (holds w) \<subseteq> set (concat (map holds (workers q)))" using w by auto
  then have some: "somewhere p \<subseteq> somewhere q"
    using moved held unfolding somewhere_def upd(2,3) by blast
  have grow: "cluster_placed (library D) cp src ns (calls (psys q))"
    if "cluster_placed (library D) cp src ns (calls (psys p))" for ns
    using that calls by (rule cluster_placed_mono)
  show ?thesis
    unfolding cover_inv_def
  proof (intro conjI allI ballI impI)
    fix ns r
    assume "Fetched ns r \<in> set (workers q)"
    then show "GetObject (GroupVersionKind (library D) src)
        (clusterDestinationKey (library D) src cp ns) r \<in> set (calls (psys q))"
      using set_q [of "Fetched ns r"] fetched [of ns r] inv calls unfolding cover_inv_def by blast
  next
    fix res
    assume res: "Sending res \<in> set (workers q) \<or> res \<in> set (results q)" "r_reason res = ''''"
    then consider "w = Sending res \<or> res \<in> set (results q) - set (results p)"
      | "Sending res \<in> set (workers p) \<or> res \<in> set (results p)"
      using set_q [of "Sending res"] by blast
    then show "cluster_placed (library D) cp src (r_ns res) (calls (psys q))"
    proof cases
      case 2
      with inv res(2) show ?thesis unfolding cover_inv_def by (blast intro: grow)
    qed (use sending res(2) in blast)
  next
    fix ns
    assume "ns \<in> set targets"
    then show "ns \<in> somewhere q \<or> cluster_placed (library D) cp src ns (calls (psys q))"
      using inv some grow unfolding cover_inv_def by blast
  qed
qed

lemma cover_inv_perform:
  assumes inv: "cover_inv D cp src targets p" and can: "can p a"
  shows "cover_inv D cp src targets (perform D cp src a p)"
proof (cases a)
  case Main
  with can have "can p Main" by simp
  then show ?thesis
  proof (cases rule: main_cases [where D = D and cp = cp and src = src])
    case send
    with Main inv show ?thesis by (auto simp: cover_inv_def somewhere_def)
  next
    case receive
    with Main inv show ?thesis by (auto simp: cover_inv_def somewhere_def collect_def)
  next
    case control
    with Main inv show ?thesis by (simp add: cover_inv_def somewhere_def)
  qed
next
  case Closer
  with inv show ?thesis by (simp add: cover_inv_def somewhere_def)
next
  case (Worker i)
  with can have i: "i < length (workers p)" by simp
  note move = cover_inv_Worker [OF inv i]
  show ?thesis
  proof (cases "workers p ! i")
    case Ready
    with Worker show ?thesis
      by (cases "jobs p") (auto simp: work_def intro!: move)
  next
    case (Working ns)
    with Worker show ?thesis
      by (auto simp: work_def get_Object_def api_call_def split: prod.splits intro!: move)
  next
    case (Fetched ns r)
    with i have "Fetched ns r \<in> set (workers p)" by (metis nth_mem)
    with inv have "wp (writeClusterDestination_switch D cp src ns r) (\<lambda>(reason, msg) t.
        set (calls (psys p)) \<subseteq> set (calls t) \<and>
        (reason = '''' \<longrightarrow> cluster_placed (library D) cp src ns (calls t))) (psys p)"
      by (intro switch_placed) (simp add: cover_inv_def)
    with Worker Fetched show ?thesis
      by (auto simp: work_def wp_def split: prod.splits intro!: move)
  next
    case (Sending res)
    with i have "Sending res \<in> set (workers p)" by (metis nth_mem)
    with inv Worker Sending show ?thesis
      by (auto simp: work_def cover_inv_def [of _ _ _ _ p] intro!: move)
  qed (use Worker can in auto)
qed

lemma fanOut_places:
  "wp (fanOut D sched cp src targets) (\<lambda>(w, f, msgs) t.
     set targets - fset (fmdom msgs) \<subseteq> {ns. cluster_placed (library D) cp src ns (calls t)}) s"
proof (rule fanOut_cases)
  let ?p = "pool_start targets (cpr_SelectorWriteConcurrency (cpr s)) s"
  fix p
  assume steps: "pool_steps D cp src ?p p" and fin: "finished_pool p" "unsent p = []" "jobs p = []"
  have "cover_inv D cp src targets ?p"
    by (auto simp: cover_inv_def somewhere_def pool_start_def Let_def)
  then have "cover_inv D cp src targets p"
    using pool_invariant [OF steps, where I = "cover_inv D cp src targets"] cover_inv_perform by blast
  moreover have "somewhere p = fset (fmdom (failureMsgs p))"
    using fin by (auto simp: somewhere_def finished_pool_def list_all_iff)
  ultimately show "(case (written p, failed p, failureMsgs p) of (w, f, msgs) \<Rightarrow> \<lambda>t.
     set targets - fset (fmdom msgs) \<subseteq> {ns. cluster_placed (library D) cp src ns (calls t)}) (psys p)"
    by (auto simp: cover_inv_def)
qed simp

text \<open>
  C21: a target that the fan-out does not report as failed has its destination in place: created, updated
  or found up to date under the ownership of the ClusterProjection.
\<close>

theorem fanOut_reports_or_places:
  "wp (fanOut D sched cp src targets) (\<lambda>(w, f, msgs) t.
     set targets - fset (fmdom msgs) \<subseteq> {ns. cluster_placed (library D) cp src ns (calls t)}) s"
  by (rule fanOut_places)

section \<open>Only the targets are written to\<close>

text \<open>Every namespace a worker holds is a target.\<close>

lemma pool_inv_holds:
  assumes "pool_inv targets n p" and "w \<in> set (workers p)" and "ns \<in> set (holds w)"
  shows "ns \<in> set targets"
proof -
  from assms(1) obtain got :: "result list" where "mset targets = mset (unsent p) + mset (jobs p) +
      mset (concat (map holds (workers p))) + mset (map r_ns (results p)) + mset (map r_ns got)"
    unfolding pool_inv_def by blast
  then have "set_mset (mset (concat (map holds (workers p)))) \<subseteq> set_mset (mset targets)"
    by auto
  with assms(2,3) show ?thesis by auto
qed

lemma fanOut_keeps_targets:
  assumes get: "\<And>k. keeps I (get_Object D (GroupVersionKind (library D) src) k)"
    and switch: "\<And>ns r. ns \<in> set targets \<Longrightarrow> keeps I (writeClusterDestination_switch D cp src ns r)"
  shows "keeps I (fanOut D sched cp src targets)"
proof (intro keepsI fanOut_cases)
  fix s :: "'a sys" and p
  let ?p = "pool_start targets (cpr_SelectorWriteConcurrency (cpr s)) s"
  let ?n = "length (workers ?p)"
  assume s: "I s" and "targets \<noteq> []" and steps: "pool_steps D cp src ?p p"
  then have "pool_inv targets ?n ?p \<and> I (psys ?p)" by (simp add: pool_start_inv)
  then have "pool_inv targets ?n p \<and> I (psys p)"
  proof (rule pool_invariant [OF steps, where I = "\<lambda>p. pool_inv targets ?n p \<and> I (psys p)"])
    fix q a
    assume q: "pool_inv targets ?n q \<and> I (psys q)" and can: "can q a"
    have "I (psys (perform D cp src a q))"
    proof (cases a)
      case (Worker i)
      with can have i: "workers q ! i \<in> set (workers q)" by simp
      show ?thesis
      proof (cases "workers q ! i")
        case (Fetched ns r)
        with q i have "ns \<in> set targets" by (auto intro: pool_inv_holds)
        with q Worker Fetched show ?thesis
          by (auto simp: work_def split: prod.splits dest: keepsD [OF switch])
      qed (use q Worker in \<open>auto simp: work_def split: list.splits prod.splits dest: keepsD [OF get]\<close>)
    qed (use q in \<open>auto simp: collect_def main_step_def split: phase.splits list.splits\<close>)
    with q can show "pool_inv targets ?n (perform D cp src a q) \<and> I (psys (perform D cp src a q))"
      by (simp add: pool_inv_perform)
  qed
  then show "I (psys p)" by simp
qed simp

end
