(* ===== verification/Cluster_Controller.thy ===== *)
theory Cluster_Controller
  imports Fan_Out_Props
begin

text \<open>
  \<^verbatim>\<open>internal/controller/cluster_projection_controller.go\<close>: target resolution, the reconcile function
  of the cluster tier around \<open>fanOut\<close>, and the mapping of namespace events to requests. The
  condition helpers of that file are in \<open>Conditions\<close>, its watch functions in \<open>Watches\<close>.
\<close>

section \<open>Definitions\<close>

definition resolveTargetNamespaces ::
  "'w deps \<Rightarrow> clusterProjection \<Rightarrow> ('w, error + string list) action" where
  "resolveTargetNamespaces D cp =
     (let dest = cps_Destination (cp_Spec cp) in
      if length (cpd_Namespaces dest) > 0 then State_Monad.return (Inr (sort (cpd_Namespaces dest)))
      else case cpd_NamespaceSelector dest of
          None \<Rightarrow> State_Monad.return (Inl (Errorf
            ''ClusterProjection has neither destination.namespaces nor destination.namespaceSelector''))
        | Some s \<Rightarrow>
            (case LabelSelectorAsSelector (library D) s of
               Inl err \<Rightarrow> State_Monad.return (Inl (Wrap ''invalid namespaceSelector'' err))
             | Inr sel \<Rightarrow>
                 if sel_Empty sel then State_Monad.return (Inl (Errorf
                   ''namespaceSelector matches all namespaces; refusing fan-out across the entire cluster''))
                 else do {
                   listed \<leftarrow> list_Namespace D sel;
                   State_Monad.return (case listed of
                       Inl err \<Rightarrow> Inl (Wrap ''listing namespaces'' err)
                     | Inr items \<Rightarrow> Inr (sort (map ns_Name
                         (filter (\<lambda>n. ns_DeletionTimestamp n = None) items))))
                 }))"

definition handleClusterSourceFetchError ::
  "'w deps \<Rightarrow> clusterProjection \<Rightarrow> gvr \<Rightarrow> error \<Rightarrow> ('w, reconcile_result) action" where
  "handleClusterSourceFetchError D cp gvr err =
     (if \<not> IsNotFound (library D) err
      then failClusterSource D cp ''SourceFetchFailed'' ''Get'' (Error err)
      else do {
        cleanupErr \<leftarrow> deleteAllClusterOwnedDestinations D cp gvr;
        let src = cps_Source (cp_Spec cp);
            (reason, msg) =
              (if cst_DestinationName (cp_Status cp) \<noteq> '''' then
                 (''SourceDeleted'',
                  ''source '' @ sr_Namespace src @ ''/'' @ sr_Name src @ '' has been deleted'')
               else
                 (''SourceNotFound'',
                  ''source '' @ sr_Namespace src @ ''/'' @ sr_Name src @ '' not found''))
        in failClusterSource D cp reason ''Get'' msg
      })"

text \<open>From the resolved targets on: fan-out, stale sweep, watch, status. \<^verbatim>\<open>int32(n)\<close> truncates.\<close>

definition cluster_Reconcile_targets ::
  "'w deps \<Rightarrow> ('w pool \<Rightarrow> nat) \<Rightarrow> clusterProjection \<Rightarrow> gvr \<Rightarrow> gvk \<Rightarrow> string \<Rightarrow> obj \<Rightarrow> string list \<Rightarrow>
   ('w, reconcile_result) action" where
  "cluster_Reconcile_targets D sched cp gvr watchGVK resolvedVersion src targets = do {
     (written, failed, failureMsgs) \<leftarrow> fanOut D sched cp src targets;
     cleanupErr \<leftarrow> cleanupStaleClusterDestinations D cp gvr targets;
     watchErr \<leftarrow> ensureClusterDestWatch D watchGVK;
     if failed > 0 then
       failClusterDestinationCounts D cp resolvedVersion ''DestinationWriteFailed''
         (summarizeFailures failed failureMsgs) (word_of_nat written) (word_of_nat failed)
     else do {
       err \<leftarrow> markAllClusterReady D cp resolvedVersion (word_of_nat written);
       State_Monad.return (Result_empty, err)
     }
   }"

definition cluster_Reconcile_fetched ::
  "'w deps \<Rightarrow> ('w pool \<Rightarrow> nat) \<Rightarrow> clusterProjection \<Rightarrow> gvr \<Rightarrow> gvk \<Rightarrow> string \<Rightarrow> obj \<Rightarrow>
   ('w, reconcile_result) action" where
  "cluster_Reconcile_fetched D sched cp gvr watchGVK resolvedVersion src = do {
     (reason, msg, ok) \<leftarrow> cluster_checkSourceProjectable D src;
     if \<not> ok then do {
       delErr \<leftarrow> deleteAllClusterOwnedDestinations D cp gvr;
       failClusterSource D cp reason ''Validate'' msg
     } else do {
       resolved \<leftarrow> resolveTargetNamespaces D cp;
       case resolved of
         Inl targetErr \<Rightarrow>
           failClusterDestination D cp resolvedVersion ''TargetResolutionFailed'' (Error targetErr)
       | Inr targets \<Rightarrow>
           cluster_Reconcile_targets D sched cp gvr watchGVK resolvedVersion src targets
     }
   }"

definition cluster_Reconcile_live ::
  "'w deps \<Rightarrow> ('w pool \<Rightarrow> nat) \<Rightarrow> clusterProjection \<Rightarrow> ('w, reconcile_result) action" where
  "cluster_Reconcile_live D sched cp = do {
     resolved \<leftarrow> resolveGVR D (cps_Source (cp_Spec cp));
     case resolved of
       Inl err \<Rightarrow> failClusterSource D cp ''SourceResolutionFailed'' ''Resolve'' (Error err)
     | Inr (gvr, resolvedVersion) \<Rightarrow>
         (let watchGVK = \<lparr>gvk_Group = gvr_Group gvr, gvk_Version = resolvedVersion,
                gvk_Kind = sr_Kind (cps_Source (cp_Spec cp))\<rparr>
          in do {
            watchErr \<leftarrow> cluster_ensureSourceWatch D watchGVK;
            fetched \<leftarrow> dynamic_Get D gvr (sr_Namespace (cps_Source (cp_Spec cp)))
                        (sr_Name (cps_Source (cp_Spec cp)));
            case fetched of
              Inl err \<Rightarrow> handleClusterSourceFetchError D cp gvr err
            | Inr src \<Rightarrow> cluster_Reconcile_fetched D sched cp gvr watchGVK resolvedVersion src
          })
   }"

definition cluster_Reconcile ::
  "('w pool \<Rightarrow> nat) \<Rightarrow> 'w deps \<Rightarrow> string \<Rightarrow> ('w, reconcile_result) action" where
  "cluster_Reconcile sched D req = do {
     got \<leftarrow> get_ClusterProjection D req;
     case got of
       Inl err \<Rightarrow> State_Monad.return
         (Result_empty, if IsNotFound (library D) err then None else Some err)
     | Inr cp \<Rightarrow> do {
         (handled, err) \<leftarrow> handleClusterDeletion D cp;
         if handled then State_Monad.return (Result_empty, err)
         else do {
           ensured \<leftarrow> ensureClusterFinalizer D cp;
           case ensured of
             Inl err \<Rightarrow> State_Monad.return (Result_empty, Some err)
           | Inr cp \<Rightarrow> cluster_Reconcile_live D sched cp
         }
       }
   }"

section \<open>Namespace events\<close>

fun matchingClusterProjectionRequests ::
  "lib \<Rightarrow> clusterProjection list \<Rightarrow> string \<Rightarrow> str_map \<Rightarrow> objectKey list" where
  "matchingClusterProjectionRequests L [] eventNS nsLabels = []"
| "matchingClusterProjectionRequests L (cp # items) eventNS nsLabels =
     (let dest = cps_Destination (cp_Spec cp);
          req = \<lparr>ok_Namespace = '''', ok_Name = m_Name (cp_ObjectMeta cp)\<rparr>;
          rest = matchingClusterProjectionRequests L items eventNS nsLabels
      in if length (cpd_Namespaces dest) > 0 then
           (if eventNS \<in> set (cpd_Namespaces dest) then req # rest else rest)
         else case cpd_NamespaceSelector dest of
             None \<Rightarrow> rest
           | Some s \<Rightarrow>
               (case LabelSelectorAsSelector L s of
                  Inl err \<Rightarrow> rest
                | Inr sel \<Rightarrow>
                    if sel_Empty sel then rest
                    else if sel_Matches sel nsLabels then req # rest else rest))"

text \<open>Both branches of \<^verbatim>\<open>mapNamespace\<close> list every resource and match on the object's labels.\<close>

definition mapNamespace :: "'w deps \<Rightarrow> eventObj \<Rightarrow> ('w, objectKey list) action" where
  "mapNamespace D o1 = do {
     listed \<leftarrow> list_ClusterProjection D None;
     State_Monad.return (case listed of
         Inl err \<Rightarrow> []
       | Inr items \<Rightarrow>
           matchingClusterProjectionRequests (library D) items (eo_Name o1) (eo_Labels o1))
   }"

section \<open>The frame, instantiated\<close>

lemma quiet_resolveTargets [quiet_rules]: "quiet (resolveTargetNamespaces D cp)"
  unfolding resolveTargetNamespaces_def Let_def by (intro quiet_rules)

lemma harmless_resolveTargets: "harmless (resolveTargetNamespaces D cp)"
  unfolding resolveTargetNamespaces_def Let_def by (intro makes_rules)

lemma ends_cluster_live:
  assumes "lib_ok (library D)"
  shows "ends kindClusterProjection (cluster_Reconcile_live D sched cp)"
  unfolding cluster_Reconcile_live_def cluster_Reconcile_fetched_def cluster_Reconcile_targets_def
    handleClusterSourceFetchError_def Let_def
  by (intro ends_rules quiet_rules assms) simp_all

lemma keeps_cluster_sweep:
  "keeps (safe_for (library D) own (\<lambda>y. isOwnedByCluster (library D) y cp))
     (deleteClusterOwnedDestinations D cp gvr keep)"
  using cp_sweep.keeps_sweep_op [of D own "(cp, keep)" gvr] by simp

lemma keeps_cluster_cleanup:
  "keeps (safe_for (library D) own (\<lambda>y. isOwnedByCluster (library D) y cp))
     (deleteAllClusterOwnedDestinations D cp gvr)"
  "keeps (safe_for (library D) own (\<lambda>y. isOwnedByCluster (library D) y cp))
     (cleanupStaleClusterDestinations D cp gvr targets)"
  unfolding deleteAllClusterOwnedDestinations_def cleanupStaleClusterDestinations_def Let_def
  by (rule keeps_cluster_sweep)+

lemma keeps_deleteClusterDestination:
  "keeps (safe_for (library D) own (\<lambda>y. isOwnedByCluster (library D) y cp))
     (deleteClusterDestination D cp)"
  unfolding deleteClusterDestination_def
  by (intro keeps_rules keeps_quiet_steps keeps_cluster_cleanup)

lemma keeps_cluster_live:
  assumes "lib_ok (library D)" and "objects_ok D"
  shows "keeps (safe_for (library D) own (\<lambda>y. isOwnedByCluster (library D) y cp))
    (cluster_Reconcile_live D sched cp)"
proof -
  have "keeps (safe_for (library D) own (\<lambda>y. isOwnedByCluster (library D) y cp))
      (fanOut D sched cp src targets)" if "metadata_of src = Some m" for src m targets
    by (rule keeps_fanOut [OF assms(1) that])
  then show ?thesis
    unfolding cluster_Reconcile_live_def cluster_Reconcile_fetched_def cluster_Reconcile_targets_def
      handleClusterSourceFetchError_def Let_def
    by (intro keeps_source_fetch keeps_rules keeps_quiet_steps keeps_cluster_cleanup assms(2)
        keeps_harmless [OF harmless_resolveTargets]) blast+
qed

interpretation cp_rec: reconciler clusterFinalizerName cp_ObjectMeta "\<lambda>c m. c\<lparr>cp_ObjectMeta := m\<rparr>"
  deleteClusterDestination client_Update_ClusterProjection UpdateClusterProjection
  handleClusterDeletion ensureClusterFinalizer cleaned_cp kindClusterProjection
  client_Get_ClusterProjection GetClusterProjection
  "\<lambda>D cp. cluster_Reconcile_live D sched cp" "cluster_Reconcile sched"
  "\<lambda>L c y. isOwnedByCluster L y c" for sched
  by unfold_locales
    (simp_all add: cluster_Reconcile_def get_ClusterProjection_def quiet_rules
      keeps_deleteClusterDestination ends_cluster_live keeps_cluster_live)

end
