(* ===== verification/Cluster_Props.thy ===== *)
theory Cluster_Props
  imports Cluster_Controller
begin

text \<open>
  Properties of the cluster tier: the safety and the outcome of a reconcile (through the
  interpretation of the frame that both tiers share), the targets it resolves, the places it
  writes to, what its success means, and which namespace events enqueue it. The scheduler of
  the fan-out is a parameter of each statement.
\<close>

section \<open>Safety and outcome\<close>

definition cluster_owned_here :: "lib \<Rightarrow> string \<Rightarrow> call list \<Rightarrow> obj \<Rightarrow> bool" where
  "cluster_owned_here L req pre y \<longleftrightarrow>
     (\<exists>cp. isOwnedByCluster L y cp \<and> (GetClusterProjection req (Inr cp) \<in> set pre \<or>
        (\<exists>sent. UpdateClusterProjection sent (Inr cp) \<in> set pre)))"

text \<open>
  C2: however the workers of the fan-out interleave, every object a reconcile of a ClusterProjection
  creates was reported missing under its key before; every object it updates was fetched,
  carries the annotation of this ClusterProjection and is sent with the fetched resource
  version; every object it deletes was listed and carries that annotation.
\<close>

theorem cluster_Reconcile_safe:
  assumes "lib_ok (library D)" and "objects_ok D" and "calls s = []"
  shows "wp (cluster_Reconcile sched D req)
    (\<lambda>_ t. safe (library D) (cluster_owned_here (library D) req) (calls t)) s"
  using cp_rec.reconcile_safe [OF assms, of sched req]
  by (simp add: cp_rec.owned_here_def [abs_def] cluster_owned_here_def [abs_def])

theorem cluster_Reconcile_safe_witness:
  "wp (cluster_Reconcile (\<lambda>_. 0) sample_deps ''spread'')
     (\<lambda>_ t. safe ref_lib (cluster_owned_here ref_lib ''spread'') (calls t)) sample_sys"
  using cluster_Reconcile_safe [of sample_deps sample_sys, OF sample_library_ok sample_objects_ok]
  by simp

text \<open>
  C4: a reconcile of a ClusterProjection either ends early without writing a status or counting
  anything, or its last call is its only status update, with three conditions that agree with
  each other and with the one bucket that is counted.
\<close>

theorem cluster_Reconcile_outcome:
  assumes "lib_ok (library D)"
  shows "wp (cluster_Reconcile sched D req) (\<lambda>(res, err) t. finished kindClusterProjection s t err \<or>
    (\<exists>cs. calls t = calls s @ cs \<and> res = Result_empty \<and>
       list_all (\<lambda>c. status_write c = None) cs \<and> reconcileTotal t = reconcileTotal s \<and>
       ((\<exists>e. GetClusterProjection req (Inl e) \<in> set cs) \<or>
        (\<exists>cp. GetClusterProjection req (Inr cp) \<in> set cs \<and>
           (m_DeletionTimestamp (cp_ObjectMeta cp) \<noteq> None \<or>
            (\<exists>sent e. UpdateClusterProjection sent (Inl e) \<in> set cs \<and> err = Some e)))))) s"
  by (rule wp_mono [OF cp_rec.reconcile_outcome [OF assms, of sched req s]])
    (auto simp: cp_rec.outcome_def cp_rec.exits_early_def)

theorem cluster_Reconcile_outcome_witness:
  "wp (cluster_Reconcile (\<lambda>_. 0) sample_deps ''spread'')
    (\<lambda>(res, err) t. finished kindClusterProjection sample_sys t err \<or>
    (\<exists>cs. calls t = calls sample_sys @ cs \<and> res = Result_empty \<and>
       list_all (\<lambda>c. status_write c = None) cs \<and> reconcileTotal t = reconcileTotal sample_sys \<and>
       ((\<exists>e. GetClusterProjection ''spread'' (Inl e) \<in> set cs) \<or>
        (\<exists>cp. GetClusterProjection ''spread'' (Inr cp) \<in> set cs \<and>
           (m_DeletionTimestamp (cp_ObjectMeta cp) \<noteq> None \<or>
            (\<exists>sent e. UpdateClusterProjection sent (Inl e) \<in> set cs \<and> err = Some e)))))) sample_sys"
  by (rule cluster_Reconcile_outcome [OF sample_library_ok])

section \<open>Target resolution\<close>

text \<open>The targets that a list of calls shows: the listed ones, or those of the one listing.\<close>

definition resolved_targets :: "lib \<Rightarrow> clusterProjectionDestination \<Rightarrow> string list \<Rightarrow> call list \<Rightarrow> bool" where
  "resolved_targets L dest targets cs \<longleftrightarrow> sorted targets \<and>
     (if cpd_Namespaces dest \<noteq> [] then mset targets = mset (cpd_Namespaces dest)
      else \<exists>ls sel items. cpd_NamespaceSelector dest = Some ls \<and>
        LabelSelectorAsSelector L ls = Inr sel \<and> \<not> sel_Empty sel \<and>
        ListNamespaces sel (Inr items) \<in> set cs \<and>
        mset targets = mset (map ns_Name (filter (\<lambda>n. ns_DeletionTimestamp n = None) items)))"

lemma resolved_targets_mono:
  "resolved_targets L dest targets cs \<Longrightarrow> set cs \<subseteq> set ds \<Longrightarrow> resolved_targets L dest targets ds"
  unfolding resolved_targets_def by (auto split: if_splits)

lemma resolve_targets_spec:
  "wp (resolveTargetNamespaces D cp) (\<lambda>r t. \<exists>cs. calls t = calls s @ cs \<and>
     (case r of
        Inr targets \<Rightarrow> resolved_targets (library D) (cps_Destination (cp_Spec cp)) targets cs
      | Inl e \<Rightarrow> cpd_Namespaces (cps_Destination (cp_Spec cp)) = [] \<and>
          (case cpd_NamespaceSelector (cps_Destination (cp_Spec cp)) of
             None \<Rightarrow> cs = [] \<and>
               e = Errorf ''ClusterProjection has neither destination.namespaces nor destination.namespaceSelector''
           | Some ls \<Rightarrow>
               (case LabelSelectorAsSelector (library D) ls of
                  Inl err \<Rightarrow> cs = [] \<and> e = Wrap ''invalid namespaceSelector'' err
                | Inr sel \<Rightarrow>
                    if sel_Empty sel then cs = [] \<and>
                      e = Errorf ''namespaceSelector matches all namespaces; refusing fan-out across the entire cluster''
                    else \<exists>err. cs = [ListNamespaces sel (Inl err)] \<and>
                      e = Wrap ''listing namespaces'' err)))) s"
  unfolding resolveTargetNamespaces_def resolved_targets_def list_Namespace_def Let_def
  by (auto simp: wp_rules split: option.splits sum.splits prod.splits)


section \<open>What a success means\<close>

definition cluster_projected :: "lib \<Rightarrow> string \<Rightarrow> clusterProjection \<Rightarrow> call list \<Rightarrow> bool" where
  "cluster_projected L mode cp cs \<longleftrightarrow> (\<exists>gvr src targets.
     DynGet gvr (sr_Namespace (cps_Source (cp_Spec cp))) (sr_Name (cps_Source (cp_Spec cp))) (Inr src)
       \<in> set cs \<and>
     projectable (fmlookup (nil_map (GetAnnotations L src)) projectableAnnotation) mode \<and>
     resolved_targets L (cps_Destination (cp_Spec cp)) targets cs \<and>
     list_all (\<lambda>ns. cluster_placed L cp src ns cs) targets)"

lemma cluster_projected_mono:
  "cluster_projected L mode cp cs \<Longrightarrow> set cs \<subseteq> set ds \<Longrightarrow> cluster_projected L mode cp ds"
  unfolding cluster_projected_def list_all_iff
  by (blast intro: resolved_targets_mono cluster_placed_mono)

lemma makes_mono_calls:
  fixes t :: "'w sys"
  assumes "makes P m" and "good (calls t)" and "\<And>cs ds. good cs \<Longrightarrow> set cs \<subseteq> set ds \<Longrightarrow> good ds"
  shows "wp m (\<lambda>_ u. good (calls u)) t"
proof -
  have "wp m (\<lambda>_ u. \<exists>cs. calls u = calls t @ cs \<and> list_all P cs) t"
    using assms(1) by (simp add: makes_def)
  then show ?thesis by (rule wp_mono) (use assms(2) in \<open>auto elim!: assms(3)\<close>)
qed

text \<open>What the fan-out leaves for the rest of the reconcile.\<close>

lemma fanOut_success:
  fixes t :: "'w sys"
  assumes "DynGet gvr (sr_Namespace (cps_Source (cp_Spec cp))) (sr_Name (cps_Source (cp_Spec cp)))
      (Inr src) \<in> set (calls t)"
    and "projectable (fmlookup (nil_map (GetAnnotations (library D) src)) projectableAnnotation) mode"
    and "resolved_targets (library D) (cps_Destination (cp_Spec cp)) targets (calls t)"
  shows "wp (fanOut D sched cp src targets) (\<lambda>(w, f, msgs) u.
    successes kindClusterProjection u = successes kindClusterProjection t \<and>
    (f = 0 \<longrightarrow> cluster_projected (library D) mode cp (calls u))) t"
proof -
  let ?m = "fanOut D sched cp src targets"
  have "wp ?m (\<lambda>_ u. successes kindClusterProjection u = successes kindClusterProjection t \<and>
      (\<exists>cs. calls u = calls t @ cs)) t"
    using quiet_success [OF quiet_fanOut] quiet_calls_only [OF quiet_fanOut]
    by (fastforce simp: wp_conj elim: wp_mono)
  with fanOut_counts [of D sched cp src targets t]
    fanOut_places [of D sched cp src targets t]
  have "wp ?m (\<lambda>r u. (case r of (w, f, msgs) \<Rightarrow> \<lambda>u. w + f = length targets \<and>
        fset (fmdom msgs) \<subseteq> set targets \<and> (f = 0 \<longleftrightarrow> msgs = fmempty) \<and>
        (distinct targets \<longrightarrow> fcard (fmdom msgs) = f)) u \<and>
      (case r of (w, f, msgs) \<Rightarrow> \<lambda>u. set targets - fset (fmdom msgs) \<subseteq>
        {ns. cluster_placed (library D) cp src ns (calls u)}) u \<and>
      successes kindClusterProjection u = successes kindClusterProjection t \<and>
      (\<exists>cs. calls u = calls t @ cs)) t"
    by (simp only: wp_conj)
  then show ?thesis
  proof (rule wp_mono, clarsimp)
    fix u :: "'w sys" and cs
    assume "calls u = calls t @ cs"
      and "set targets \<subseteq> {ns. cluster_placed (library D) cp src ns (calls t @ cs)}"
    moreover have "resolved_targets (library D) (cps_Destination (cp_Spec cp)) targets (calls t @ cs)"
      by (rule resolved_targets_mono [OF assms(3)]) simp
    ultimately show "cluster_projected (library D) mode cp (calls t @ cs)"
      using assms(1,2) unfolding cluster_projected_def list_all_iff by auto
  qed
qed

lemma cluster_targets_success:
  fixes t :: "'w sys"
  assumes "DynGet gvr (sr_Namespace (cps_Source (cp_Spec cp))) (sr_Name (cps_Source (cp_Spec cp)))
      (Inr src) \<in> set (calls t)"
    and "projectable (fmlookup (nil_map (GetAnnotations (library D) src)) projectableAnnotation) mode"
    and "resolved_targets (library D) (cps_Destination (cp_Spec cp)) targets (calls t)"
  shows "wp (cluster_Reconcile_targets D sched cp gvr' g v src targets) (\<lambda>_ u.
    successes kindClusterProjection u = successes kindClusterProjection t \<or>
    cluster_projected (library D) mode cp (calls u)) t"
proof -
  let ?n = "successes kindClusterProjection t" and ?good = "cluster_projected (library D) mode cp"
  let ?Q = "\<lambda>_ u. successes kindClusterProjection u = ?n \<or> ?good (calls u)"
  have fail: "wp (State_Monad.bind (cleanupStaleClusterDestinations D cp gvr' targets) (\<lambda>_.
      State_Monad.bind (ensureClusterDestWatch D g) (\<lambda>_.
        failClusterDestinationCounts D cp v reason msg w f))) ?Q u"
    if "successes kindClusterProjection u = ?n" for u reason msg w f
    using that
    by (intro quiet_then_success [where kind = kindClusterProjection] quiet_rules)
      (rule wp_mono [OF fail_no_success(5)], simp)
  have ready: "wp (State_Monad.bind (cleanupStaleClusterDestinations D cp gvr' targets) (\<lambda>_.
      State_Monad.bind (ensureClusterDestWatch D g) (\<lambda>_.
        State_Monad.bind (markAllClusterReady D cp v w) (\<lambda>err.
          State_Monad.return (Result_empty, err))))) ?Q u"
    if "?good (calls u)" for u w
  proof -
    have "makes (\<lambda>_. True) (State_Monad.bind (cleanupStaleClusterDestinations D cp gvr' targets) (\<lambda>_.
      State_Monad.bind (ensureClusterDestWatch D g) (\<lambda>_.
        State_Monad.bind (markAllClusterReady D cp v w) (\<lambda>err.
          State_Monad.return (Result_empty, err)))))"
      by (intro grows_rules)
    then have "wp (State_Monad.bind (cleanupStaleClusterDestinations D cp gvr' targets) (\<lambda>_.
      State_Monad.bind (ensureClusterDestWatch D g) (\<lambda>_.
        State_Monad.bind (markAllClusterReady D cp v w) (\<lambda>err.
          State_Monad.return (Result_empty, err))))) (\<lambda>_ u. ?good (calls u)) u"
      using that by (rule makes_mono_calls) (rule cluster_projected_mono)
    then show ?thesis by (rule wp_mono) simp
  qed
  show ?thesis
    unfolding cluster_Reconcile_targets_def wp_bind [of "fanOut D sched cp src targets"]
    by (rule wp_mono [OF fanOut_success [OF assms]])
      (auto simp: fail ready split: prod.splits if_splits)
qed

lemma cluster_fetched_success:
  fixes s :: "'w sys"
  assumes "DynGet gvr (sr_Namespace (cps_Source (cp_Spec cp))) (sr_Name (cps_Source (cp_Spec cp)))
      (Inr src) \<in> set (calls s)"
  shows "wp (cluster_Reconcile_fetched D sched cp gvr' g v src) (\<lambda>_ t.
    successes kindClusterProjection t = successes kindClusterProjection s \<or>
    cluster_projected (library D) (cpr_SourceMode (cpr s)) cp (calls t)) s"
proof -
  let ?n = "successes kindClusterProjection s" and ?mode = "cpr_SourceMode (cpr s)" and ?L = "library D"
  let ?Q = "\<lambda>_ t. successes kindClusterProjection t = ?n \<or> cluster_projected ?L ?mode cp (calls t)"
  obtain reason msg ok where c: "checkProjectable ?L src ?mode = (reason, msg, ok)"
    by (metis surj_pair)
  show ?thesis
  proof (cases ok)
    case False
    have "wp (State_Monad.bind (deleteAllClusterOwnedDestinations D cp gvr')
        (\<lambda>_. failClusterSource D cp reason ''Validate'' msg)) ?Q s"
      by (intro quiet_then_success [where kind = kindClusterProjection] quiet_rules)
        (rule wp_mono [OF fail_no_success(3)], simp)
    with False show ?thesis
      by (simp add: cluster_Reconcile_fetched_def cluster_checkSourceProjectable_def wp_rules c)
  next
    case True
    have ok: "projectable (fmlookup (nil_map (GetAnnotations ?L src)) projectableAnnotation) ?mode"
      using checkProjectable_decides [of ?L src ?mode] True by (simp add: c)
    have "wp (resolveTargetNamespaces D cp) (\<lambda>r t. successes kindClusterProjection t = ?n \<and>
        (\<exists>cs. calls t = calls s @ cs \<and> (case r of
          Inl e \<Rightarrow> True
        | Inr targets \<Rightarrow> resolved_targets ?L (cps_Destination (cp_Spec cp)) targets cs))) s"
      unfolding wp_conj
      by (intro conjI quiet_success quiet_rules wp_mono [OF resolve_targets_spec])
        (auto split: sum.splits)
    then have "wp (State_Monad.bind (resolveTargetNamespaces D cp) (\<lambda>resolved. case resolved of
         Inl targetErr \<Rightarrow>
           failClusterDestination D cp v ''TargetResolutionFailed'' (Error targetErr)
       | Inr targets \<Rightarrow> cluster_Reconcile_targets D sched cp gvr' g v src targets)) ?Q s"
      unfolding wp_bind
    proof (rule wp_mono, elim conjE exE)
      fix r :: "error + string list" and cs and t :: "'w sys"
      assume t: "successes kindClusterProjection t = ?n" "calls t = calls s @ cs"
        and r: "case r of Inl e \<Rightarrow> True
          | Inr targets \<Rightarrow> resolved_targets ?L (cps_Destination (cp_Spec cp)) targets cs"
      show "wp (case r of
          Inl targetErr \<Rightarrow> failClusterDestination D cp v ''TargetResolutionFailed'' (Error targetErr)
        | Inr targets \<Rightarrow> cluster_Reconcile_targets D sched cp gvr' g v src targets) ?Q t"
      proof (cases r)
        case (Inl e)
        with t(1) show ?thesis by (auto intro: wp_mono [OF fail_no_success(4)])
      next
        case (Inr targets)
        with r t(2) have "resolved_targets ?L (cps_Destination (cp_Spec cp)) targets (calls t)"
          by (auto elim: resolved_targets_mono)
        with assms t Inr ok show ?thesis
          using cluster_targets_success [of gvr cp src t D ?mode targets sched gvr' g v] by simp
      qed
    qed
    with True show ?thesis
      by (simp add: cluster_Reconcile_fetched_def cluster_checkSourceProjectable_def wp_rules c)
  qed
qed

lemma cluster_fetch_error_success:
  "wp (handleClusterSourceFetchError D cp gvr err) (\<lambda>_ t.
     successes kindClusterProjection t = successes kindClusterProjection s) s"
proof -
  have "wp (State_Monad.bind (deleteAllClusterOwnedDestinations D cp gvr) (\<lambda>_.
      failClusterSource D cp reason ''Get'' msg)) (\<lambda>_ t.
     successes kindClusterProjection t = successes kindClusterProjection s) s" for reason msg
    by (intro quiet_then_success [where kind = kindClusterProjection] quiet_rules)
      (rule wp_mono [OF fail_no_success(3)], simp)
  then show ?thesis
    by (auto simp: handleClusterSourceFetchError_def Let_def intro: wp_mono [OF fail_no_success(3)])
qed

lemma cluster_live_success:
  fixes s :: "'w sys"
  shows "wp (cluster_Reconcile_live D sched cp) (\<lambda>_ t.
    successes kindClusterProjection t = successes kindClusterProjection s \<or>
    cluster_projected (library D) (cpr_SourceMode (cpr s)) cp (calls t)) s"
proof -
  let ?n = "successes kindClusterProjection s" and ?mode = "cpr_SourceMode (cpr s)"
  let ?Q = "\<lambda>_ t. successes kindClusterProjection t = ?n \<or>
    cluster_projected (library D) ?mode cp (calls t)"
  let ?ns = "sr_Namespace (cps_Source (cp_Spec cp))" and ?name = "sr_Name (cps_Source (cp_Spec cp))"
  have fetched: "wp (State_Monad.bind (dynamic_Get D gvr ?ns ?name) (\<lambda>fetched. case fetched of
        Inl err \<Rightarrow> handleClusterSourceFetchError D cp gvr err
      | Inr src \<Rightarrow> cluster_Reconcile_fetched D sched cp gvr g v src)) ?Q t"
    if t: "successes kindClusterProjection t = ?n" "cpr_SourceMode (cpr t) = ?mode" for t gvr g v
  proof -
    obtain r w where r: "dyn_Get D gvr ?ns ?name (world t) = (r, w)" by fastforce
    let ?t = "t\<lparr>world := w, calls := calls t @ [DynGet gvr ?ns ?name r]\<rparr>"
    have t': "successes kindClusterProjection ?t = ?n" "cpr_SourceMode (cpr ?t) = ?mode"
      using t by (simp_all add: successes_def)
    have "wp (case r of Inl err \<Rightarrow> handleClusterSourceFetchError D cp gvr err
        | Inr src \<Rightarrow> cluster_Reconcile_fetched D sched cp gvr g v src) ?Q ?t"
    proof (cases r)
      case (Inl err)
      with t' show ?thesis by (auto intro: wp_mono [OF cluster_fetch_error_success])
    next
      case (Inr src)
      then have "wp (cluster_Reconcile_fetched D sched cp gvr g v src) (\<lambda>_ u.
          successes kindClusterProjection u = successes kindClusterProjection ?t \<or>
          cluster_projected (library D) (cpr_SourceMode (cpr ?t)) cp (calls u)) ?t"
        by (intro cluster_fetched_success [where gvr = gvr]) simp
      with Inr t' show ?thesis by simp
    qed
    then show ?thesis by (simp add: wp_rules dynamic_Get_def r)
  qed
  have watched: "wp (cluster_ensureSourceWatch D g) (\<lambda>_ u. successes kindClusterProjection u = ?n \<and>
      cpr_SourceMode (cpr u) = ?mode) t"
    if "successes kindClusterProjection t = ?n" "cpr_SourceMode (cpr t) = ?mode" for t g
    using that by (auto simp: cluster_ensureSourceWatch_def watch_def wp_rules successes_def split: prod.splits)
  show ?thesis
    by (auto simp: cluster_Reconcile_live_def wp_rules wp_resolveGVR Let_def successes_def
        split: prod.splits sum.splits
        intro!: wp_mono [OF watched] wp_mono [OF fail_no_success(3)]
          fetched [unfolded wp_bind successes_def])
qed

lemma grows_cluster_live: "makes (\<lambda>_. True) (cluster_Reconcile_live D sched cp)"
  unfolding cluster_Reconcile_live_def cluster_Reconcile_fetched_def cluster_Reconcile_targets_def
    handleClusterSourceFetchError_def Let_def
  by (intro grows_rules quiet_fanOut [THEN grows_quiet] quiet_resolveTargets [THEN grows_quiet])

text \<open>
  C6: a reconcile of a ClusterProjection is counted as a success only if it is projected everywhere: its
  calls show the source object, allowed by the configured mode and its annotation, the target
  namespaces of the spec or of the selector, and in every one of them the destination built from
  that object created, updated or found up to date under the ClusterProjection's ownership.
\<close>

theorem cluster_Reconcile_success_projected:
  "wp (cluster_Reconcile sched D req) (\<lambda>_ t.
     reconcileTotal t (kindClusterProjection, resultSuccess) =
       reconcileTotal s (kindClusterProjection, resultSuccess) \<or>
     (\<exists>cp. (GetClusterProjection req (Inr cp) \<in> set (calls t) \<or>
        (\<exists>sent. UpdateClusterProjection sent (Inr cp) \<in> set (calls t))) \<and>
        cluster_projected (library D) (cpr_SourceMode (cpr s)) cp (calls t))) s"
proof -
  have "wp (cluster_Reconcile_live D sched cp) (\<lambda>_ u.
      successes kindClusterProjection u = successes kindClusterProjection t \<or>
      cluster_projected (library D) (cpr_SourceMode (cpr s)) cp (calls u)) t" if "cpr t = cpr s" for cp t
    using cluster_live_success [of D sched cp t] that by simp
  then show ?thesis
    using cp_rec.reconcile_success [of s D sched "cluster_projected (library D) (cpr_SourceMode (cpr s))" req]
      grows_cluster_live [of D sched]
    by (simp add: successes_def cp_rec.known_def)
qed

section \<open>Confinement\<close>

text \<open>
  Where a ClusterProjection may create or update: under the name its spec asks for and, if it
  lists its namespaces, in one of them.
\<close>

definition may_write :: "clusterProjection \<Rightarrow> objectKey \<Rightarrow> bool" where
  "may_write cp k \<longleftrightarrow> ok_Name k = clusterDestinationName cp \<and>
     (cpd_Namespaces (cps_Destination (cp_Spec cp)) \<noteq> [] \<longrightarrow>
        ok_Namespace k \<in> set (cpd_Namespaces (cps_Destination (cp_Spec cp))))"

fun cluster_confined :: "lib \<Rightarrow> clusterProjection \<Rightarrow> call \<Rightarrow> bool" where
  "cluster_confined L cp (CreateObject x _) \<longleftrightarrow> may_write cp (key_of L x)"
| "cluster_confined L cp (UpdateObject x _) \<longleftrightarrow> may_write cp (key_of L x)"
| "cluster_confined L cp _ \<longleftrightarrow> True"

lemma keeps_resolved_targets:
  assumes "keeps I (resolveTargetNamespaces D cp)" and "\<And>e. keeps I (f e)"
    and "\<And>targets. (cpd_Namespaces (cps_Destination (cp_Spec cp)) \<noteq> [] \<Longrightarrow>
      set targets = set (cpd_Namespaces (cps_Destination (cp_Spec cp)))) \<Longrightarrow> keeps I (g targets)"
  shows "keeps I (State_Monad.bind (resolveTargetNamespaces D cp)
    (\<lambda>r. case r of Inl e \<Rightarrow> f e | Inr targets \<Rightarrow> g targets))"
proof (cases "cpd_Namespaces (cps_Destination (cp_Spec cp)) = []")
  case True
  with assms show ?thesis by (intro keeps_rules) auto
next
  case False
  with assms(3) have "keeps I (g (sort (cpd_Namespaces (cps_Destination (cp_Spec cp)))))" by simp
  with False show ?thesis by (simp add: resolveTargetNamespaces_def keeps_def wp_rules)
qed

lemma cluster_confined_live:
  assumes "lib_ok (library D)" and "objects_ok D"
  shows "keeps (\<lambda>s. list_all (\<lambda>d. mutates d \<longrightarrow> cluster_confined (library D) cp d) (calls s))
    (cluster_Reconcile_live D sched cp)"
proof -
  let ?I = "\<lambda>s. list_all (\<lambda>d. mutates d \<longrightarrow> cluster_confined (library D) cp d) (calls s)"
  let ?listed = "cpd_Namespaces (cps_Destination (cp_Spec cp))"
  have "keeps ?I (fanOut D sched cp src targets)"
    if m: "metadata_of src = Some m" and listed: "?listed \<noteq> [] \<Longrightarrow> set targets = set ?listed"
    for src m targets
  proof (rule fanOut_keeps_targets)
    fix ns r
    assume "ns \<in> set targets"
    with listed have "may_write cp \<lparr>ok_Namespace = ns, ok_Name = clusterDestinationName cp\<rparr>"
      by (auto simp: may_write_def)
    then show "keeps ?I (writeClusterDestination_switch D cp src ns r)"
      unfolding switch_template
      by (intro makes_keeps cp_writer.finish_key [OF assms(1) m]) simp_all
  qed (rule keeps_mutations)
  moreover have "keeps ?I (deleteAllClusterOwnedDestinations D cp gvr)"
    and "keeps ?I (cleanupStaleClusterDestinations D cp gvr targets)" for gvr targets
    unfolding deleteAllClusterOwnedDestinations_def cleanupStaleClusterDestinations_def Let_def
    by (rule makes_keeps, rule makes_sweeps; simp)+
  ultimately show ?thesis
    unfolding cluster_Reconcile_live_def cluster_Reconcile_fetched_def cluster_Reconcile_targets_def
      handleClusterSourceFetchError_def Let_def
    by (intro keeps_source_fetch keeps_resolved_targets keeps_rules keeps_mutations
        quiet_mutations [OF harmless_resolveTargets] assms(2)) blast+
qed

text \<open>
  C18: a ClusterProjection writes only where its spec says: every object that a reconcile creates or
  updates has the destination name, and if the spec lists namespaces it is in one of these.
\<close>

theorem cluster_Reconcile_confined:
  assumes "lib_ok (library D)" and "objects_ok D" and "calls s = []"
  shows "wp (cluster_Reconcile sched D req) (\<lambda>_ t. \<forall>d \<in> set (calls t). mutates d \<longrightarrow>
    (\<exists>cp. (GetClusterProjection req (Inr cp) \<in> set (calls t) \<or>
       (\<exists>sent. UpdateClusterProjection sent (Inr cp) \<in> set (calls t))) \<and>
      cluster_confined (library D) cp d)) s"
proof -
  have "keeps (\<lambda>s. list_all (\<lambda>d. mutates d \<longrightarrow> cluster_confined (library D) cp d) (calls s))
      (deleteClusterDestination D cp)" for cp
    unfolding deleteClusterDestination_def deleteAllClusterOwnedDestinations_def
    by (intro keeps_rules keeps_mutations makes_keeps makes_sweeps(2); simp)
  then show ?thesis
    using cp_rec.reconcile_within [OF assms(1,3), of "cluster_confined (library D)" sched req]
      cluster_confined_live [OF assms(1,2)]
    by (simp add: cp_rec.stays_in_def cp_rec.known_def)
qed

theorem cluster_Reconcile_confined_witness:
  "wp (cluster_Reconcile (\<lambda>_. 0) sample_deps ''spread'') (\<lambda>_ t. \<forall>d \<in> set (calls t). mutates d \<longrightarrow>
    (\<exists>cp. (GetClusterProjection ''spread'' (Inr cp) \<in> set (calls t) \<or>
       (\<exists>sent. UpdateClusterProjection sent (Inr cp) \<in> set (calls t))) \<and>
      cluster_confined (library sample_deps) cp d)) sample_sys"
  by (rule cluster_Reconcile_confined [OF sample_library_ok sample_objects_ok sample_sys_calls])

section \<open>The status counts\<close>

text \<open>\<^verbatim>\<open>int32(n)\<close> on a count that fits.\<close>

lemma int32_of_nat: "n < 2 ^ 31 \<Longrightarrow> sint (word_of_nat n :: 32 word) = int n"
  by transfer (simp add: signed_take_bit_int_eq_self)

definition counts_ok :: "nat \<Rightarrow> clusterProjectionStatus \<Rightarrow> bool" where
  "counts_ok n st \<longleftrightarrow> 0 \<le> sint (cst_NamespacesWritten st) \<and> 0 \<le> sint (cst_NamespacesFailed st) \<and>
     sint (cst_NamespacesWritten st) + sint (cst_NamespacesFailed st) = int n \<and>
     (if cst_NamespacesFailed st = 0 then all_ready (cst_Conditions st)
      else destination_failed (cst_Conditions st) ''DestinationWriteFailed'')"

lemma terminal_counts:
  assumes "lib_ok (library D)" and "w + f = n" and "n < 2 ^ 31"
  shows "wp (if f > 0 then failClusterDestinationCounts D cp v ''DestinationWriteFailed'' msg
        (word_of_nat w) (word_of_nat f)
      else State_Monad.bind (markAllClusterReady D cp v (word_of_nat w)) (\<lambda>err.
        State_Monad.return (Result_empty, err)))
    (\<lambda>_ t. \<exists>cp' r. calls t = calls s @ [StatusUpdateClusterProjection cp' r] \<and>
      counts_ok n (cp_Status cp')) s"
proof -
  have i: "sint (word_of_nat w :: 32 word) = int w" "sint (word_of_nat f :: 32 word) = int f"
    using assms(2,3) by (simp_all add: int32_of_nat)
  then have "0 < f \<Longrightarrow> (word_of_nat f :: 32 word) \<noteq> 0" by force
  with i assms show ?thesis
    by (auto simp: failClusterDestinationCounts_def markAllClusterReady_def Let_def wp_rules
        statusUpdate_ClusterProjection_def counts_ok_def cp_staged_conditions [OF assms(1)]
        split: prod.splits sum.splits)
qed

text \<open>
  C14: the status of a fan-out over fewer than \<open>2 ^ 31\<close> targets is exact: the two counts, read as the signed
  32-bit integers they are, are not negative and add up to the number of targets, and the
  conditions say success exactly when the failure count is zero.
\<close>

theorem cluster_status_counts_exact:
  fixes s :: "'w sys"
  assumes "lib_ok (library D)" and "length targets < 2 ^ 31"
  shows "wp (cluster_Reconcile_targets D sched cp gvr g v src targets) (\<lambda>_ t. \<exists>cs cp' r.
    calls t = calls s @ cs @ [StatusUpdateClusterProjection cp' r] \<and>
    counts_ok (length targets) (cp_Status cp')) s"
proof -
  let ?Q = "\<lambda>_ t. \<exists>cs cp' r. calls t = calls s @ cs @ [StatusUpdateClusterProjection cp' r] \<and>
    counts_ok (length targets) (cp_Status cp')"
  let ?finish = "\<lambda>w f msg. if f > 0 then failClusterDestinationCounts D cp v ''DestinationWriteFailed'' msg
        (word_of_nat w) (word_of_nat f)
      else State_Monad.bind (markAllClusterReady D cp v (word_of_nat w)) (\<lambda>err.
        State_Monad.return (Result_empty, err))"
  have rest: "wp (State_Monad.bind (cleanupStaleClusterDestinations D cp gvr targets) (\<lambda>_.
      State_Monad.bind (ensureClusterDestWatch D g) (\<lambda>_. ?finish w f msg))) ?Q t"
    if t: "calls t = calls s @ cs" and wf: "w + f = length targets" for t cs w f msg
  proof (intro quiet_then quiet_rules)
    fix u :: "'w sys" and u' cs1 cs2
    assume u: "calls u = calls u' @ cs2" and u': "calls u' = calls t @ cs1"
    show "wp (?finish w f msg) ?Q u"
      by (rule wp_mono [OF terminal_counts [OF assms(1) wf assms(2)]])
        (use t u u' in \<open>auto intro!: exI [of _ "cs @ cs1 @ cs2"]\<close>)
  qed
  have "wp (fanOut D sched cp src targets) (\<lambda>r t. (case r of (w, f, msgs) \<Rightarrow> \<lambda>t.
      w + f = length targets \<and> fset (fmdom msgs) \<subseteq> set targets \<and> (f = 0 \<longleftrightarrow> msgs = fmempty) \<and>
      (distinct targets \<longrightarrow> fcard (fmdom msgs) = f)) t \<and>
      (\<exists>cs. calls t = calls s @ cs \<and> list_all (\<lambda>c. status_write c = None) cs) \<and>
      reconcileTotal t = reconcileTotal s) s"
    using fanOut_counts [of D sched cp src targets s]
      quiet_calls_only [OF quiet_fanOut [of D sched cp src targets], of s]
    by (simp only: wp_conj)
  then show ?thesis
    unfolding cluster_Reconcile_targets_def wp_bind [of "fanOut D sched cp src targets"]
  proof (rule wp_mono)
    fix r :: "nat \<times> nat \<times> str_map" and t :: "'w sys"
    assume *: "(case r of (w, f, msgs) \<Rightarrow> \<lambda>t.
        w + f = length targets \<and> fset (fmdom msgs) \<subseteq> set targets \<and> (f = 0 \<longleftrightarrow> msgs = fmempty) \<and>
        (distinct targets \<longrightarrow> fcard (fmdom msgs) = f)) t \<and>
      (\<exists>cs. calls t = calls s @ cs \<and> list_all (\<lambda>c. status_write c = None) cs) \<and>
      reconcileTotal t = reconcileTotal s"
    obtain w f msgs where r: "r = (w, f, msgs)" by (metis surj_pair)
    from * obtain cs where "calls t = calls s @ cs" by blast
    moreover from * r have "w + f = length targets" by simp
    ultimately show "wp (case r of (w, f, msgs) \<Rightarrow>
        State_Monad.bind (cleanupStaleClusterDestinations D cp gvr targets) (\<lambda>cleanupErr.
          State_Monad.bind (ensureClusterDestWatch D g) (\<lambda>watchErr.
            ?finish w f (summarizeFailures f msgs)))) ?Q t"
      unfolding r prod.case by (rule rest)
  qed
qed

theorem cluster_status_counts_exact_witness:
  "wp (cluster_Reconcile_targets sample_deps (\<lambda>_. 0) sample_clusterProjection
      (rm_Resource sample_mapping) (rm_GroupVersionKind sample_mapping) ''v1'' sample_source [''a'', ''b''])
    (\<lambda>_ t. \<exists>cs cp' r. calls t = calls sample_sys @ cs @ [StatusUpdateClusterProjection cp' r] \<and>
      counts_ok (length [''a'', ''b'']) (cp_Status cp')) sample_sys"
  by (rule cluster_status_counts_exact [OF sample_library_ok]) simp

end
