(* ===== verification/Namespace_Events.thy ===== *)
theory Namespace_Events
  imports Cluster_Props
begin














end
