(* ===== verification/Startup.thy ===== *)
theory Startup
  imports Namespace_Events
begin

text \<open>
  Start-up: \<^verbatim>\<open>SetupWithManager\<close> of the two reconcilers and \<^verbatim>\<open>cmd/main.go\<close>. The manager and what
  the process asks of it (field indexers, controllers, health checks, running) are parameters.
  The state keeps the two reconcilers, the event recorder of the \<^verbatim>\<open>ControllerDeps\<close> they share, and
  what was registered. Log lines have no effect and are left out; so are the lexing of the
  command line and the logger's own flags.
\<close>

section \<open>The manager\<close>

record controllerSpec =
  cs_Named :: "string option"
  cs_For :: string
  cs_WatchesNamespaces :: bool

record 'w manager =
  IndexField_Projection :: "string \<Rightarrow> (projection \<Rightarrow> string list) \<Rightarrow> 'w \<Rightarrow> error option \<times> 'w"
  IndexField_ClusterProjection ::
    "string \<Rightarrow> (clusterProjection \<Rightarrow> string list) \<Rightarrow> 'w \<Rightarrow> error option \<times> 'w"
  Build :: "controllerSpec \<Rightarrow> 'w \<Rightarrow> error option \<times> 'w"

record 'w startup =
  su_world :: 'w
  su_np :: projectionReconciler
  su_cpr :: clusterProjectionReconciler
  su_Recorder :: "string option"
  su_indexers :: "(string \<times> (projection \<Rightarrow> string list)) list"
  su_clusterIndexers :: "(string \<times> (clusterProjection \<Rightarrow> string list)) list"
  su_controllers :: "controllerSpec list"
  su_started :: bool

text \<open>Asking the manager: what succeeded is recorded.\<close>

definition ask ::
  "('w \<Rightarrow> error option \<times> 'w) \<Rightarrow> ('w startup \<Rightarrow> 'w startup) \<Rightarrow> ('w startup, error option) state" where
  "ask f noted = State (\<lambda>s. case f (su_world s) of
     (err, w) \<Rightarrow> (err, (if err = None then noted else id) (s\<lparr>su_world := w\<rparr>)))"

definition indexField_Projection ::
  "'w manager \<Rightarrow> string \<Rightarrow> (projection \<Rightarrow> string list) \<Rightarrow> ('w startup, error option) state" where
  "indexField_Projection M field f = ask (IndexField_Projection M field f)
     (\<lambda>s. s\<lparr>su_indexers := su_indexers s @ [(field, f)]\<rparr>)"

definition indexField_ClusterProjection ::
  "'w manager \<Rightarrow> string \<Rightarrow> (clusterProjection \<Rightarrow> string list) \<Rightarrow> ('w startup, error option) state" where
  "indexField_ClusterProjection M field f = ask (IndexField_ClusterProjection M field f)
     (\<lambda>s. s\<lparr>su_clusterIndexers := su_clusterIndexers s @ [(field, f)]\<rparr>)"

definition buildController :: "'w manager \<Rightarrow> controllerSpec \<Rightarrow> ('w startup, error option) state" where
  "buildController M c = ask (Build M c) (\<lambda>s. s\<lparr>su_controllers := su_controllers s @ [c]\<rparr>)"

section \<open>\<^verbatim>\<open>SetupWithManager\<close>\<close>

text \<open>\<^verbatim>\<open>time.Second\<close> in nanoseconds.\<close>

definition Second :: int where
  "Second = 1000000000"

definition SetupWithManager :: "'w manager \<Rightarrow> ('w startup, error option) state" where
  "SetupWithManager M = do {
     State_Monad.update (\<lambda>s. if pr_RequeueInterval (su_np s) = 0
       then s\<lparr>su_np := (su_np s)\<lparr>pr_RequeueInterval := 30 * Second\<rparr>\<rparr> else s);
     State_Monad.update (\<lambda>s. s\<lparr>su_np := (su_np s)\<lparr>pr_watched := Some fmempty,
       pr_watchedDests := Some fmempty\<rparr>\<rparr>);
     err \<leftarrow> indexField_Projection M sourceIndex (\<lambda>p. [sourceKey (ps_Source (p_Spec p))]);
     case err of
       Some e \<Rightarrow> State_Monad.return (Some (Wrap ''registering source field indexer'' e))
     | None \<Rightarrow> do {
         err \<leftarrow> indexField_Projection M uidIndex (\<lambda>p. [m_UID (p_ObjectMeta p)]);
         case err of
           Some e \<Rightarrow> State_Monad.return (Some (Wrap ''registering projection uid field indexer'' e))
         | None \<Rightarrow> do {
             err \<leftarrow> buildController M
               \<lparr>cs_Named = None, cs_For = ''Projection'', cs_WatchesNamespaces = False\<rparr>;
             case err of
               Some e \<Rightarrow> State_Monad.return (Some e)
             | None \<Rightarrow> do {
                 State_Monad.update (\<lambda>s. s\<lparr>su_np := (su_np s)\<lparr>pr_Controller := True, pr_Cache := True\<rparr>,
                   su_Recorder := Some ''projection-controller''\<rparr>);
                 State_Monad.return None
               }
           }
       }
   }"

definition cluster_SetupWithManager :: "'w manager \<Rightarrow> ('w startup, error option) state" where
  "cluster_SetupWithManager M = do {
     State_Monad.update (\<lambda>s. if cpr_RequeueInterval (su_cpr s) = 0
       then s\<lparr>su_cpr := (su_cpr s)\<lparr>cpr_RequeueInterval := 30 * Second\<rparr>\<rparr> else s);
     State_Monad.update (\<lambda>s. if cpr_SelectorWriteConcurrency (su_cpr s) \<le> 0
       then s\<lparr>su_cpr := (su_cpr s)\<lparr>cpr_SelectorWriteConcurrency := 16\<rparr>\<rparr> else s);
     State_Monad.update (\<lambda>s. s\<lparr>su_cpr := (su_cpr s)\<lparr>cpr_watchedDests := Some fmempty,
       cpr_watched := Some fmempty\<rparr>\<rparr>);
     err \<leftarrow> indexField_ClusterProjection M clusterSourceIndex
       (\<lambda>cp. [sourceKey (cps_Source (cp_Spec cp))]);
     case err of
       Some e \<Rightarrow> State_Monad.return
         (Some (Wrap ''registering cluster-projection source field indexer'' e))
     | None \<Rightarrow> do {
         err \<leftarrow> indexField_ClusterProjection M uidIndex (\<lambda>cp. [m_UID (cp_ObjectMeta cp)]);
         case err of
           Some e \<Rightarrow> State_Monad.return
             (Some (Wrap ''registering cluster-projection uid field indexer'' e))
         | None \<Rightarrow> do {
             err \<leftarrow> buildController M \<lparr>cs_Named = Some ''clusterprojection'',
               cs_For = ''ClusterProjection'', cs_WatchesNamespaces = True\<rparr>;
             case err of
               Some e \<Rightarrow> State_Monad.return (Some e)
             | None \<Rightarrow> do {
                 State_Monad.update (\<lambda>s. s\<lparr>su_cpr := (su_cpr s)\<lparr>cpr_Controller := True,
                   cpr_Cache := True\<rparr>\<rparr>);
                 State_Monad.update (\<lambda>s. if su_Recorder s = None
                   then s\<lparr>su_Recorder := Some ''cluster-projection-controller''\<rparr> else s);
                 State_Monad.return None
               }
           }
       }
   }"

section \<open>\<^verbatim>\<open>cmd/main.go\<close>: flags\<close>

record runtimeConfig =
  metricsAddr :: string
  probeAddr :: string
  secureMetrics :: bool
  enableHTTP2 :: bool
  enableLeaderElection :: bool
  sourceModeFlag :: string
  requeueInterval :: int
  leaderElectionLeaseDuration :: int
  selectorWriteConcurrency :: int

text \<open>
  A flag is a typed setter of one field; a lexed argument is a flag name with its value. The flags of the
  logger are third-party: each is the test of the values that it accepts.
\<close>

datatype flag_value = StringVal string | BoolVal bool | DurationVal int | IntVal int

datatype flag =
    StringVar "string \<Rightarrow> runtimeConfig \<Rightarrow> runtimeConfig"
  | BoolVar "bool \<Rightarrow> runtimeConfig \<Rightarrow> runtimeConfig"
  | DurationVar "int \<Rightarrow> runtimeConfig \<Rightarrow> runtimeConfig"
  | IntVar "int \<Rightarrow> runtimeConfig \<Rightarrow> runtimeConfig"
  | OtherVar "flag_value \<Rightarrow> bool"

text \<open>\<^verbatim>\<open>bindFlags\<close>: the flag set, and the configuration with its defaults.\<close>

definition bindFlags :: "(string \<times> flag) list \<times> runtimeConfig" where
  "bindFlags =
     ([(''metrics-bind-address'', StringVar (\<lambda>v c. c\<lparr>metricsAddr := v\<rparr>)),
       (''health-probe-bind-address'', StringVar (\<lambda>v c. c\<lparr>probeAddr := v\<rparr>)),
       (''leader-elect'', BoolVar (\<lambda>v c. c\<lparr>enableLeaderElection := v\<rparr>)),
       (''metrics-secure'', BoolVar (\<lambda>v c. c\<lparr>secureMetrics := v\<rparr>)),
       (''enable-http2'', BoolVar (\<lambda>v c. c\<lparr>enableHTTP2 := v\<rparr>)),
       (''source-mode'', StringVar (\<lambda>v c. c\<lparr>sourceModeFlag := v\<rparr>)),
       (''requeue-interval'', DurationVar (\<lambda>v c. c\<lparr>requeueInterval := v\<rparr>)),
       (''leader-election-lease-duration'', DurationVar (\<lambda>v c. c\<lparr>leaderElectionLeaseDuration := v\<rparr>)),
       (''selector-write-concurrency'', IntVar (\<lambda>v c. c\<lparr>selectorWriteConcurrency := v\<rparr>))],
      \<lparr>metricsAddr = ''0'', probeAddr = '':8081'', secureMetrics = True, enableHTTP2 = False,
       enableLeaderElection = False, sourceModeFlag = ''allowlist'',
       requeueInterval = 30 * Second, leaderElectionLeaseDuration = 15 * Second,
       selectorWriteConcurrency = 16\<rparr>)"

text \<open>
  \<^verbatim>\<open>flag.Parse\<close> on lexed arguments: set in order. The first unknown flag or unacceptable value ends the
  process with status 2, a request for help with status 0.
\<close>

fun set_flag :: "flag \<Rightarrow> flag_value \<Rightarrow> runtimeConfig \<Rightarrow> runtimeConfig option" where
  "set_flag (StringVar f) (StringVal v) c = Some (f v c)"
| "set_flag (BoolVar f) (BoolVal v) c = Some (f v c)"
| "set_flag (DurationVar f) (DurationVal v) c = Some (f v c)"
| "set_flag (IntVar f) (IntVal v) c = Some (f v c)"
| "set_flag (OtherVar ok) v c = (if ok v then Some c else None)"
| "set_flag _ _ c = None"

fun parse_flags ::
  "(string \<times> flag) list \<Rightarrow> (string \<times> flag_value) list \<Rightarrow> runtimeConfig \<Rightarrow> nat + runtimeConfig" where
  "parse_flags fs [] c = Inr c"
| "parse_flags fs ((n, v) # args) c =
     (case map_of fs n of
        None \<Rightarrow> Inl (if n \<in> {''help'', ''h''} then 0 else 2)
      | Some f \<Rightarrow> (case set_flag f v c of None \<Rightarrow> Inl 2 | Some c' \<Rightarrow> parse_flags fs args c'))"

section \<open>\<^verbatim>\<open>cmd/main.go\<close>: main\<close>

text \<open>
  The options of the manager. The TLS options are a list of changes to the TLS configuration, each
  given by the protocols it leaves in \<^verbatim>\<open>NextProtos\<close>.
\<close>

record metricsOptions =
  mo_BindAddress :: string
  mo_SecureServing :: bool
  mo_TLSOpts :: "string list list"
  mo_FilterProvider :: "string option"

record managerOptions =
  mgo_Metrics :: metricsOptions
  mgo_HealthProbeBindAddress :: string
  mgo_LeaderElection :: bool
  mgo_LeaderElectionID :: string
  mgo_LeaseDuration :: int

definition main_options :: "runtimeConfig \<Rightarrow> managerOptions" where
  "main_options cfg =
     (let tlsOpts = [];
          tlsOpts = (if \<not> enableHTTP2 cfg then tlsOpts @ [[''http/1.1'']] else tlsOpts);
          metricsServerOptions = \<lparr>mo_BindAddress = metricsAddr cfg, mo_SecureServing = secureMetrics cfg,
            mo_TLSOpts = tlsOpts, mo_FilterProvider = None\<rparr>;
          metricsServerOptions = (if secureMetrics cfg
            then metricsServerOptions\<lparr>mo_FilterProvider := Some ''WithAuthenticationAndAuthorization''\<rparr>
            else metricsServerOptions)
      in \<lparr>mgo_Metrics = metricsServerOptions, mgo_HealthProbeBindAddress = probeAddr cfg,
          mgo_LeaderElection = enableLeaderElection cfg,
          mgo_LeaderElectionID = ''92777bdc.projection.sh'',
          mgo_LeaseDuration = leaderElectionLeaseDuration cfg\<rparr>)"

text \<open>What the process asks of the client libraries; running the manager may take over the state.\<close>

record 'w environment =
  loggerFlags :: "(string \<times> (flag_value \<Rightarrow> bool)) list"
  GetConfig :: "'w \<Rightarrow> error option \<times> 'w"
  NewManager :: "managerOptions \<Rightarrow> 'w \<Rightarrow> (error + 'w manager) \<times> 'w"
  NewDynamicClient :: "'w \<Rightarrow> error option \<times> 'w"
  AddHealthzCheck :: "string \<Rightarrow> 'w \<Rightarrow> error option \<times> 'w"
  AddReadyzCheck :: "string \<Rightarrow> 'w \<Rightarrow> error option \<times> 'w"
  Start :: "'w \<Rightarrow> error option \<times> 'w"

text \<open>The process ends with \<^verbatim>\<open>os.Exit\<close>, mostly with status 1 after logging a message, or main returns.\<close>

datatype exit_status = Exit nat | Exit1 string | Returned

definition or_exit ::
  "string \<Rightarrow> ('s, error option) state \<Rightarrow> ('s, exit_status) state \<Rightarrow> ('s, exit_status) state" where
  "or_exit msg m k = do {
     err \<leftarrow> m;
     case err of Some e \<Rightarrow> State_Monad.return (Exit1 msg) | None \<Rightarrow> k
   }"

definition main_sourceMode :: "string \<Rightarrow> string option" where
  "main_sourceMode flag =
     (if flag = SourceModePermissive then Some SourceModePermissive
      else if flag = SourceModeAllowlist then Some SourceModeAllowlist
      else None)"

text \<open>The health checks, and running the manager.\<close>

definition main_start :: "'w environment \<Rightarrow> ('w startup, exit_status) state" where
  "main_start E =
     or_exit ''unable to set up health check'' (ask (AddHealthzCheck E ''healthz'') id)
     (or_exit ''unable to set up ready check'' (ask (AddReadyzCheck E ''readyz'') id)
     (do {
        State_Monad.update (\<lambda>s. s\<lparr>su_started := True\<rparr>);
        or_exit ''problem running manager'' (ask (Start E) id) (State_Monad.return Returned)
      }))"

text \<open>The two reconcilers, on one \<^verbatim>\<open>ControllerDeps\<close>.\<close>

definition main_cluster ::
  "'w environment \<Rightarrow> runtimeConfig \<Rightarrow> 'w manager \<Rightarrow> string \<Rightarrow> ('w startup, exit_status) state" where
  "main_cluster E cfg M sourceMode = do {
     State_Monad.update (\<lambda>s. s\<lparr>su_cpr := \<lparr>cpr_SourceMode = sourceMode,
       cpr_RequeueInterval = requeueInterval cfg,
       cpr_SelectorWriteConcurrency = selectorWriteConcurrency cfg, cpr_Controller = False,
       cpr_Cache = False, cpr_watched = None, cpr_watchedDests = None\<rparr>\<rparr>);
     or_exit ''unable to create controller'' (cluster_SetupWithManager M) (main_start E)
   }"

definition main_controllers ::
  "'w environment \<Rightarrow> runtimeConfig \<Rightarrow> 'w manager \<Rightarrow> string \<Rightarrow> ('w startup, exit_status) state" where
  "main_controllers E cfg M sourceMode = do {
     State_Monad.update (\<lambda>s. s\<lparr>su_Recorder := None, su_np := \<lparr>pr_SourceMode = sourceMode,
       pr_RequeueInterval = requeueInterval cfg, pr_Controller = False, pr_Cache = False,
       pr_watched = None, pr_watchedDests = None\<rparr>\<rparr>);
     or_exit ''unable to create controller'' (SetupWithManager M) (main_cluster E cfg M sourceMode)
   }"

text \<open>From the manager on: the dynamic client, and the validation of the flags.\<close>

definition main_run ::
  "'w environment \<Rightarrow> runtimeConfig \<Rightarrow> 'w manager \<Rightarrow> ('w startup, exit_status) state" where
  "main_run E cfg M =
     or_exit ''unable to create dynamic client'' (ask (NewDynamicClient E) id)
     (case main_sourceMode (sourceModeFlag cfg) of
        None \<Rightarrow> State_Monad.return
          (Exit1 ''invalid --source-mode; must be \"permissive\" or \"allowlist\"'')
      | Some sourceMode \<Rightarrow>
          if selectorWriteConcurrency cfg \<le> 0
          then State_Monad.return (Exit1 ''invalid --selector-write-concurrency; must be > 0'')
          else main_controllers E cfg M sourceMode)"

text \<open>
  \<^verbatim>\<open>ctrl.GetConfigOrDie\<close> ends the process itself when there is no configuration to reach the API server.
\<close>

definition main_manager :: "'w environment \<Rightarrow> runtimeConfig \<Rightarrow> ('w startup, exit_status) state" where
  "main_manager E cfg =
     or_exit ''unable to get kubeconfig'' (ask (GetConfig E) id)
     (do {
       s \<leftarrow> State_Monad.get;
       (case NewManager E (main_options cfg) (su_world s) of
          (Inl e, w) \<Rightarrow> do {
            State_Monad.set (s\<lparr>su_world := w\<rparr>);
            State_Monad.return (Exit1 ''unable to start manager'')
          }
        | (Inr M, w) \<Rightarrow> do {
            State_Monad.set (s\<lparr>su_world := w\<rparr>);
            main_run E cfg M
          })
     })"

definition parsed_flags :: "'w environment \<Rightarrow> (string \<times> flag_value) list \<Rightarrow> nat + runtimeConfig" where
  "parsed_flags E args =
     (let (fs, cfg) = bindFlags
      in parse_flags (fs @ map (\<lambda>(n, ok). (n, OtherVar ok)) (loggerFlags E)) args cfg)"

definition main ::
  "'w environment \<Rightarrow> (string \<times> flag_value) list \<Rightarrow> ('w startup, exit_status) state" where
  "main E args = (case parsed_flags E args of
     Inl code \<Rightarrow> State_Monad.return (Exit code)
   | Inr cfg \<Rightarrow> main_manager E cfg)"

section \<open>What start-up establishes\<close>

lemma main_parsed: "parsed_flags E args = Inr cfg \<Longrightarrow> main E args = main_manager E cfg"
  by (simp add: main_def)

lemma wp_ask [wp_rules]:
  "wp (ask f g) Q s = (case f (su_world s) of
     (err, w) \<Rightarrow> Q err ((if err = None then g else id) (s\<lparr>su_world := w\<rparr>)))"
  by (simp add: ask_def wp_def split: prod.splits)

lemma wp_or_exit [wp_rules]:
  "wp (or_exit msg m k) Q s =
     wp m (\<lambda>err t. case err of Some e \<Rightarrow> Q (Exit1 msg) t | None \<Rightarrow> wp k Q t) s"
  unfolding or_exit_def wp_bind by (rule arg_cong [where f = "\<lambda>P. wp m P s"])
    (auto simp: wp_rules fun_eq_iff split: option.splits)

text \<open>The reconciler as it runs.\<close>

definition np_ready :: "string \<Rightarrow> int \<Rightarrow> projectionReconciler" where
  "np_ready mode interval = \<lparr>pr_SourceMode = mode,
     pr_RequeueInterval = (if interval = 0 then 30 * Second else interval), pr_Controller = True,
     pr_Cache = True, pr_watched = Some fmempty, pr_watchedDests = Some fmempty\<rparr>"

definition cpr_ready :: "string \<Rightarrow> int \<Rightarrow> int \<Rightarrow> clusterProjectionReconciler" where
  "cpr_ready mode interval concurrency = \<lparr>cpr_SourceMode = mode,
     cpr_RequeueInterval = (if interval = 0 then 30 * Second else interval),
     cpr_SelectorWriteConcurrency = (if concurrency \<le> 0 then 16 else concurrency),
     cpr_Controller = True, cpr_Cache = True, cpr_watched = Some fmempty,
     cpr_watchedDests = Some fmempty\<rparr>"

lemma SetupWithManager_wp:
  "wp (SetupWithManager M) (\<lambda>err t. err = None \<longrightarrow>
     su_np t = np_ready (pr_SourceMode (su_np s)) (pr_RequeueInterval (su_np s)) \<and>
     su_cpr t = su_cpr s \<and> su_Recorder t = Some ''projection-controller'' \<and>
     su_indexers t = su_indexers s @ [(sourceIndex, np_index sourceIndex), (uidIndex, np_index uidIndex)] \<and>
     su_clusterIndexers t = su_clusterIndexers s \<and> su_started t = su_started s) s"
  by (auto simp: SetupWithManager_def wp_rules indexField_Projection_def buildController_def np_ready_def
      np_index_def index_names index_names [symmetric] split: prod.splits option.splits)

lemma cluster_SetupWithManager_wp:
  "wp (cluster_SetupWithManager M) (\<lambda>err t. err = None \<longrightarrow>
     su_cpr t = cpr_ready (cpr_SourceMode (su_cpr s)) (cpr_RequeueInterval (su_cpr s))
       (cpr_SelectorWriteConcurrency (su_cpr s)) \<and>
     su_np t = su_np s \<and>
     su_Recorder t = (if su_Recorder s = None then Some ''cluster-projection-controller''
       else su_Recorder s) \<and>
     su_clusterIndexers t = su_clusterIndexers s @
       [(clusterSourceIndex, cp_index clusterSourceIndex), (uidIndex, cp_index uidIndex)] \<and>
     su_indexers t = su_indexers s \<and> su_started t = su_started s) s"
  by (auto simp: cluster_SetupWithManager_def wp_rules indexField_ClusterProjection_def
      buildController_def cpr_ready_def cp_index_def index_names index_names [symmetric]
      split: prod.splits option.splits)

text \<open>Neither set-up starts anything, whether or not it fails.\<close>

lemma setups_keep_started:
  "wp (SetupWithManager M) (\<lambda>err t. su_started t = su_started s) s"
  "wp (cluster_SetupWithManager M) (\<lambda>err t. su_started t = su_started s) s"
  by (auto simp: SetupWithManager_def cluster_SetupWithManager_def wp_rules indexField_Projection_def
      indexField_ClusterProjection_def buildController_def split: prod.splits option.splits)

text \<open>The state a running process starts from.\<close>

definition wired :: "runtimeConfig \<Rightarrow> 'w startup \<Rightarrow> bool" where
  "wired cfg s \<longleftrightarrow> sourceModeFlag cfg \<in> {SourceModePermissive, SourceModeAllowlist} \<and>
     0 < selectorWriteConcurrency cfg \<and>
     su_np s = np_ready (sourceModeFlag cfg) (requeueInterval cfg) \<and>
     su_cpr s = cpr_ready (sourceModeFlag cfg) (requeueInterval cfg) (selectorWriteConcurrency cfg) \<and>
     su_indexers s = [(sourceIndex, np_index sourceIndex), (uidIndex, np_index uidIndex)] \<and>
     su_clusterIndexers s =
       [(clusterSourceIndex, cp_index clusterSourceIndex), (uidIndex, cp_index uidIndex)] \<and>
     su_Recorder s = Some ''projection-controller''"

lemma main_start_wired:
  "wired cfg s \<Longrightarrow> wp (main_start E) (\<lambda>_ t. su_started t \<longrightarrow> wired cfg t) s"
  by (auto simp: main_start_def wp_rules wired_def split: prod.splits option.splits)

lemma or_exit_after:
  assumes "wp m (\<lambda>err t. err = None \<longrightarrow> wp k Q t) s" and "wp m (\<lambda>err t. err \<noteq> None \<longrightarrow> Q (Exit1 msg) t) s"
  shows "wp (or_exit msg m k) Q s"
proof -
  from assms have "wp m (\<lambda>err t. (err = None \<longrightarrow> wp k Q t) \<and> (err \<noteq> None \<longrightarrow> Q (Exit1 msg) t)) s"
    by (simp add: wp_conj)
  then show ?thesis unfolding wp_or_exit by (rule wp_mono) (auto split: option.splits)
qed

lemma main_cluster_wired:
  assumes "\<not> su_started s" "su_np s = np_ready mode (requeueInterval cfg)" "mode = sourceModeFlag cfg"
    "mode \<in> {SourceModePermissive, SourceModeAllowlist}" "0 < selectorWriteConcurrency cfg"
    "su_Recorder s = Some ''projection-controller''" "su_clusterIndexers s = []"
    "su_indexers s = [(sourceIndex, np_index sourceIndex), (uidIndex, np_index uidIndex)]"
  shows "wp (main_cluster E cfg M mode) (\<lambda>_ t. su_started t \<longrightarrow> wired cfg t) s"
  unfolding main_cluster_def wp_bind wp_update
  by (rule or_exit_after; rule wp_mono [OF cluster_SetupWithManager_wp] wp_mono [OF setups_keep_started(2)])
    (use assms in \<open>auto intro!: main_start_wired wired_def [THEN iffD2]\<close>)

lemma main_controllers_wired:
  assumes "\<not> su_started s" "su_indexers s = []" "su_clusterIndexers s = []" "mode = sourceModeFlag cfg"
    "mode \<in> {SourceModePermissive, SourceModeAllowlist}" "0 < selectorWriteConcurrency cfg"
  shows "wp (main_controllers E cfg M mode) (\<lambda>_ t. su_started t \<longrightarrow> wired cfg t) s"
  unfolding main_controllers_def wp_bind wp_update
  by (rule or_exit_after; rule wp_mono [OF SetupWithManager_wp] wp_mono [OF setups_keep_started(1)])
    (use assms in \<open>simp_all add: main_cluster_wired\<close>)

lemma main_run_wired:
  assumes "\<not> su_started s" "su_indexers s = []" "su_clusterIndexers s = []"
  shows "wp (main_run E cfg M) (\<lambda>_ t. su_started t \<longrightarrow> wired cfg t) s"
  using assms
  by (auto simp: main_run_def main_sourceMode_def wp_rules split: prod.splits option.splits
      intro!: main_controllers_wired)

text \<open>
  C38: a process that gets as far as running its manager has parsed its flags and is wired as the
  controllers assume: the mode is one of the two, the same for both reconcilers; the fan-out
  concurrency is positive and a requeue interval of zero has become 30 seconds; both controllers
  and caches are there, the watch maps are empty and not nil; the four field indexers are
  registered with the index functions that the event mapping relies on; and both reconcilers
  record their events under the name of the first.
\<close>

theorem main_wires_controllers:
  assumes "\<not> su_started s" and "su_indexers s = []" and "su_clusterIndexers s = []"
  shows "wp (main E args) (\<lambda>_ t. su_started t \<longrightarrow>
    (\<exists>cfg. parsed_flags E args = Inr cfg \<and> wired cfg t)) s"
  using assms
  by (auto simp: main_def main_manager_def wp_rules split: prod.splits sum.splits option.splits
      intro!: main_run_wired)

definition sample_env :: "unit environment" where
  "sample_env = \<lparr>loggerFlags = [(''zap-devel'', \<lambda>v. case v of BoolVal _ \<Rightarrow> True | _ \<Rightarrow> False)],
     GetConfig = (\<lambda>w. (None, w)), NewManager = (\<lambda>opts w. (Inr \<lparr>IndexField_Projection = (\<lambda>f g w. (None, w)),
       IndexField_ClusterProjection = (\<lambda>f g w. (None, w)), Build = (\<lambda>c w. (None, w))\<rparr>, w)),
     NewDynamicClient = (\<lambda>w. (None, w)), AddHealthzCheck = (\<lambda>n w. (None, w)),
     AddReadyzCheck = (\<lambda>n w. (None, w)), Start = (\<lambda>w. (None, w))\<rparr>"

definition sample_args :: "(string \<times> flag_value) list" where
  "sample_args = [(''source-mode'', StringVal ''permissive''), (''zap-devel'', BoolVal False),
     (''requeue-interval'', DurationVal 0)]"

definition sample_config :: runtimeConfig where
  "sample_config = (snd bindFlags)\<lparr>sourceModeFlag := ''permissive'', requeueInterval := 0\<rparr>"

lemma sample_parsed: "parsed_flags sample_env sample_args = Inr sample_config"
  by (simp add: parsed_flags_def bindFlags_def sample_env_def sample_args_def sample_config_def)

definition sample_startup :: "unit startup" where
  "sample_startup = \<lparr>su_world = (), su_np = sample_np, su_cpr = sample_cpr, su_Recorder = None,
     su_indexers = [], su_clusterIndexers = [], su_controllers = [], su_started = False\<rparr>"

text \<open>On a manager that does what it is asked, the process does run.\<close>

lemma sample_main_runs:
  "wp (main sample_env sample_args) (\<lambda>r t. r = Returned \<and> su_started t) sample_startup"
  unfolding main_parsed [OF sample_parsed]
  by (simp add: main_manager_def main_run_def main_controllers_def
      main_cluster_def main_start_def sample_env_def sample_startup_def sample_config_def bindFlags_def
      main_sourceMode_def SourceModeAllowlist_def SourceModePermissive_def SetupWithManager_def
      cluster_SetupWithManager_def indexField_Projection_def indexField_ClusterProjection_def
      buildController_def wp_rules)

theorem main_wires_controllers_witness:
  "wp (main sample_env sample_args) (\<lambda>r t. r = Returned \<and> wired sample_config t) sample_startup"
proof -
  have "wp (main sample_env sample_args) (\<lambda>_ t. su_started t \<longrightarrow>
      (\<exists>cfg. parsed_flags sample_env sample_args = Inr cfg \<and> wired cfg t)) sample_startup"
    by (rule main_wires_controllers) (simp_all add: sample_startup_def)
  with sample_main_runs show ?thesis by (auto simp: wp_def sample_parsed split: prod.splits)
qed

text \<open>
  C39: with a source mode that is neither permissive nor allowlist, or a fan-out concurrency that is not
  positive, the process exits with status 1 before it registers anything: no indexer, no
  controller, and the manager is not run.
\<close>

theorem main_refuses_bad_flags:
  assumes "parsed_flags E args = Inr cfg"
    and "sourceModeFlag cfg \<notin> {''permissive'', ''allowlist''} \<or> selectorWriteConcurrency cfg \<le> 0"
  shows "wp (main E args) (\<lambda>r t. (\<exists>msg. r = Exit1 msg) \<and> (\<exists>w. t = s\<lparr>su_world := w\<rparr>)) s"
  using assms(2)
  by (auto simp: main_parsed [OF assms(1)] main_manager_def main_run_def main_sourceMode_def
      SourceModePermissive_def SourceModeAllowlist_def wp_rules
      split: prod.splits sum.splits option.splits)

theorem main_refuses_bad_flags_witness:
  "wp (main sample_env [(''selector-write-concurrency'', IntVal 0)])
     (\<lambda>r t. (\<exists>msg. r = Exit1 msg) \<and> (\<exists>w. t = sample_startup\<lparr>su_world := w\<rparr>)) sample_startup"
proof (rule main_refuses_bad_flags)
  show "parsed_flags sample_env [(''selector-write-concurrency'', IntVal 0)] =
      Inr ((snd bindFlags)\<lparr>selectorWriteConcurrency := 0\<rparr>)"
    by (simp add: parsed_flags_def bindFlags_def sample_env_def)
qed simp

end
