(* ===== verification/Process.thy ===== *)
theory Process
  imports Startup
begin

text \<open>
  The running process: from the state that start-up wires, the manager's controllers run
  reconciles of either tier on any request and map events to requests, in any order. Each is
  one step; what other clients do to the cluster meanwhile is the world's business, since its
  answers are arbitrary. The invariants of the process state hold in every reachable state.
\<close>

section \<open>The steps\<close>

definition process_start :: "'w startup \<Rightarrow> 'w sys" where
  "process_start u = \<lparr>world = su_world u, calls = [], np = su_np u, cpr = su_cpr u,
     reconcileTotal = (\<lambda>_. 0), watchedGvks = 0, watchedDestGvks = 0, e2eSeconds = []\<rparr>"

datatype 'w job =
    ReconcileProjection objectKey
  | ReconcileClusterProjection "'w pool \<Rightarrow> nat" string
  | SourceEvent eventObj
  | ClusterSourceEvent eventObj
  | DestEvent eventObj
  | ClusterDestEvent eventObj
  | NamespaceEvent eventObj

definition run_job :: "'w deps \<Rightarrow> 'w job \<Rightarrow> ('w, unit) action" where
  "run_job D j = (case j of
     ReconcileProjection req \<Rightarrow> do { r \<leftarrow> Reconcile D req; State_Monad.return () }
   | ReconcileClusterProjection sched req \<Rightarrow>
       do { r \<leftarrow> cluster_Reconcile sched D req; State_Monad.return () }
   | SourceEvent ev \<Rightarrow> do { reqs \<leftarrow> mapSource D ev; State_Monad.return () }
   | ClusterSourceEvent ev \<Rightarrow> do { reqs \<leftarrow> cluster_mapSource D ev; State_Monad.return () }
   | DestEvent ev \<Rightarrow>
       do { reqs \<leftarrow> destWatch_handler (enqueueByUID D) ownedByUIDLabel ev; State_Monad.return () }
   | ClusterDestEvent ev \<Rightarrow>
       do { reqs \<leftarrow> destWatch_handler (cluster_enqueueByUID D) ownedByClusterUIDLabel ev;
            State_Monad.return () }
   | NamespaceEvent ev \<Rightarrow> do { reqs \<leftarrow> mapNamespace D ev; State_Monad.return () })"

inductive process_step :: "'w deps \<Rightarrow> 'w sys \<Rightarrow> 'w sys \<Rightarrow> bool" for D where
  job: "run_state (run_job D j) s = ((), t) \<Longrightarrow> process_step D s t"

inductive reachable :: "'w deps \<Rightarrow> 'w sys \<Rightarrow> 'w sys \<Rightarrow> bool" for D s where
  start: "reachable D s s"
| step: "reachable D s t \<Longrightarrow> process_step D t u \<Longrightarrow> reachable D s u"

inductive_cases process_stepE: "process_step D s t"

lemma reachable_invariant:
  assumes "reachable D s t" and "I s" and "\<And>j. keeps I (run_job D j)"
  shows "I t"
  using assms(1,2)
proof (induction rule: reachable.induct)
  case (step t u)
  then have "I t" by simp
  from step.hyps(2) obtain j where "run_state (run_job D j) t = ((), u)" by (rule process_stepE)
  with keepsD [OF assms(3) [of j] \<open>I t\<close>] show ?case by simp
qed

lemma step_of_job: "process_step D s (snd (run_state (run_job D j) s))"
  by (rule process_step.job [where j = j]) (cases "run_state (run_job D j) s", simp)

section \<open>Watches\<close>

lemma keeps_watch_resolve [keeps_rules]:
  "keeps watch_inv (resolveGVR D src)" "keeps watch_inv (resolveTargetNamespaces D cp)"
  "keeps watch_inv (checkSourceProjectable D x)" "keeps watch_inv (cluster_checkSourceProjectable D x)"
  unfolding resolveGVR_def resolveTargetNamespaces_def checkSourceProjectable_def
    cluster_checkSourceProjectable_def Let_def
  by (intro keeps_rules)+

lemma keeps_watch_terminal [keeps_rules]:
  "keeps watch_inv (failSource D p r a m)" "keeps watch_inv (failDestination D p v r m)"
  "keeps watch_inv (markAllReady D p v)" "keeps watch_inv (failClusterSource D c r a m)"
  "keeps watch_inv (failClusterDestination D c v r m)"
  "keeps watch_inv (failClusterDestinationCounts D c v r m w f)"
  "keeps watch_inv (markAllClusterReady D c v w)"
  unfolding terminal_defs Let_def by (intro keeps_rules)+

lemma keeps_watch_write [keeps_rules]:
  "keeps watch_inv (writeDestination D proj source)"
  "keeps watch_inv (writeClusterDestination_switch D cp source ns r)"
  unfolding writeDestination_def writeClusterDestination_switch_def Let_def by (intro keeps_rules)+

lemma keeps_watch_sweep [keeps_rules]:
  "keeps watch_inv (deleteAllOwnedDestinations_loop D proj gvr owner items e)"
  "keeps watch_inv (deleteClusterOwnedDestinations_loop D cp gvr keep owner items e)"
  by (induction items arbitrary: e) (auto simp: Let_def intro!: keeps_rules)

lemma keeps_watch_cleanup [keeps_rules]:
  "keeps watch_inv (deleteAllOwnedDestinations D proj gvr)"
  "keeps watch_inv (deleteClusterOwnedDestinations D cp gvr keep)"
  "keeps watch_inv (deleteOneDestination D proj gvr ns name)"
  unfolding deleteAllOwnedDestinations_def deleteClusterOwnedDestinations_def deleteOneDestination_def
    Let_def
  by (intro keeps_rules)+

lemma keeps_watch_reconcile_parts [keeps_rules]:
  "keeps watch_inv (deleteDestination D proj)" "keeps watch_inv (deleteClusterDestination D cp)"
  "keeps watch_inv (deleteAllClusterOwnedDestinations D cp gvr)"
  "keeps watch_inv (cleanupStaleClusterDestinations D cp gvr targets)"
  unfolding deleteDestination_def deleteClusterDestination_def deleteAllClusterOwnedDestinations_def
    cleanupStaleClusterDestinations_def Let_def
  by (intro keeps_rules)+

lemma keeps_watch_finalizers [keeps_rules]:
  "keeps watch_inv (handleDeletion D proj)" "keeps watch_inv (ensureFinalizer D proj)"
  "keeps watch_inv (handleClusterDeletion D cp)" "keeps watch_inv (ensureClusterFinalizer D cp)"
  unfolding handleDeletion_def ensureFinalizer_def handleClusterDeletion_def
    ensureClusterFinalizer_def Let_def
  by (intro keeps_rules)+

lemma keeps_watch_fanOut [keeps_rules]: "keeps watch_inv (fanOut D sched cp src targets)"
  by (intro fanOut_keeps keeps_rules)

lemma keeps_watch_Reconcile: "keeps watch_inv (Reconcile D req)"
  unfolding Reconcile_def Reconcile_live_def Reconcile_fetched_def handleSourceFetchError_def Let_def
  by (intro keeps_rules)

lemma keeps_watch_cluster_Reconcile: "keeps watch_inv (cluster_Reconcile sched D req)"
  unfolding cluster_Reconcile_def cluster_Reconcile_live_def cluster_Reconcile_fetched_def
    cluster_Reconcile_targets_def handleClusterSourceFetchError_def Let_def
  by (intro keeps_rules)

lemma keeps_watch_events [keeps_rules]:
  "keeps watch_inv (mapSource D ev)" "keeps watch_inv (cluster_mapSource D ev)"
  "keeps watch_inv (enqueueByUID D uid)" "keeps watch_inv (cluster_enqueueByUID D uid)"
  "keeps watch_inv (mapNamespace D ev)"
  unfolding mapSource_def cluster_mapSource_def enqueueByUID_def cluster_enqueueByUID_def
    mapNamespace_def Let_def
  by (intro keeps_rules)+

lemma keeps_watch_handler:
  "(\<And>uid. keeps watch_inv (enqueue uid)) \<Longrightarrow> keeps watch_inv (destWatch_handler enqueue lbl ev)"
  unfolding destWatch_handler_def Let_def by (intro keeps_rules)

lemma keeps_watch_job: "keeps watch_inv (run_job D j)"
  unfolding run_job_def
  by (cases j) (auto intro!: keeps_rules keeps_watch_Reconcile keeps_watch_cluster_Reconcile
      keeps_watch_handler)

lemma watch_inv_start:
  "wired cfg u \<Longrightarrow> watch_inv (process_start u)"
  by (simp add: wired_def process_start_def watch_inv_def np_ready_def cpr_ready_def remembers_def)

text \<open>
  C15: in every state the process can reach, whatever reconciles and events it has handled: each reconciler
  has registered at most one source watch and at most one destination watch per kind, its maps
  remember exactly the kinds registered successfully, so that a failed registration is tried
  again, and the two gauges count exactly these registrations.
\<close>

theorem process_watches_exact:
  assumes "wired cfg u" and "reachable D (process_start u) t"
  shows "watch_inv t"
  using assms(2) watch_inv_start [OF assms(1)] keeps_watch_job by (rule reachable_invariant)

definition sample_wired :: "unit startup" where
  "sample_wired = sample_startup\<lparr>su_np := np_ready ''allowlist'' 0, su_cpr := cpr_ready ''allowlist'' 0 16,
     su_indexers := [(sourceIndex, np_index sourceIndex), (uidIndex, np_index uidIndex)],
     su_clusterIndexers :=
       [(clusterSourceIndex, cp_index clusterSourceIndex), (uidIndex, cp_index uidIndex)],
     su_Recorder := Some ''projection-controller''\<rparr>"

lemma sample_wired_ok: "wired ((snd bindFlags)\<lparr>requeueInterval := 0\<rparr>) sample_wired"
  by (simp add: wired_def sample_wired_def bindFlags_def SourceModeAllowlist_def)

theorem process_watches_exact_witness:
  "watch_inv (snd (run_state (run_job sample_deps (ReconcileProjection
     \<lparr>ok_Namespace = ''tenant'', ok_Name = ''mirror''\<rparr>)) (process_start sample_wired)))"
  by (rule process_watches_exact [OF sample_wired_ok reachable.step [OF reachable.start]])
    (rule step_of_job)

section \<open>The reconcile counter\<close>

text \<open>
  What the counter should count: every status update, except that of a success whose update
  failed, which will be retried.
\<close>

definition counted :: "call \<Rightarrow> bool" where
  "counted c \<longleftrightarrow> (case status_write c of
     None \<Rightarrow> False | Some (conds, rejected) \<Rightarrow> \<not> (rejected \<and> all_ready conds))"

definition reconcile_series :: "(string \<times> string) list" where
  "reconcile_series = List.product [kindProjection, kindClusterProjection]
     [resultSuccess, resultConflict, resultSourceError, resultDestinationError]"

definition total_reconciles :: "'w sys \<Rightarrow> nat" where
  "total_reconciles s = sum_list (map (reconcileTotal s) reconcile_series)"

definition counter_inv :: "'w sys \<Rightarrow> bool" where
  "counter_inv s \<longleftrightarrow> total_reconciles s = length (filter counted (calls s)) \<and>
     (\<forall>k. k \<notin> set reconcile_series \<longrightarrow> reconcileTotal s k = 0)"

lemma all_ready_bucket:
  assumes "outcome_ok conds bucket"
  shows "all_ready conds \<longleftrightarrow> bucket = resultSuccess"
  using assms
  by (auto simp: outcome_ok_def all_ready_def source_failed_def destination_failed_def cond_of_def
      metric_labels)

lemma sum_series_incr:
  "distinct ks \<Longrightarrow> k \<in> set ks \<Longrightarrow>
   sum_list (map (f(k := Suc (f k))) ks) = Suc (sum_list (map f ks))"
  by (induction ks) (auto simp: map_idI)

lemma reconcile_series_distinct: "distinct reconcile_series"
  by (simp add: reconcile_series_def metric_labels)

lemma counter_finished:
  assumes fin: "finished kind s t err" and kind: "kind \<in> {kindProjection, kindClusterProjection}"
    and inv: "counter_inv s"
  shows "counter_inv t"
proof -
  from fin obtain before final conds rejected bucket where
    c: "calls t = calls s @ before @ [final]" "list_all (\<lambda>c. status_write c = None) before"
      "status_write final = Some (conds, rejected)" and ok: "outcome_ok conds bucket"
    and r: "reconcileTotal t = (if rejected \<and> bucket = resultSuccess then reconcileTotal s
        else (reconcileTotal s)((kind, bucket) := Suc (reconcileTotal s (kind, bucket))))"
    unfolding finished_def by blast
  have k: "(kind, bucket) \<in> set reconcile_series"
    using kind ok by (auto simp: reconcile_series_def outcome_ok_def)
  have "filter counted before = []"
    using c(2) by (auto simp: filter_empty_conv list_all_iff counted_def)
  moreover have "counted final \<longleftrightarrow> \<not> (rejected \<and> bucket = resultSuccess)"
    using c(3) all_ready_bucket [OF ok] by (auto simp: counted_def)
  ultimately show ?thesis
    using inv k sum_series_incr [OF reconcile_series_distinct k, of "reconcileTotal s"]
    by (auto simp: counter_inv_def total_reconciles_def c(1) r)
qed

lemma counter_quiet:
  assumes "counter_inv s" "calls t = calls s @ cs" "list_all (\<lambda>c. status_write c = None) cs"
    "reconcileTotal t = reconcileTotal s"
  shows "counter_inv t"
proof -
  have "filter counted cs = []"
    using assms(3) by (auto simp: filter_empty_conv list_all_iff counted_def)
  with assms show ?thesis by (simp add: counter_inv_def total_reconciles_def)
qed

lemma keeps_counter_quiet: "quiet m \<Longrightarrow> keeps counter_inv m"
  by (intro keepsI wp_mono [OF quiet_calls_only]) (auto intro: counter_quiet)

lemma keeps_counter_Reconcile:
  assumes "lib_ok (library D)"
  shows "keeps counter_inv (Reconcile D req)"
  by (intro keepsI wp_mono [OF np_rec.reconcile_outcome [OF assms]])
    (auto simp: np_rec.outcome_def intro: counter_finished counter_quiet)

lemma keeps_counter_cluster_Reconcile:
  assumes "lib_ok (library D)"
  shows "keeps counter_inv (cluster_Reconcile sched D req)"
  by (intro keepsI wp_mono [OF cp_rec.reconcile_outcome [OF assms]])
    (auto simp: cp_rec.outcome_def intro: counter_finished counter_quiet)

lemma quiet_events:
  "quiet (mapSource D ev)" "quiet (cluster_mapSource D ev)"
  "quiet (destWatch_handler (enqueueByUID D) lbl ev)"
  "quiet (destWatch_handler (cluster_enqueueByUID D) lbl ev)" "quiet (mapNamespace D ev)"
  unfolding mapSource_def cluster_mapSource_def enqueueByUID_def cluster_enqueueByUID_def
    destWatch_handler_def mapNamespace_def Let_def
  by (intro quiet_rules)+

lemma keeps_counter_job:
  assumes "lib_ok (library D)"
  shows "keeps counter_inv (run_job D j)"
  unfolding run_job_def
  by (cases j) (auto intro!: keeps_bind keeps_return keeps_counter_Reconcile [OF assms]
      keeps_counter_cluster_Reconcile [OF assms] keeps_counter_quiet [OF quiet_events(1)]
      keeps_counter_quiet [OF quiet_events(2)] keeps_counter_quiet [OF quiet_events(3)]
      keeps_counter_quiet [OF quiet_events(4)] keeps_counter_quiet [OF quiet_events(5)])

text \<open>
  C16: the reconcile counter accounts for the status updates: in every state the process can reach, the
  eight series of \<^verbatim>\<open>projection_reconcile_total\<close> add up to the number of status updates made, not
  counting a success whose update failed, and there is no other series.
\<close>

theorem process_counter_accounts:
  assumes "lib_ok (library D)" and "wired cfg u" and "reachable D (process_start u) t"
  shows "total_reconciles t = length (filter counted (calls t)) \<and>
    {k. reconcileTotal t k \<noteq> 0} \<subseteq> set reconcile_series"
proof -
  have "counter_inv (process_start u)"
    by (simp add: counter_inv_def process_start_def total_reconciles_def reconcile_series_def)
  with assms(3) have "counter_inv t"
    by (rule reachable_invariant) (rule keeps_counter_job [OF assms(1)])
  then have inv: "total_reconciles t = length (filter counted (calls t))"
      "\<forall>k. k \<notin> set reconcile_series \<longrightarrow> reconcileTotal t k = 0"
    unfolding counter_inv_def by (rule conjunct1, rule conjunct2)
  have "k \<in> set reconcile_series" if "reconcileTotal t k \<noteq> 0" for k
    using inv(2) that by metis
  with inv(1) show ?thesis by (intro conjI subsetI) simp_all
qed

theorem process_counter_accounts_witness:
  "let t = snd (run_state (run_job sample_deps (ReconcileProjection
       \<lparr>ok_Namespace = ''tenant'', ok_Name = ''mirror''\<rparr>)) (process_start sample_wired))
   in total_reconciles t = length (filter counted (calls t)) \<and>
     {k. reconcileTotal t k \<noteq> 0} \<subseteq> set reconcile_series"
  unfolding Let_def
  by (rule process_counter_accounts [OF sample_library_ok sample_wired_ok
        reachable.step [OF reachable.start step_of_job]])

end
