(* ===== verification/Json_Paths.thy ===== *)
theory Json_Paths
  imports Write_Props
begin

text \<open>
  Setting nested fields along paths that part ways: such settings commute and do not disturb
  each other, so that the fields the API server allocates can be filled in any number of
  times with the same result.
\<close>

section \<open>Paths that part\<close>

lemma fmupd_upd [simp]: "fmupd k a (fmupd k b m) = fmupd k a m"
  by (rule fmap_ext) simp

lemma fmupd_same: "fmlookup m k = Some v \<Longrightarrow> fmupd k v m = m"
  by (rule fmap_ext) auto

lemma set_path_nonempty: "p \<noteq> [] \<Longrightarrow> set_path p v fmempty \<noteq> fmempty"
proof -
  assume "p \<noteq> []"
  then have "fmlookup (set_path p v fmempty) (hd p) \<noteq> None"
    by (cases "(p, v, fmempty :: obj)" rule: set_path.cases) auto
  then show "set_path p v fmempty \<noteq> fmempty" by auto
qed

lemma get_path_empty [simp]: "p \<noteq> [] \<Longrightarrow> get_path p fmempty = None"
  by (cases "(p, fmempty :: obj)" rule: get_path.cases) auto

lemma get_path_set_path_apart: "apart p q \<Longrightarrow> get_path p (set_path q v x) = get_path p x"
proof (induction p arbitrary: q x)
  case (Cons a p)
  then obtain b q' where q: "q = b # q'" by (cases q) auto
  show ?case
  proof (cases "a = b")
    case True
    with Cons.prems q have ap: "apart p q'" by simp
    then obtain c p' d q'' where pq: "p = c # p'" "q' = d # q''" by (cases p; cases q') auto
    have "get_path p (set_path q' v fmempty) = None" using Cons.IH [OF ap, of fmempty] pq by simp
    with Cons.IH [OF ap] True show ?thesis
      by (auto simp: q pq split: option.splits json.splits)
  next
    case False
    then have "fmlookup (set_path q v x) a = fmlookup x a" by (simp add: q)
    then show ?thesis by (cases p) auto
  qed
qed simp

lemma set_path_twice: "set_path p v (set_path p w x) = set_path p v x"
  by (induction p w x rule: set_path.induct) (auto split: option.splits json.splits)

lemma set_path_takes:
  "p \<noteq> [] \<Longrightarrow> get_path p (set_path p v x) = Some v \<or> set_path p v x = x"
proof (induction p v x rule: set_path.induct)
  case (3 k k' ks v x)
  show ?case
  proof (cases "fmlookup x k")
    case None
    with 3(1) [OF None] set_path_nonempty [of "k' # ks" v] show ?thesis by simp
  next
    case (Some j)
    with 3 show ?thesis by (cases j) (auto simp: fmupd_same)
  qed
qed auto

text \<open>One step of the descent: what the field at the head of the path becomes, if anything.\<close>

definition step_field :: "string list \<Rightarrow> json \<Rightarrow> json option \<Rightarrow> json option" where
  "step_field p v j = (if p = [] then Some v else case j of
     None \<Rightarrow> Some (JObject (set_path p v fmempty))
   | Some (JObject m) \<Rightarrow> Some (JObject (set_path p v m))
   | Some _ \<Rightarrow> None)"

lemma set_path_Cons: "set_path (a # p) v x =
    (case step_field p v (fmlookup x a) of None \<Rightarrow> x | Some j \<Rightarrow> fmupd a j x)"
  by (cases p) (auto simp: step_field_def split: option.splits json.splits)

lemma set_path_commute: "apart p q \<Longrightarrow> set_path p v (set_path q w x) = set_path q w (set_path p v x)"
proof (induction p arbitrary: q x)
  case (Cons a p)
  then obtain b q' where q: "q = b # q'" by (cases q) auto
  show ?case
  proof (cases "a = b")
    case True
    with Cons.prems q have ap: "apart p q'" by simp
    then have "p \<noteq> []" "q' \<noteq> []" by auto
    with Cons.IH [OF ap] True show ?thesis
      by (cases "fmlookup x a") (auto simp: q set_path_Cons step_field_def split: json.splits)
  next
    case False
    have other: "fmlookup (set_path (c # r) u y) d = fmlookup y d" if "c \<noteq> d" for c d r u y
      using that by simp
    show ?thesis
      unfolding q set_path_Cons [of a p] set_path_Cons [of b q']
      using False by (auto split: option.split simp: fmupd_reorder_neq)
  qed
qed simp

section \<open>Filling in allocated fields\<close>

lemma allocated_Nil [simp]: "allocated alloc [] x = x"
  by (simp add: allocated_def)

lemma allocated_Cons [simp]: "allocated alloc (p # ps) x =
    allocated alloc ps (case alloc p of None \<Rightarrow> x | Some v \<Rightarrow> set_path p v x)"
  by (simp add: allocated_def)

lemma allocated_commute:
  "list_all (apart p) ps \<Longrightarrow> allocated alloc ps (set_path p v x) = set_path p v (allocated alloc ps x)"
proof (induction ps arbitrary: x)
  case (Cons q ps)
  then have "set_path q w (set_path p v y) = set_path p v (set_path q w y)" for w y
    using set_path_commute [of p q v w y] by simp
  with Cons show ?case by (auto split: option.splits)
qed simp

lemma get_path_allocated:
  "list_all (apart p) ps \<Longrightarrow> get_path p (allocated alloc ps x) = get_path p x"
  by (induction ps arbitrary: x) (auto simp: get_path_set_path_apart split: option.splits)

definition parting :: "string list list \<Rightarrow> bool" where
  "parting ps \<longleftrightarrow> sorted_wrt apart ps \<and> list_all (\<lambda>p. p \<noteq> []) ps"

lemma dropped_paths_part: "parting (droppedSpecFieldsByGVK g)"
  by (simp add: parting_def droppedSpecFieldsByGVK_def)

text \<open>
  An earlier filling is overwritten by a later one, if the later one has a value wherever the
  earlier one took effect.
\<close>

lemma allocated_twice:
  assumes "parting ps"
    and "\<And>p. p \<in> set ps \<Longrightarrow> alloc p = None \<Longrightarrow> get_path p (allocated old ps x) = None"
  shows "allocated alloc ps (allocated old ps x) = allocated alloc ps x"
  using assms
proof (induction ps arbitrary: x)
  case (Cons p ps)
  then have p: "p \<noteq> []" "list_all (apart p) ps" and ps: "parting ps"
    by (simp_all add: parting_def list_all_iff)
  let ?x = "case old p of None \<Rightarrow> x | Some w \<Rightarrow> set_path p w x"
  have rest: "get_path q (allocated old ps ?x) = None" if "q \<in> set ps" "alloc q = None" for q
    using Cons.prems(2) [of q] that by simp
  have q_p: "apart q p" if "q \<in> set ps" for q
    using that p(2) by (auto simp: list_all_iff intro: apart_sym)
  show ?case
  proof (cases "alloc p")
    case None
    then have "get_path p ?x = None"
      using Cons.prems(2) [of p] get_path_allocated [OF p(2), of old ?x] by simp
    then have "?x = x" using set_path_takes [OF p(1)] by (cases "old p") force+
    with None Cons.IH [OF ps, of x] rest show ?thesis by simp
  next
    case (Some v)
    have base: "set_path p v (allocated old ps ?x) = allocated old ps (set_path p v x)"
      by (simp add: allocated_commute [OF p(2), symmetric] set_path_twice split: option.split)
    have "get_path q (allocated old ps (set_path p v x)) = None" if "q \<in> set ps" "alloc q = None" for q
      using rest [OF that] get_path_set_path_apart [OF q_p [OF that(1)]]
      by (simp add: base [symmetric])
    from Cons.IH [OF ps this] Some base show ?thesis by simp
  qed
qed simp

end
