(* ===== verification/Convergence.thy ===== *)
theory Convergence
  imports Process Json_Paths
begin

text \<open>
  What a write does to the cluster. A destination is, to the controller, one of four things:
  absent, someone else's, its own but stale, or in sync. The abstract specification of a write is
  a step between these; the two write functions refine it over any API server that stores
  what it accepts, and change no other object. In particular a write that succeeds leaves the
  destination in sync, and a second one then changes nothing.
\<close>

section \<open>An update that took effect is in sync\<close>

lemma set_path_field_cong:
  assumes "fmlookup x (hd p) = fmlookup y (hd p)" and "p \<noteq> []" and "fmlookup x k = fmlookup y k"
  shows "fmlookup (set_path p v x) k = fmlookup (set_path p v y) k"
  using assms by (cases p) (auto simp: set_path_Cons split: option.splits)

lemma allocated_field_cong:
  assumes "list_all (\<lambda>p. p \<noteq> [] \<and> hd p = f) ps" and "fmlookup x f = fmlookup y f"
    and "fmlookup x k = fmlookup y k"
  shows "fmlookup (allocated alloc ps x) k = fmlookup (allocated alloc ps y) k"
  using assms
proof (induction ps arbitrary: x y)
  case (Cons p ps)
  then have p: "p \<noteq> []" "hd p = f" "list_all (\<lambda>p. p \<noteq> [] \<and> hd p = f) ps" by simp_all
  show ?case
  proof (cases "alloc p")
    case None
    with Cons.IH [OF p(3) Cons.prems(2,3)] show ?thesis by simp
  next
    case (Some v)
    have "fmlookup (set_path p v x) j = fmlookup (set_path p v y) j"
      if "fmlookup x j = fmlookup y j" for j
      using Cons.prems(2) p(1,2) that by (intro set_path_field_cong) simp_all
    with Cons.IH [OF p(3), of "set_path p v x" "set_path p v y"] Cons.prems(2,3) Some
    show ?thesis by simp
  qed
qed simp

lemma get_path_field_cong:
  "p \<noteq> [] \<Longrightarrow> fmlookup x (hd p) = fmlookup y (hd p) \<Longrightarrow> get_path p x = get_path p y"
  by (cases "(p, x)" rule: get_path.cases) auto

lemma get_path_not_allocated:
  "parting ps \<Longrightarrow> p \<in> set ps \<Longrightarrow> alloc p = None \<Longrightarrow> get_path p (allocated alloc ps x) = get_path p x"
proof (induction ps arbitrary: x)
  case (Cons q ps)
  then have ps: "parting ps" and q: "list_all (apart q) ps" by (simp_all add: parting_def list_all_iff)
  show ?case
  proof (cases "p = q")
    case True
    with Cons.prems(3) q show ?thesis by (simp add: get_path_allocated)
  next
    case False
    with Cons.prems(2) have p: "p \<in> set ps" by simp
    with q have "apart p q" by (auto simp: list_all_iff intro: apart_sym)
    with Cons.IH [OF ps p Cons.prems(3)] show ?thesis
      by (simp add: get_path_set_path_apart split: option.split)
  qed
qed simp

lemma dropped_in_spec: "list_all (\<lambda>p. p \<noteq> [] \<and> hd p = ''spec'') (droppedSpecFieldsByGVK g)"
  using dropped_paths_in_spec by (auto simp: list_all_iff)

text \<open>
  The object that an update leaves behind agrees with the desired object, whatever was
  there before and whatever the server allocates.
\<close>

lemma updated_settled:
  fixes L x dst
  defines "sent \<equiv> SetResourceVersion L (preserveAPIServerAllocatedFields L x dst)
    (GetResourceVersion L x)"
  assumes ok: "lib_ok L" and m: "metadata_of dst = Some m" and stored: "stored_as L alloc sent y"
  shows "\<not> needsUpdate L y (preserveAPIServerAllocatedFields L y dst)"
proof -
  let ?ps = "droppedSpecFieldsByGVK (GroupVersionKind L dst)"
  let ?pre = "preserveAPIServerAllocatedFields L x dst" and ?old = "\<lambda>p. get_path p x"
  note facts = update_sent_facts [OF ok m, of x, folded sent_def]
  have pre: "?pre = allocated ?old ?ps dst" by (rule preserve_allocated [OF ok refl])
  have pm: "metadata_of ?pre = Some m" using ok m by (simp add: preserve_metadata)
  have same: "fmlookup sent k = fmlookup ?pre k" if "k \<noteq> ''metadata''" for k
    using that unfolding sent_def lib_setters(5) [OF ok pm] by (simp add: with_metadata_def)
  note st = stored [unfolded stored_as_def Let_def facts]
  from st have gp: "get_path p y = alloc p" if "p \<in> set ?ps" for p using that by blast
  from st have f: "fmlookup y k = fmlookup (allocated alloc ?ps sent) k"
    if "k \<noteq> ''metadata''" "k \<noteq> ''status''" for k using that by blast
  have f2: "fmlookup y k = fmlookup (allocated alloc ?ps (allocated ?old ?ps dst)) k"
    if "k \<noteq> ''metadata''" "k \<noteq> ''status''" for k
    unfolding f [OF that] pre [symmetric]
    by (rule allocated_field_cong [OF dropped_in_spec]) (simp_all add: same that)
  have gone: "get_path p (allocated ?old ?ps dst) = None" if p: "p \<in> set ?ps" "alloc p = None" for p
  proof -
    have hd: "p \<noteq> []" "hd p = ''spec''" using dropped_paths_in_spec [OF p(1)] by simp_all
    have "get_path p y = get_path p (allocated alloc ?ps (allocated ?old ?ps dst))"
      using hd f2 [of "''spec''"] by (intro get_path_field_cong) simp_all
    also have "\<dots> = get_path p (allocated ?old ?ps dst)"
      by (rule get_path_not_allocated [where alloc = alloc, OF dropped_paths_part p])
    finally show ?thesis using gp [OF p(1)] p(2) by simp
  qed
  have twice: "allocated alloc ?ps (allocated ?old ?ps dst) = allocated alloc ?ps dst"
    by (rule allocated_twice [OF dropped_paths_part gone])
  have q: "preserveAPIServerAllocatedFields L y dst = allocated alloc ?ps dst"
    using gp by (rule preserve_allocated [OF ok])
  have qm: "metadata_of (preserveAPIServerAllocatedFields L y dst) = Some m"
    using ok m by (simp add: preserve_metadata)
  have "GetLabels L y = GetLabels L (preserveAPIServerAllocatedFields L y dst)"
    "GetAnnotations L y = GetAnnotations L (preserveAPIServerAllocatedFields L y dst)"
    using st by (simp_all add: lib_getters [OF ok qm] lib_getters [OF ok m])
  moreover have "get_or_nil y k = get_or_nil (preserveAPIServerAllocatedFields L y dst) k"
    if "k \<noteq> ''metadata''" "k \<noteq> ''status''" for k
    unfolding get_or_nil_def q f2 [OF that] twice by (rule refl)
  ultimately show ?thesis unfolding needsUpdate_iff by blast
qed

section \<open>The API server\<close>

text \<open>
  A server that stores what it accepts: \<open>held\<close> is what it holds under a kind and key. A fetch returns
  what is held, says \<^verbatim>\<open>NotFound\<close> only if nothing is, and may fail otherwise; a create or update
  that is accepted stores the object (labels, annotations and payload as sent, allocated fields
  filled in), and one that is rejected stores nothing. Recording an event stores nothing.
\<close>

type_synonym 'w held_by = "'w \<Rightarrow> gvk \<times> objectKey \<Rightarrow> obj option"

definition id_of :: "lib \<Rightarrow> obj \<Rightarrow> gvk \<times> objectKey" where
  "id_of L x = (GroupVersionKind L x, key_of L x)"

definition fetch_ok ::
  "lib \<Rightarrow> 'w held_by \<Rightarrow> (gvk \<Rightarrow> objectKey \<Rightarrow> 'w \<Rightarrow> (error + obj) \<times> 'w) \<Rightarrow> bool" where
  "fetch_ok L held op \<longleftrightarrow> (\<forall>g k w. case op g k w of (r, w') \<Rightarrow> held w' = held w \<and>
     (case r of Inr x \<Rightarrow> held w (g, k) = Some x
      | Inl e \<Rightarrow> IsNotFound L e \<longrightarrow> held w (g, k) = None))"

definition store_ok :: "lib \<Rightarrow> 'w held_by \<Rightarrow> (obj \<Rightarrow> 'w \<Rightarrow> (error + obj) \<times> 'w) \<Rightarrow> bool" where
  "store_ok L held op \<longleftrightarrow> (\<forall>x w. case op x w of
     (Inl e, w') \<Rightarrow> held w' = held w
   | (Inr y, w') \<Rightarrow> held w' = (held w)(id_of L x \<mapsto> y) \<and> (\<exists>alloc. stored_as L alloc x y))"

definition server_ok :: "'w deps \<Rightarrow> 'w held_by \<Rightarrow> bool" where
  "server_ok D held \<longleftrightarrow> fetch_ok (library D) held (client_Get D) \<and>
     store_ok (library D) held (client_Create D) \<and> store_ok (library D) held (client_Update D) \<and>
     (\<forall>rec ev w. Recorder D = Some rec \<longrightarrow> held (rec ev w) = held w)"

lemma fetchD:
  assumes "fetch_ok L held op" "op g k w = (r, w')"
  shows "held w' = held w" and "r = Inr x \<Longrightarrow> held w (g, k) = Some x"
    and "r = Inl e \<Longrightarrow> IsNotFound L e \<Longrightarrow> held w (g, k) = None"
  using assms(1) [unfolded fetch_ok_def, THEN spec [of _ g], THEN spec [of _ k], THEN spec [of _ w]]
  by (simp_all add: assms(2))

lemma storeD:
  assumes "store_ok L held op" "op x w = (r, w')"
  shows "r = Inl e \<Longrightarrow> held w' = held w"
    and "r = Inr y \<Longrightarrow> held w' = (held w)(id_of L x \<mapsto> y) \<and> (\<exists>alloc. stored_as L alloc x y)"
  using assms(1) [unfolded store_ok_def, THEN spec [of _ x], THEN spec [of _ w]]
  by (simp_all add: assms(2))

lemma server_parts:
  assumes "server_ok D held"
  shows "fetch_ok (library D) held (client_Get D)" "store_ok (library D) held (client_Create D)"
    "store_ok (library D) held (client_Update D)"
    "Recorder D = Some rec \<Longrightarrow> held (rec ev w) = held w"
  using assms by (simp_all add: server_ok_def)

lemmas server_create = storeD [OF server_parts(2)]
lemmas server_update = storeD [OF server_parts(3)]
lemmas server_events = server_parts(4)

section \<open>The abstract write\<close>

datatype slot = Absent | Foreign | Stale | InSync

definition slot_of :: "lib \<Rightarrow> (obj \<Rightarrow> bool) \<Rightarrow> obj \<Rightarrow> obj option \<Rightarrow> slot" where
  "slot_of L owned dst found = (case found of
     None \<Rightarrow> Absent
   | Some y \<Rightarrow>
       if \<not> owned y then Foreign
       else if needsUpdate L y (preserveAPIServerAllocatedFields L y dst) then Stale else InSync)"

text \<open>\<open>slot_step a reason b\<close>: a write that finds \<open>a\<close> and ends with \<open>reason\<close> leaves \<open>b\<close>.\<close>

inductive slot_step :: "slot \<Rightarrow> string \<Rightarrow> slot \<Rightarrow> bool" where
  create: "slot_step Absent '''' InSync"
| create_rejected: "slot_step Absent ''DestinationCreateFailed'' Absent"
| update: "slot_step Stale '''' InSync"
| update_rejected: "slot_step Stale ''DestinationUpdateFailed'' Stale"
| in_sync: "slot_step InSync '''' InSync"
| conflict: "slot_step Foreign ''DestinationConflict'' Foreign"
| unreadable: "slot_step a ''DestinationFetchFailed'' a"

inductive_cases slot_step_success: "slot_step a '''' b"

lemma success_in_sync: "slot_step a '''' b \<Longrightarrow> b = InSync"
  by (auto elim: slot_step_success)

text \<open>A write refines the abstract step and leaves every other object alone.\<close>

definition slot_refines ::
  "lib \<Rightarrow> (obj \<Rightarrow> bool) \<Rightarrow> obj \<Rightarrow> (gvk \<times> objectKey \<Rightarrow> obj option) \<Rightarrow> string \<Rightarrow>
   (gvk \<times> objectKey \<Rightarrow> obj option) \<Rightarrow> bool" where
  "slot_refines L owned dst before reason after \<longleftrightarrow>
     slot_step (slot_of L owned dst (before (id_of L dst))) reason
       (slot_of L owned dst (after (id_of L dst))) \<and>
     (\<forall>i. i \<noteq> id_of L dst \<longrightarrow> after i = before i)"

text \<open>Emitting and observing store nothing.\<close>

lemma wp_emit_store:
  fixes D :: "'w deps"
  assumes "server_ok D held" and "\<And>t. held (world t) = held (world s) \<Longrightarrow> Q () t"
  shows "wp (emit D x ty r a msg) Q s"
  using assms(2) by (simp add: wp_emit Let_def server_events [OF assms(1)] split: option.splits)

context destination_writer
begin

lemma stored_owned:
  assumes "stored_as L alloc x y" and "t_owned T L x c"
  shows "t_owned T L y c"
  using assms by (simp add: owned_eq annotation_def stored_as_def Let_def)

lemma finish_refines:
  fixes D :: "'w deps" and s :: "'w sys"
  assumes ok: "lib_ok (library D)" and m: "metadata_of source = Some m" and srv: "server_ok D held"
    and fetched: "case fetched of
        Inr x \<Rightarrow> held (world s) (id_of (library D) (t_build T (library D) source c ns)) = Some x
      | Inl e \<Rightarrow> IsNotFound (library D) e \<longrightarrow>
          held (world s) (id_of (library D) (t_build T (library D) source c ns)) = None"
  shows "wp (write_finish D T c source ns fetched) (\<lambda>(reason, msg) t.
    slot_refines (library D) (\<lambda>x. t_owned T (library D) x c) (t_build T (library D) source c ns)
      (held (world s)) reason (held (world t))) s"
proof -
  let ?L = "library D" and ?dst = "t_build T (library D) source c ns"
  let ?owned = "\<lambda>x. t_owned T ?L x c"
  obtain md where dm: "metadata_of ?dst = Some md" by (simp add: build_expand [OF ok m])
  note refines = slot_refines_def slot_of_def
  have stays: "slot_refines ?L ?owned ?dst (held (world s)) reason f"
    if "f = held (world s)"
      "slot_step (slot_of ?L ?owned ?dst (held (world s) (id_of ?L ?dst))) reason
        (slot_of ?L ?owned ?dst (held (world s) (id_of ?L ?dst)))" for reason f
    using that by (simp add: slot_refines_def)
  show ?thesis
  proof (cases fetched)
    case (Inl e)
    show ?thesis
    proof (cases "IsNotFound ?L e")
      case True
      with fetched Inl have none: "held (world s) (id_of ?L ?dst) = None" by simp
      obtain r w where r: "client_Create D ?dst (world s) = (r, w)" by fastforce
      have failed: "slot_refines ?L ?owned ?dst (held (world s)) ''DestinationCreateFailed'' f"
        if "f = held (world s)" for f
        using that none by (intro stays) (simp_all add: slot_of_def slot_step.create_rejected)
      have created: "slot_refines ?L ?owned ?dst (held (world s)) '''' f"
        if "r = Inr y" "f = held w" for y f
      proof -
        from server_create(2) [OF srv r that(1)] obtain alloc where
          w: "held w = (held (world s))(id_of ?L ?dst \<mapsto> y)" and st: "stored_as ?L alloc ?dst y" by blast
        have "slot_of ?L ?owned ?dst (Some y) = InSync"
          using stored_settled [OF ok dm st] stored_owned [OF st build_owned [OF ok m]]
          by (simp add: slot_of_def)
        then show ?thesis using w none that(2)
          by (simp add: slot_refines_def slot_of_def [of _ _ _ None] slot_step.create)
      qed
      show ?thesis
        using Inl True r failed created server_create(1) [OF srv r] server_events [OF srv]
        by (cases r) (auto simp: write_finish_def write_failed_def create_Object_def Let_def wp_rules
            split: option.splits)
    next
      case False
      with Inl show ?thesis
        using server_events [OF srv]
        by (auto simp: write_finish_def write_failed_def Let_def wp_rules slot_step.unreadable
            split: option.splits intro!: stays)
    qed
  next
    case (Inr x)
    with fetched have found: "held (world s) (id_of ?L ?dst) = Some x" by simp
    let ?pre = "preserveAPIServerAllocatedFields ?L x ?dst"
    let ?sent = "SetResourceVersion ?L ?pre (GetResourceVersion ?L x)"
    show ?thesis
    proof (cases "?owned x \<and> needsUpdate ?L x ?pre")
      case True
      then have stale: "slot_of ?L ?owned ?dst (Some x) = Stale" by (simp add: slot_of_def)
      obtain r w where r: "client_Update D ?sent (world s) = (r, w)" by fastforce
      have failed: "slot_refines ?L ?owned ?dst (held (world s)) ''DestinationUpdateFailed'' f"
        if "f = held (world s)" for f
        using that found stale by (intro stays) (simp_all add: slot_step.update_rejected)
      have updated: "slot_refines ?L ?owned ?dst (held (world s)) '''' f"
        if "r = Inr y" "f = held w" for y f
      proof -
        note facts = update_sent_facts [OF ok dm, of x]
        from server_update(2) [OF srv r that(1)] obtain alloc where
          w: "held w = (held (world s))(id_of ?L ?sent \<mapsto> y)" and st: "stored_as ?L alloc ?sent y" by blast
        have i: "id_of ?L ?sent = id_of ?L ?dst" by (simp add: id_of_def facts)
        have "?owned ?sent"
          using build_owned [OF ok m, of c ns] by (simp add: owned_eq annotation_def facts)
        then have "slot_of ?L ?owned ?dst (Some y) = InSync"
          using updated_settled [OF ok dm st] stored_owned [OF st] by (simp add: slot_of_def)
        then show ?thesis using w i found stale that(2)
          by (simp add: slot_refines_def slot_step.update)
      qed
      show ?thesis
        using Inr True r failed updated server_update(1) [OF srv r] server_events [OF srv]
        by (cases r) (auto simp: write_finish_def write_failed_def update_Object_def Let_def wp_rules
            split: option.splits)
    next
      case False
      then have slot: "slot_of ?L ?owned ?dst (Some x) = (if ?owned x then InSync else Foreign)"
        by (simp add: slot_of_def)
      with Inr False found show ?thesis
        using server_events [OF srv]
        by (auto simp: write_finish_def write_failed_def Let_def wp_rules slot_step.in_sync
            slot_step.conflict split: option.splits if_splits intro!: stays)
    qed
  qed
qed

end

context destination_writer
begin

lemma write_refines:
  fixes D :: "'w deps" and s :: "'w sys"
  assumes ok: "lib_ok (library D)" and m: "metadata_of source = Some m" and srv: "server_ok D held"
    and ns: "ns_ok c ns"
  shows "wp (write_op D c source ns) (\<lambda>(reason, msg) t.
    slot_refines (library D) (\<lambda>x. t_owned T (library D) x c) (t_build T (library D) source c ns)
      (held (world s)) reason (held (world t))) s"
proof -
  let ?dst = "t_build T (library D) source c ns"
  let ?g = "GroupVersionKind (library D) source"
  have i: "id_of (library D) ?dst = (?g, key_of (library D) ?dst)"
    by (simp add: id_of_def build_gvk [OF ok m])
  obtain r w where r: "client_Get D ?g (key_of (library D) ?dst) (world s) = (r, w)" by fastforce
  note f = fetchD [OF server_parts(1) [OF srv] r]
  let ?s = "s\<lparr>world := w, calls := calls s @ [GetObject ?g (key_of (library D) ?dst) r]\<rparr>"
  have "case r of Inr x \<Rightarrow> held (world ?s) (id_of (library D) ?dst) = Some x
      | Inl e \<Rightarrow> IsNotFound (library D) e \<longrightarrow> held (world ?s) (id_of (library D) ?dst) = None"
    using f by (auto simp: i split: sum.splits)
  from finish_refines [OF ok m srv this] f(1) show ?thesis
    by (simp add: write_eq [OF ns] write_template_def get_Object_def wp_rules r)
qed

lemma write_again:
  fixes D :: "'w deps" and t :: "'w sys"
  assumes ok: "lib_ok (library D)" and m: "metadata_of source = Some m" and srv: "server_ok D held"
    and ns: "ns_ok c ns"
    and sync: "slot_of (library D) (\<lambda>x. t_owned T (library D) x c) (t_build T (library D) source c ns)
      (held (world t) (id_of (library D) (t_build T (library D) source c ns))) = InSync"
  shows "wp (write_op D c source ns) (\<lambda>(reason, msg) u. \<exists>cs. calls u = calls t @ cs \<and>
    mutations cs = [] \<and> reason \<in> {'''', ''DestinationFetchFailed''}) t"
proof -
  let ?L = "library D" and ?dst = "t_build T (library D) source c ns"
  let ?g = "GroupVersionKind (library D) source"
  have i: "id_of (library D) ?dst = (?g, key_of (library D) ?dst)"
    by (simp add: id_of_def build_gvk [OF ok m])
  obtain r w where r: "client_Get D ?g (key_of ?L ?dst) (world t) = (r, w)" by fastforce
  note f = fetchD [OF server_parts(1) [OF srv] r]
  let ?t = "t\<lparr>world := w, calls := calls t @ [GetObject ?g (key_of ?L ?dst) r]\<rparr>"
  have none: "mutations cs = [] \<and> reason \<in> {'''', ''DestinationFetchFailed''}"
    if res: "write_result ?L (\<lambda>x. t_owned T ?L x c) ?dst r reason cs" for reason cs
  proof (cases r)
    case (Inl e)
    with f(3) sync have "\<not> IsNotFound ?L e" by (auto simp: i slot_of_def)
    with res Inl show ?thesis by (simp add: write_result_def)
  next
    case (Inr x)
    with f(2) sync have "t_owned T ?L x c" "\<not> needsUpdate ?L x (preserveAPIServerAllocatedFields ?L x ?dst)"
      by (auto simp: i slot_of_def split: if_splits)
    with res Inr show ?thesis by (simp add: write_result_def)
  qed
  have "wp (write_finish D T c source ns r) (\<lambda>(reason, msg) u. \<exists>cs. calls u = calls t @ cs \<and>
    mutations cs = [] \<and> reason \<in> {'''', ''DestinationFetchFailed''}) ?t"
    by (rule wp_mono [OF write_finish_result]) (auto dest!: none)
  then show ?thesis by (simp add: write_eq [OF ns] write_template_def get_Object_def wp_rules r)
qed

end

section \<open>A server in memory\<close>

text \<open>
  The assumption on the server can be met: a server that keeps a map and stores every object as it was
  sent.
\<close>

lemma set_path_same: "p \<noteq> [] \<Longrightarrow> get_path p x = Some v \<Longrightarrow> set_path p v x = x"
proof (induction p v x rule: set_path.induct)
  case (2 k v x)
  then show ?case by (auto intro!: fmap_ext)
next
  case (3 k k' ks v x)
  then show ?case by (auto intro!: fmap_ext split: option.splits json.splits)
qed simp

lemma allocated_same: "list_all (\<lambda>p. p \<noteq> []) ps \<Longrightarrow> allocated (\<lambda>p. get_path p x) ps x = x"
  unfolding allocated_def
  by (induction ps) (auto simp: set_path_same split: option.splits)

lemma stored_as_sent: "stored_as L (\<lambda>p. get_path p x) x x"
proof -
  have "list_all (\<lambda>p. p \<noteq> []) (droppedSpecFieldsByGVK (GroupVersionKind L x))"
    using dropped_in_spec [of "GroupVersionKind L x"] by (auto simp: list_all_iff)
  then show ?thesis by (simp add: stored_as_def Let_def allocated_same)
qed

type_synonym memory = "gvk \<times> objectKey \<Rightarrow> obj option"

definition memory_deps :: "memory deps" where
  "memory_deps = \<lparr>
     library = ref_lib,
     client_Get_Projection = (\<lambda>k w. (Inr sample_projection, w)),
     client_Update_Projection = (\<lambda>p w. (Inr p, w)),
     client_StatusUpdate_Projection = (\<lambda>p w. (Inr p, w)),
     client_List_Projection = (\<lambda>f v w. (Inr [sample_projection], w)),
     client_Get_ClusterProjection = (\<lambda>n w. (Inr sample_clusterProjection, w)),
     client_Update_ClusterProjection = (\<lambda>c w. (Inr c, w)),
     client_StatusUpdate_ClusterProjection = (\<lambda>c w. (Inr c, w)),
     client_List_ClusterProjection = (\<lambda>fv w. (Inr [sample_clusterProjection], w)),
     client_List_Namespace = (\<lambda>sel w. (Inr [], w)),
     client_Get = (\<lambda>g k w. (case w (g, k) of None \<Rightarrow> Inl NotFound | Some x \<Rightarrow> Inr x, w)),
     client_Create = (\<lambda>x w. if w (id_of ref_lib x) = None
        then (Inr x, w(id_of ref_lib x \<mapsto> x)) else (Inl (ApiError ''AlreadyExists'' ''exists''), w)),
     client_Update = (\<lambda>x w. if w (id_of ref_lib x) = None
        then (Inl NotFound, w) else (Inr x, w(id_of ref_lib x \<mapsto> x))),
     dyn_Get = (\<lambda>g ns n w. (Inr sample_source, w)),
     dyn_List = (\<lambda>g sel w. (Inr [], w)),
     dyn_Delete = (\<lambda>g ns n w. (None, w)),
     RESTMapping = (\<lambda>gk v w. (Inr sample_mapping, w)),
     Recorder = Some (\<lambda>ev w. w),
     controller_Watch = (\<lambda>t k g w. (None, w)),
     clock_Now = (\<lambda>w. 5)\<rparr>"

definition memory_sys :: "memory sys" where
  "memory_sys = \<lparr>world = (\<lambda>_. None), calls = [], np = sample_np, cpr = sample_cpr,
     reconcileTotal = (\<lambda>_. 0), watchedGvks = 0, watchedDestGvks = 0, e2eSeconds = []\<rparr>"

lemma memory_library: "library memory_deps = ref_lib"
  by (simp add: memory_deps_def)

lemma memory_library_ok: "lib_ok (library memory_deps)"
  by (simp add: memory_library ref_lib_ok)

lemma memory_server_ok: "server_ok memory_deps id"
  unfolding server_ok_def fetch_ok_def store_ok_def
  by (auto simp: memory_deps_def stored_as_sent intro: stored_as_sent split: option.splits)

lemma memory_source:
  "metadata_of sample_source = Some (the (metadata_of sample_source))"
  by (simp add: sample_source_metadata)

section \<open>The writes against the server\<close>

text \<open>
  C7: a write of either tier refines the abstract step: over any API server that stores what it accepts,
  the destination goes from absent or stale to in sync, stays in sync, or is left as it was with
  the reason that says why, someone else's object always is, and no other object changes.
\<close>

theorem writes_refine_slot_step:
  assumes "lib_ok (library D)" and "metadata_of source = Some m" and "server_ok D held"
  shows "wp (writeDestination D proj source) (\<lambda>(reason, msg) t.
      slot_refines (library D) (\<lambda>x. isOwnedBy (library D) x proj)
        (buildDestination (library D) source proj (m_Namespace (p_ObjectMeta proj)))
        (held (world s)) reason (held (world t))) s \<and>
    wp (writeClusterDestination D cp source ns) (\<lambda>(reason, msg) t.
      slot_refines (library D) (\<lambda>x. isOwnedByCluster (library D) x cp)
        (buildClusterDestination (library D) source cp ns)
        (held (world s)) reason (held (world t))) s"
  using np_writer.write_refines [OF assms refl, of proj s] cp_writer.write_refines [OF assms, of cp ns s]
  by simp

theorem writes_refine_slot_step_witness:
  "wp (writeDestination memory_deps sample_projection sample_source) (\<lambda>(reason, msg) t.
      slot_refines ref_lib (\<lambda>x. isOwnedBy ref_lib x sample_projection)
        (buildDestination ref_lib sample_source sample_projection ''tenant'')
        (world memory_sys) reason (world t)) memory_sys \<and>
    wp (writeClusterDestination memory_deps sample_clusterProjection sample_source ''a'') (\<lambda>(reason, msg) t.
      slot_refines ref_lib (\<lambda>x. isOwnedByCluster ref_lib x sample_clusterProjection)
        (buildClusterDestination ref_lib sample_source sample_clusterProjection ''a'')
        (world memory_sys) reason (world t)) memory_sys"
  using writes_refine_slot_step [OF memory_library_ok memory_source memory_server_ok,
      of sample_projection memory_sys sample_clusterProjection "''a''"]
  by (simp add: memory_library sample_projection_def sample_meta_def)

text \<open>
  Once a write has succeeded, writing again changes nothing: the next write of the same destination
  makes no mutating call, and fails at most because the fetch does.
\<close>

lemma successful_write_is_final:
  fixes D :: "'w deps" and s :: "'w sys"
  assumes "lib_ok (library D)" and "metadata_of source = Some m" and "server_ok D held"
  shows "wp (writeDestination D proj source) (\<lambda>(reason, msg) t. reason = '''' \<longrightarrow>
    wp (writeDestination D proj source) (\<lambda>(reason', msg') u. \<exists>cs. calls u = calls t @ cs \<and>
      filter mutates cs = [] \<and> reason' \<in> {'''', ''DestinationFetchFailed''}) t) s"
proof (rule wp_mono [OF np_writer.write_refines [OF assms refl, of proj s]])
  fix r :: "string \<times> string" and t :: "'w sys"
  obtain reason msg where r: "r = (reason, msg)" by fastforce
  let ?again = "wp (writeDestination D proj source) (\<lambda>(reason', msg') u. \<exists>cs. calls u = calls t @ cs \<and>
      filter mutates cs = [] \<and> reason' \<in> {'''', ''DestinationFetchFailed''}) t"
  assume "(case r of (reason, msg) \<Rightarrow> \<lambda>t. slot_refines (library D) (\<lambda>x. t_owned np_ops (library D) x proj)
    (t_build np_ops (library D) source proj (m_Namespace (p_ObjectMeta proj)))
    (held (world s)) reason (held (world t))) t"
  then have "reason = '''' \<Longrightarrow> ?again"
    by (intro np_writer.write_again [OF assms refl])
      (auto simp: r slot_refines_def dest: success_in_sync)
  then show "(case r of (reason, msg) \<Rightarrow> \<lambda>t. reason = '''' \<longrightarrow>
    wp (writeDestination D proj source) (\<lambda>(reason', msg') u. \<exists>cs. calls u = calls t @ cs \<and>
      filter mutates cs = [] \<and> reason' \<in> {'''', ''DestinationFetchFailed''}) t) t"
    by (simp add: r)
qed

lemma successful_write_is_final_example:
  "wp (writeDestination memory_deps sample_projection sample_source) (\<lambda>(reason, msg) t. reason = '''' \<longrightarrow>
    wp (writeDestination memory_deps sample_projection sample_source) (\<lambda>(reason', msg') u.
      \<exists>cs. calls u = calls t @ cs \<and> filter mutates cs = [] \<and>
        reason' \<in> {'''', ''DestinationFetchFailed''}) t) memory_sys"
  by (rule successful_write_is_final [OF memory_library_ok memory_source memory_server_ok])

end
