(* ===== verification/Completeness.thy ===== *)
theory Completeness
  imports Convergence
begin

text \<open>
  What the clean-up leaves behind. The trace properties say that a sweep attempts to delete every
  object it lists; here the listing and the deletion are given their meaning over the objects
  that live in the cluster, and the sweeps, the deletion of a resource and the stale clean-up are
  shown to leave no live destination that they should have removed, and to remove nothing else.
\<close>

section \<open>The live objects\<close>

text \<open>
  \<open>live w g\<close> are the objects of a resource that are not being deleted. A listing by label returns at
  least the live objects with that label; what else it returns has the label too and does not
  share a key with a live object. A deletion that is accepted takes the object under that key out
  of the live ones, at once or by marking it; one that fails changes nothing, and says
  \<^verbatim>\<open>NotFound\<close> only if no live object has the key. A fetch that finds nothing says the same.
  Other calls leave the live objects of the kind alone.
\<close>

type_synonym 'w live_by = "'w \<Rightarrow> gvr \<Rightarrow> obj set"

definition labelled :: "lib \<Rightarrow> string \<Rightarrow> string \<Rightarrow> obj \<Rightarrow> bool" where
  "labelled L lbl v x \<longleftrightarrow> fmlookup (nil_map (GetLabels L x)) lbl = Some v"

definition keyed :: "lib \<Rightarrow> string \<Rightarrow> string \<Rightarrow> obj \<Rightarrow> bool" where
  "keyed L ns n x \<longleftrightarrow> GetNamespace L x = ns \<and> GetName L x = n"

definition keys_agree :: "lib \<Rightarrow> obj set \<Rightarrow> obj \<Rightarrow> bool" where
  "keys_agree L xs y \<longleftrightarrow> (\<forall>x \<in> xs. keyed L (GetNamespace L x) (GetName L x) y \<longrightarrow> x = y)"

definition list_meets ::
  "lib \<Rightarrow> 'w live_by \<Rightarrow> (gvr \<Rightarrow> string \<Rightarrow> 'w \<Rightarrow> (error + obj list) \<times> 'w) \<Rightarrow> bool" where
  "list_meets L live op \<longleftrightarrow> (\<forall>g lbl v w.
     let (r, w') = op g (lbl @ ''='' @ v) w in
     lbl \<in> {ownedByUIDLabel, ownedByClusterUIDLabel} \<longrightarrow> live w' = live w \<and>
     (\<forall>items. r = Inr items \<longrightarrow> {x \<in> live w g. labelled L lbl v x} \<subseteq> set items \<and>
       list_all (\<lambda>y. labelled L lbl v y \<and> keys_agree L (live w g) y) items))"

definition delete_meets ::
  "lib \<Rightarrow> 'w live_by \<Rightarrow> (gvr \<Rightarrow> string \<Rightarrow> string \<Rightarrow> 'w \<Rightarrow> error option \<times> 'w) \<Rightarrow> bool" where
  "delete_meets L live op \<longleftrightarrow> (\<forall>g ns n w.
     let (r, w') = op g ns n w in
     (case r of
        None \<Rightarrow> live w' = (live w)(g := {x \<in> live w g. \<not> keyed L ns n x})
      | Some e \<Rightarrow> live w' = live w \<and> (IsNotFound L e \<longrightarrow> (\<forall>x \<in> live w g. \<not> keyed L ns n x))))"

definition get_meets ::
  "lib \<Rightarrow> 'w live_by \<Rightarrow> (gvr \<Rightarrow> string \<Rightarrow> string \<Rightarrow> 'w \<Rightarrow> (error + obj) \<times> 'w) \<Rightarrow> bool" where
  "get_meets L live op \<longleftrightarrow> (\<forall>g ns n w.
     let (r, w') = op g ns n w in live w' = live w \<and>
     (case r of
        Inr y \<Rightarrow> (\<forall>x \<in> live w g. keyed L ns n x \<longrightarrow> x = y)
      | Inl e \<Rightarrow> IsNotFound L e \<longrightarrow> (\<forall>x \<in> live w g. \<not> keyed L ns n x)))"

definition cluster_meets :: "'w deps \<Rightarrow> 'w live_by \<Rightarrow> bool" where
  "cluster_meets D live \<longleftrightarrow> list_meets (library D) live (dyn_List D) \<and>
     delete_meets (library D) live (dyn_Delete D) \<and> get_meets (library D) live (dyn_Get D) \<and>
     (\<forall>rec ev w. Recorder D = Some rec \<longrightarrow> live (rec ev w) = live w) \<and>
     (\<forall>k v w. live (snd (RESTMapping D k v w)) = live w) \<and>
     (\<forall>p w. live (snd (client_Update_Projection D p w)) = live w) \<and>
     (\<forall>c w. live (snd (client_Update_ClusterProjection D c w)) = live w)"

lemma listD:
  assumes "list_meets L live op" "op g (lbl @ ''='' @ v) w = (r, w')"
    "lbl \<in> {ownedByUIDLabel, ownedByClusterUIDLabel}"
  shows "live w' = live w"
    and "r = Inr items \<Longrightarrow> x \<in> live w g \<Longrightarrow> labelled L lbl v x \<Longrightarrow> x \<in> set items"
    and "r = Inr items \<Longrightarrow> y \<in> set items \<Longrightarrow> labelled L lbl v y \<and> keys_agree L (live w g) y"
proof -
  have *: "live w' = live w \<and>
     (\<forall>items. r = Inr items \<longrightarrow> {x \<in> live w g. labelled L lbl v x} \<subseteq> set items \<and>
       list_all (\<lambda>y. labelled L lbl v y \<and> keys_agree L (live w g) y) items)"
    using assms(1) [unfolded list_meets_def, THEN spec [of _ g], THEN spec [of _ lbl],
        THEN spec [of _ v], THEN spec [of _ w]]
    unfolding assms(2) Let_def prod.case by (rule mp [OF _ assms(3)])
  then show "live w' = live w"
    and "r = Inr items \<Longrightarrow> x \<in> live w g \<Longrightarrow> labelled L lbl v x \<Longrightarrow> x \<in> set items"
    and "r = Inr items \<Longrightarrow> y \<in> set items \<Longrightarrow> labelled L lbl v y \<and> keys_agree L (live w g) y"
    by (auto simp: list_all_iff)
qed

lemma deleteD:
  assumes "delete_meets L live op" "op g ns n w = (r, w')"
  shows "r = None \<Longrightarrow> live w' = (live w)(g := {x \<in> live w g. \<not> keyed L ns n x})"
    and "r = Some e \<Longrightarrow> live w' = live w"
    and "r = Some e \<Longrightarrow> IsNotFound L e \<Longrightarrow> {x \<in> live w g. \<not> keyed L ns n x} = live w g"
  using assms(1) [unfolded delete_meets_def, THEN spec [of _ g], THEN spec [of _ ns],
      THEN spec [of _ n], THEN spec [of _ w]]
  by (auto simp: assms(2))

lemma getD:
  assumes "get_meets L live op" "op g ns n w = (r, w')"
  shows "live w' = live w" and "r = Inr y \<Longrightarrow> x \<in> live w g \<Longrightarrow> keyed L ns n x \<Longrightarrow> x = y"
    and "r = Inl e \<Longrightarrow> IsNotFound L e \<Longrightarrow> x \<in> live w g \<Longrightarrow> \<not> keyed L ns n x"
  using assms(1) [unfolded get_meets_def, THEN spec [of _ g], THEN spec [of _ ns],
      THEN spec [of _ n], THEN spec [of _ w]]
  by (auto simp: assms(2))

lemma cluster_parts:
  assumes "cluster_meets D live"
  shows "list_meets (library D) live (dyn_List D)" "delete_meets (library D) live (dyn_Delete D)"
    "get_meets (library D) live (dyn_Get D)"
    "Recorder D = Some rec \<Longrightarrow> live (rec ev w) = live w"
    "RESTMapping D k v w = (m, w') \<Longrightarrow> live w' = live w"
    "client_Update_Projection D p w = (u, w') \<Longrightarrow> live w' = live w"
    "client_Update_ClusterProjection D c w = (u', w') \<Longrightarrow> live w' = live w"
  using assms [unfolded cluster_meets_def] by (simp_all, metis snd_conv, metis snd_conv, metis snd_conv)

section \<open>A sweep\<close>

text \<open>The live objects that share a key with a doomed item.\<close>

definition hit :: "lib \<Rightarrow> (obj \<Rightarrow> bool) \<Rightarrow> obj list \<Rightarrow> obj \<Rightarrow> bool" where
  "hit L doomed items x \<longleftrightarrow> list_ex (\<lambda>y. doomed y \<and> keyed L (GetNamespace L y) (GetName L y) x) items"

definition sweeps_from ::
  "gvr \<Rightarrow> (obj \<Rightarrow> bool) \<Rightarrow> error option \<Rightarrow> (gvr \<Rightarrow> obj set) \<Rightarrow> (gvr \<Rightarrow> obj set) \<Rightarrow> bool" where
  "sweeps_from g out r before after \<longleftrightarrow> (\<forall>h. h \<noteq> g \<longrightarrow> after h = before h) \<and>
     after g \<subseteq> before g \<and> {x \<in> before g. \<not> out x} \<subseteq> after g \<and>
     (r = None \<longrightarrow> after g = {x \<in> before g. \<not> out x})"

lemma sweep_keeps_error:
  "wp (sweep D reg g doomed items (Some e)) (\<lambda>r t. r \<noteq> None) s"
proof (induction items arbitrary: s)
  case (Cons x items)
  then show ?case
    by (auto simp: Let_def wp_rules dynamic_Delete_def split: option.splits prod.splits)
qed (simp add: wp_rules)

lemma sweep_leaves:
  fixes s :: "'w sys"
  assumes srv: "cluster_meets D live"
  shows "wp (sweep D reg g doomed items e) (\<lambda>r t. sweeps_from g
    (hit (library D) doomed items) r (live (world s)) (live (world t))) s"
proof (induction items arbitrary: e s)
  case Nil
  show ?case by (simp add: wp_rules sweeps_from_def hit_def)
next
  case (Cons x items)
  let ?L = "library D"
  note ev = cluster_parts(4) [OF srv]
  show ?case
  proof (cases "doomed x")
    case False
    with Cons [of e s] show ?thesis by (simp add: hit_def Let_def)
  next
    case True
    obtain r w where del: "dyn_Delete D g (GetNamespace ?L x) (GetName ?L x) (world s) = (r, w)"
      by fastforce
    note d = deleteD [OF cluster_parts(2) [OF srv] del]
    show ?thesis
    proof (cases "r \<noteq> None \<and> \<not> IsNotFound ?L (the r)")
      case failed: True
      then obtain err where r: "r = Some err" by auto
      let ?s = "s\<lparr>world := w, calls := calls s @ [DynDelete g (GetNamespace ?L x) (GetName ?L x) r]\<rparr>"
      let ?e = "if e = None then r else e"
      obtain e' where e': "?e = Some e'" using r by (cases e) auto
      have "wp (sweep D reg g doomed items ?e) (\<lambda>r t. sweeps_from g (hit ?L doomed items) r
          (live (world ?s)) (live (world t)) \<and> r \<noteq> None) ?s"
        unfolding wp_conj by (rule conjI [OF Cons]) (simp only: e' sweep_keeps_error)
      then have "wp (sweep D reg g doomed items ?e) (\<lambda>r t. sweeps_from g
          (hit ?L doomed (x # items)) r (live (world s)) (live (world t))) ?s"
        by (rule wp_mono) (auto simp: sweeps_from_def hit_def d(2) [OF r])
      with failed True show ?thesis by (simp add: wp_rules del dynamic_Delete_def Let_def)
    next
      case False
      then have w: "live w = (live (world s))(g := {y \<in> live (world s) g.
          \<not> keyed ?L (GetNamespace ?L x) (GetName ?L x) y})"
        using d by (cases r) auto
      have step: "wp (sweep D reg g doomed items e) (\<lambda>r t. sweeps_from g
          (hit ?L doomed (x # items)) r (live (world s)) (live (world t))) s'"
        if "live (world s') = live w" for s' :: "'w sys"
        by (rule wp_mono [OF Cons [of e s']]) (auto simp: sweeps_from_def hit_def that w True)
      from False True show ?thesis
        by (cases "Recorder D"; simp only: sweep.simps Let_def True simp_thms if_False wp_rules
              dynamic_Delete_def del prod.case option.case)
          (rule step, simp add: ev)+
    qed
  qed
qed

context sweeper
begin

text \<open>A sweep that succeeds removes exactly the live objects that are labelled and doomed.\<close>

lemma sweep_op_complete:
  fixes D :: "'w deps" and s :: "'w sys"
  assumes srv: "cluster_meets D live" and sel: "selector_of c = lbl @ ''='' @ v"
    and lbl: "lbl \<in> {ownedByUIDLabel, ownedByClusterUIDLabel}"
  shows "wp (sweep_op D c g) (\<lambda>r t. sweeps_from g
    (\<lambda>x. labelled (library D) lbl v x \<and> doomed (library D) c x) r
    (live (world s)) (live (world t))) s"
proof -
  let ?L = "library D"
  obtain listed w where l: "dyn_List D g (lbl @ ''='' @ v) (world s) = (listed, w)" by fastforce
  note ls = listD [OF cluster_parts(1) [OF srv] l lbl]
  show ?thesis
  proof (cases listed)
    case (Inl err)
    with l ls(1) show ?thesis
      by (simp add: sweep_op_eq dynamic_List_def wp_rules sel sweeps_from_def)
  next
    case (Inr items)
    let ?s = "s\<lparr>world := w, calls := calls s @ [DynList g (selector_of c) (Inr items)]\<rparr>"
    have hits: "hit ?L (doomed ?L c) items x \<longleftrightarrow> labelled ?L lbl v x \<and> doomed ?L c x"
      if x: "x \<in> live (world s) g" for x
    proof
      assume "hit ?L (doomed ?L c) items x"
      then obtain y where "y \<in> set items" "doomed ?L c y" "keyed ?L (GetNamespace ?L y) (GetName ?L y) x"
        by (auto simp: hit_def list_ex_iff)
      moreover from this x ls(3) [OF Inr] have "labelled ?L lbl v y" "x = y"
        by (auto simp: keys_agree_def keyed_def)
      ultimately show "labelled ?L lbl v x \<and> doomed ?L c x" by simp
    next
      assume "labelled ?L lbl v x \<and> doomed ?L c x"
      with ls(2) [OF Inr x] show "hit ?L (doomed ?L c) items x"
        by (auto simp: hit_def list_ex_iff keyed_def intro!: bexI [of _ x])
    qed
    have "wp (sweep D (regarding_of c) g (doomed ?L c) items None) (\<lambda>r t. sweeps_from g
        (\<lambda>x. labelled ?L lbl v x \<and> doomed ?L c x) r (live (world s)) (live (world t))) ?s"
      by (rule wp_mono [OF sweep_leaves [OF srv]]) (use hits ls(1) in \<open>auto simp: sweeps_from_def\<close>)
    with l Inr show ?thesis by (simp add: sweep_op_eq dynamic_List_def wp_rules sel)
  qed
qed

end

section \<open>Deleting one destination\<close>

lemma deleteOne_exact:
  fixes s :: "'w sys"
  assumes srv: "cluster_meets D live"
  shows "wp (deleteOneDestination D proj g ns n) (\<lambda>r t. r = None \<longrightarrow> live (world t) =
    (live (world s))(g := {x \<in> live (world s) g.
       \<not> (keyed (library D) ns n x \<and> isOwnedBy (library D) x proj)})) s"
proof -
  obtain got w where get: "dyn_Get D g ns n (world s) = (got, w)" by fastforce
  obtain r w' where del: "dyn_Delete D g ns n w = (r, w')" by fastforce
  note ev = cluster_parts(4) [OF srv]
  note f = getD [OF cluster_parts(3) [OF srv] get]
  note d = deleteD [OF cluster_parts(2) [OF srv] del]
  let ?L = "library D"
  have same: "(live (world s))(g := {x \<in> live (world s) g. P x}) = live (world s)"
    if "\<And>x. x \<in> live (world s) g \<Longrightarrow> P x" for P
    using that by (auto simp: fun_eq_iff)
  show ?thesis
  proof (cases got)
    case (Inl e)
    then show ?thesis
      using f(1) f(3) [of e]
      by (auto simp: deleteOneDestination_def dynamic_Get_def wp_rules get intro!: same [symmetric])
  next
    case (Inr y)
    have keyed_y: "x = y" if "x \<in> live (world s) g" "keyed ?L ns n x" for x
      using f(2) [OF Inr that] .
    show ?thesis
    proof (cases "isOwnedBy ?L y proj")
      case True
      have "{x \<in> live (world s) g. \<not> (keyed ?L ns n x \<and> isOwnedBy ?L x proj)} =
          {x \<in> live w g. \<not> keyed ?L ns n x}"
        using keyed_y True by (auto simp: f(1))
      moreover have "(live w)(g := live w g) = live w" by simp
      ultimately show ?thesis
        using True Inr d f(1)
        by (cases r) (auto simp: deleteOneDestination_def dynamic_Get_def dynamic_Delete_def wp_rules
            get del ev split: option.splits)
    next
      case False
      have "(live (world s))(g := {x \<in> live (world s) g. \<not> (keyed ?L ns n x \<and> isOwnedBy ?L x proj)}) =
          live (world s)"
        using keyed_y False by (intro same) auto
      with False Inr f(1) show ?thesis
        by (auto simp: deleteOneDestination_def dynamic_Get_def wp_rules get ev split: option.splits)
    qed
  qed
qed

section \<open>The properties\<close>

text \<open>
  C12: the sweeps are complete and exact. When the sweep of a Projection, or the stale sweep of a
  ClusterProjection, reports success, the live objects of the resource are the ones before,
  less exactly those that carry the owner's UID label and its annotation (and, for the
  stale sweep, lie outside the current targets); even a failed sweep removes nothing else, and
  no other resource is touched.
\<close>

theorem sweeps_are_complete:
  assumes "cluster_meets D live"
  shows "wp (deleteAllOwnedDestinations D proj g) (\<lambda>r t. sweeps_from g
      (\<lambda>x. labelled (library D) ownedByUIDLabel (m_UID (p_ObjectMeta proj)) x \<and>
        isOwnedBy (library D) x proj) r (live (world s)) (live (world t))) s \<and>
    wp (cleanupStaleClusterDestinations D cp g targets) (\<lambda>r t. sweeps_from g
      (\<lambda>x. labelled (library D) ownedByClusterUIDLabel (m_UID (cp_ObjectMeta cp)) x \<and>
        isOwnedByCluster (library D) x cp \<and> GetNamespace (library D) x \<notin> set targets) r
      (live (world s)) (live (world t))) s"
proof
  show "wp (deleteAllOwnedDestinations D proj g) (\<lambda>r t. sweeps_from g
      (\<lambda>x. labelled (library D) ownedByUIDLabel (m_UID (p_ObjectMeta proj)) x \<and>
        isOwnedBy (library D) x proj) r (live (world s)) (live (world t))) s"
    by (rule np_sweep.sweep_op_complete [OF assms]) (simp_all add: ownedByUIDSelector_def)
  have "fold insert targets {} = set targets" by (simp add: union_set_fold [symmetric])
  then have op: "cleanupStaleClusterDestinations D cp g targets =
      deleteClusterOwnedDestinations D cp g (Some (set targets))"
    by (simp add: cleanupStaleClusterDestinations_def)
  show "wp (cleanupStaleClusterDestinations D cp g targets) (\<lambda>r t. sweeps_from g
      (\<lambda>x. labelled (library D) ownedByClusterUIDLabel (m_UID (cp_ObjectMeta cp)) x \<and>
        isOwnedByCluster (library D) x cp \<and> GetNamespace (library D) x \<notin> set targets) r
      (live (world s)) (live (world t))) s"
    unfolding op
    using cp_sweep.sweep_op_complete [OF assms, of "(cp, Some (set targets))" ownedByClusterUIDLabel
        "m_UID (cp_ObjectMeta cp)" g s]
    by (simp add: ownedByClusterUIDSelector_def)
qed

text \<open>
  The clean-up of a deletion. If the source kind resolves, to the resource \<open>g\<close>, it takes the
  destinations away; if not, it does nothing and reports no error.
\<close>

definition resolves :: "'w deps \<Rightarrow> sourceRef \<Rightarrow> 'w \<Rightarrow> gvr \<Rightarrow> bool" where
  "resolves D src w g \<longleftrightarrow> (case fst (RESTMapping D \<lparr>gk_Group = sr_Group src, gk_Kind = sr_Kind src\<rparr>
       (if sr_Version src = '''' then None else Some (sr_Version src)) w) of
     Inl e \<Rightarrow> False | Inr m \<Rightarrow> rm_Scope m = RESTScopeNamespace \<and> rm_Resource m = g)"

text \<open>
  \<open>takes_away D src live w out w'\<close>: of the objects of the source kind that are live in \<open>w\<close>, exactly those
  that are \<open>out\<close> are not live in \<open>w'\<close>; of other kinds, none.
\<close>

definition takes_away ::
  "'w deps \<Rightarrow> sourceRef \<Rightarrow> 'w live_by \<Rightarrow> 'w \<Rightarrow> (obj \<Rightarrow> bool) \<Rightarrow> 'w \<Rightarrow> bool" where
  "takes_away D src live w out w' \<longleftrightarrow>
     (\<forall>g. resolves D src w g \<longrightarrow> live w' = (live w)(g := {x \<in> live w g. \<not> out x})) \<and>
     ((\<forall>g. \<not> resolves D src w g) \<longrightarrow> live w' = live w)"

lemma deleteDestination_exact:
  fixes s :: "'w sys"
  assumes srv: "cluster_meets D live"
  shows "wp (deleteDestination D proj) (\<lambda>r t. r = None \<longrightarrow>
    takes_away D (ps_Source (p_Spec proj)) live (world s)
      (\<lambda>x. keyed (library D) (fst (destinationCoords proj)) (snd (destinationCoords proj)) x \<and>
         isOwnedBy (library D) x proj) (world t)) s"
  using cluster_parts(5) [OF srv]
  by (auto simp: deleteDestination_def wp_rules wp_resolveGVR resolves_def takes_away_def Let_def
      split: prod.splits sum.splits intro!: wp_mono [OF deleteOne_exact [OF srv]])

lemma deleteClusterDestination_exact:
  fixes s :: "'w sys"
  assumes srv: "cluster_meets D live"
  shows "wp (deleteClusterDestination D cp) (\<lambda>r t. r = None \<longrightarrow>
    takes_away D (cps_Source (cp_Spec cp)) live (world s)
      (\<lambda>x. labelled (library D) ownedByClusterUIDLabel (m_UID (cp_ObjectMeta cp)) x \<and>
         isOwnedByCluster (library D) x cp) (world t)) s"
proof -
  have swept: "wp (deleteClusterOwnedDestinations D cp g None) (\<lambda>r t. r = None \<longrightarrow> live (world t) =
      (live (world s'))(g := {x \<in> live (world s') g.
        \<not> (labelled (library D) ownedByClusterUIDLabel (m_UID (cp_ObjectMeta cp)) x \<and>
           isOwnedByCluster (library D) x cp)})) s'" for g and s' :: "'w sys"
  proof -
    have "wp (deleteClusterOwnedDestinations D cp g None) (\<lambda>r t. sweeps_from g
        (\<lambda>x. labelled (library D) ownedByClusterUIDLabel (m_UID (cp_ObjectMeta cp)) x \<and>
           isOwnedByCluster (library D) x cp) r (live (world s')) (live (world t))) s'"
      using cp_sweep.sweep_op_complete [OF srv, of "(cp, None)" ownedByClusterUIDLabel
          "m_UID (cp_ObjectMeta cp)" g s'] by (simp add: ownedByClusterUIDSelector_def)
    then show ?thesis by (rule wp_mono) (auto simp: sweeps_from_def fun_eq_iff)
  qed
  show ?thesis
    using cluster_parts(5) [OF srv]
    by (auto simp: deleteClusterDestination_def deleteAllClusterOwnedDestinations_def wp_rules
        wp_resolveGVR resolves_def takes_away_def split: prod.splits sum.splits
        intro!: wp_mono [OF swept])
qed

context finalizer_tier
begin

text \<open>What the clean-up establishes of the world still holds when the finalizer is gone.\<close>

lemma released_world:
  fixes s :: "'w sys"
  assumes "lib_ok (library D)" and "m_DeletionTimestamp (meta c) \<noteq> None"
    and "fin \<in> set (m_Finalizers (meta c))"
    and "wp (cleanup D c) (\<lambda>r t. r = None \<longrightarrow> P (world t)) s"
    and "\<And>c' w. P w \<Longrightarrow> P (snd (upd_api D c' w))"
  shows "wp (handle D c) (\<lambda>(handled, err) t. handled \<and> (err = None \<longrightarrow> P (world t))) s"
  using assms(2,3)
  by (simp add: handle_eq wp_rules lib_finalizers [OF assms(1)] Let_def)
    (rule wp_mono [OF assms(4)], use assms(5) in
      \<open>auto simp: wp_rules split: option.splits sum.splits prod.splits; metis snd_conv\<close>)

end

text \<open>
  C11: what a handled deletion takes away. When the deletion of a resource is handled without error,
  so that its finalizer is gone, and its source kind resolves, the live objects of that kind are
  the ones before, less exactly its destinations: for a Projection, the object under its
  current destination key, if it owns it; for a ClusterProjection, in every namespace the objects with
  its UID label and its annotation. Nothing else goes: not what someone else owns, not a
  destination under a name that the Projection asked for earlier, and, when the kind does not
  resolve (any more), nothing at all.
\<close>

theorem released_owner_takes_away:
  assumes "lib_ok (library D)" and "cluster_meets D live"
  shows "(m_DeletionTimestamp (p_ObjectMeta proj) \<noteq> None \<and>
      finalizerName \<in> set (m_Finalizers (p_ObjectMeta proj)) \<longrightarrow>
    wp (handleDeletion D proj) (\<lambda>(handled, err) t. handled \<and> (err = None \<longrightarrow>
      takes_away D (ps_Source (p_Spec proj)) live (world s)
        (\<lambda>x. keyed (library D) (fst (destinationCoords proj)) (snd (destinationCoords proj)) x \<and>
           isOwnedBy (library D) x proj) (world t))) s) \<and>
    (m_DeletionTimestamp (cp_ObjectMeta cp) \<noteq> None \<and>
      clusterFinalizerName \<in> set (m_Finalizers (cp_ObjectMeta cp)) \<longrightarrow>
    wp (handleClusterDeletion D cp) (\<lambda>(handled, err) t. handled \<and> (err = None \<longrightarrow>
      takes_away D (cps_Source (cp_Spec cp)) live (world s)
        (\<lambda>x. labelled (library D) ownedByClusterUIDLabel (m_UID (cp_ObjectMeta cp)) x \<and>
           isOwnedByCluster (library D) x cp) (world t))) s)"
proof -
  have u: "live (snd (client_Update_Projection D p w)) = live w"
    "live (snd (client_Update_ClusterProjection D c w)) = live w" for p c w
    using assms(2) by (simp_all add: cluster_meets_def)
  show ?thesis
    by (intro conjI impI; elim conjE;
        rule np_fin.released_world [OF assms(1) _ _ deleteDestination_exact [OF assms(2)]]
          cp_fin.released_world [OF assms(1) _ _ deleteClusterDestination_exact [OF assms(2)]])
      (simp_all add: u takes_away_def)
qed

section \<open>A cluster in memory\<close>

text \<open>
  The assumption can be met: a cluster that keeps a list per resource, of which the first object of
  every key counts, and deletes at once.
\<close>

fun firsts :: "obj list \<Rightarrow> obj list" where
  "firsts [] = []"
| "firsts (x # xs) = x # filter (\<lambda>y. \<not> keyed ref_lib (GetNamespace ref_lib x) (GetName ref_lib x) y) (firsts xs)"

lemma firsts_delete:
  "firsts (filter (\<lambda>x. \<not> keyed ref_lib ns n x) xs) = filter (\<lambda>x. \<not> keyed ref_lib ns n x) (firsts xs)"
  by (induction xs) (auto simp: keyed_def intro!: filter_cong)

lemma firsts_agree: "y \<in> set (firsts xs) \<Longrightarrow> keys_agree ref_lib (set (firsts xs)) y"
  by (induction xs) (auto simp: keys_agree_def keyed_def)

type_synonym store = "gvr \<Rightarrow> obj list"

definition stored_live :: "store live_by" where
  "stored_live w g = set (firsts (w g))"

definition store_list :: "gvr \<Rightarrow> string \<Rightarrow> store \<Rightarrow> (error + obj list) \<times> store" where
  "store_list g sel w = (Inr (filter (labelled ref_lib (takeWhile (\<lambda>c. c \<noteq> CHR ''='') sel)
     (tl (dropWhile (\<lambda>c. c \<noteq> CHR ''='') sel))) (firsts (w g))), w)"

definition store_delete :: "gvr \<Rightarrow> string \<Rightarrow> string \<Rightarrow> store \<Rightarrow> error option \<times> store" where
  "store_delete g ns n w =
     (if list_ex (keyed ref_lib ns n) (firsts (w g))
      then (None, w(g := filter (\<lambda>x. \<not> keyed ref_lib ns n x) (w g))) else (Some NotFound, w))"

definition store_get :: "gvr \<Rightarrow> string \<Rightarrow> string \<Rightarrow> store \<Rightarrow> (error + obj) \<times> store" where
  "store_get g ns n w =
     (case List.find (keyed ref_lib ns n) (firsts (w g)) of
        None \<Rightarrow> Inl NotFound | Some x \<Rightarrow> Inr x, w)"

lemma store_list_meets: "list_meets ref_lib stored_live store_list"
proof -
  have sel: "takeWhile (\<lambda>c. c \<noteq> CHR ''='') (lbl @ ''='' @ v) = lbl \<and>
      tl (dropWhile (\<lambda>c. c \<noteq> CHR ''='') (lbl @ ''='' @ v)) = v"
    if "lbl \<in> {ownedByUIDLabel, ownedByClusterUIDLabel}" for lbl v
    using that by (auto simp: ownedByUIDLabel_def ownedByClusterUIDLabel_def)
  show ?thesis
    unfolding list_meets_def Let_def store_list_def prod.case
    by (intro allI impI, simp only: sel simp_thms sum.inject)
      (auto simp: stored_live_def list_all_iff firsts_agree)
qed

lemma store_delete_meets: "delete_meets ref_lib stored_live store_delete"
  unfolding delete_meets_def Let_def store_delete_def
  by (auto simp: stored_live_def firsts_delete list_ex_iff fun_eq_iff)

lemma find_keyed:
  "List.find (keyed ref_lib ns n) (firsts xs) = Some y \<Longrightarrow> x \<in> set (firsts xs) \<Longrightarrow> keyed ref_lib ns n x \<Longrightarrow> x = y"
  using firsts_agree [of y xs] by (auto simp: find_Some_iff keys_agree_def keyed_def)

lemma store_get_meets: "get_meets ref_lib stored_live store_get"
  unfolding get_meets_def Let_def store_get_def
  by (auto simp: stored_live_def find_None_iff intro: find_keyed split: option.splits)

definition store_deps :: "store deps" where
  "store_deps = \<lparr>
     library = ref_lib,
     client_Get_Projection = (\<lambda>k w. (Inr sample_projection, w)),
     client_Update_Projection = (\<lambda>p w. (Inr p, w)),
     client_StatusUpdate_Projection = (\<lambda>p w. (Inr p, w)),
     client_List_Projection = (\<lambda>f v w. (Inr [sample_projection], w)),
     client_Get_ClusterProjection = (\<lambda>n w. (Inr sample_clusterProjection, w)),
     client_Update_ClusterProjection = (\<lambda>c w. (Inr c, w)),
     client_StatusUpdate_ClusterProjection = (\<lambda>c w. (Inr c, w)),
     client_List_ClusterProjection = (\<lambda>fv w. (Inr [sample_clusterProjection], w)),
     client_List_Namespace = (\<lambda>sel w. (Inr [], w)),
     client_Get = (\<lambda>g k w. (Inl NotFound, w)),
     client_Create = (\<lambda>x w. (Inr x, w)),
     client_Update = (\<lambda>x w. (Inr x, w)),
     dyn_Get = store_get,
     dyn_List = store_list,
     dyn_Delete = store_delete,
     RESTMapping = (\<lambda>gk v w. (Inr sample_mapping, w)),
     Recorder = Some (\<lambda>ev w. w),
     controller_Watch = (\<lambda>t k g w. (None, w)),
     clock_Now = (\<lambda>w. 5)\<rparr>"

text \<open>It starts with the sample source, its destination, and a destination outside the targets.\<close>

definition store_sys :: "store sys" where
  "store_sys = \<lparr>world = (\<lambda>_. [sample_source,
       buildDestination ref_lib sample_source sample_projection ''tenant'',
       buildClusterDestination ref_lib sample_source sample_clusterProjection ''z'']),
     calls = [], np = sample_np, cpr = sample_cpr,
     reconcileTotal = (\<lambda>_. 0), watchedGvks = 0, watchedDestGvks = 0, e2eSeconds = []\<rparr>"

lemma store_library: "library store_deps = ref_lib"
  by (simp add: store_deps_def)

lemma store_library_ok: "lib_ok (library store_deps)"
  by (simp add: store_library ref_lib_ok)

lemma store_meets: "cluster_meets store_deps stored_live"
  unfolding cluster_meets_def
  by (simp add: store_deps_def store_list_meets store_delete_meets store_get_meets)

theorem sweeps_are_complete_witness:
  "wp (deleteAllOwnedDestinations store_deps sample_projection (rm_Resource sample_mapping))
    (\<lambda>r t. sweeps_from (rm_Resource sample_mapping)
      (\<lambda>x. labelled ref_lib ownedByUIDLabel ''u1'' x \<and> isOwnedBy ref_lib x sample_projection) r
      (stored_live (world store_sys)) (stored_live (world t))) store_sys \<and>
   wp (cleanupStaleClusterDestinations store_deps sample_clusterProjection (rm_Resource sample_mapping)
      [''a'', ''b'']) (\<lambda>r t. sweeps_from (rm_Resource sample_mapping)
      (\<lambda>x. labelled ref_lib ownedByClusterUIDLabel ''u2'' x \<and>
        isOwnedByCluster ref_lib x sample_clusterProjection \<and> GetNamespace ref_lib x \<notin> {''a'', ''b''}) r
      (stored_live (world store_sys)) (stored_live (world t))) store_sys"
  using sweeps_are_complete [OF store_meets, of sample_projection "rm_Resource sample_mapping"
      store_sys sample_clusterProjection "[''a'', ''b'']"]
  by (simp add: store_library sample_projection_def sample_clusterProjection_def sample_meta_def)

theorem released_owner_takes_away_witness:
  "let proj = sample_projection\<lparr>p_ObjectMeta :=
        sample_deleting (p_ObjectMeta sample_projection) finalizerName\<rparr>;
       cp = sample_clusterProjection\<lparr>cp_ObjectMeta :=
        sample_deleting (cp_ObjectMeta sample_clusterProjection) clusterFinalizerName\<rparr>;
       g = rm_Resource sample_mapping in
   wp (handleDeletion store_deps proj) (\<lambda>(handled, err) t. handled \<and> (err = None \<longrightarrow>
      stored_live (world t) = (stored_live (world store_sys))(g := {x \<in> stored_live (world store_sys) g.
        \<not> (keyed ref_lib (fst (destinationCoords proj)) (snd (destinationCoords proj)) x \<and>
           isOwnedBy ref_lib x proj)}))) store_sys \<and>
   wp (handleClusterDeletion store_deps cp) (\<lambda>(handled, err) t. handled \<and> (err = None \<longrightarrow>
      stored_live (world t) = (stored_live (world store_sys))(g := {x \<in> stored_live (world store_sys) g.
        \<not> (labelled ref_lib ownedByClusterUIDLabel (m_UID (cp_ObjectMeta cp)) x \<and>
           isOwnedByCluster ref_lib x cp)}))) store_sys"
proof -
  note released = released_owner_takes_away [OF store_library_ok store_meets, unfolded store_library]
  have here: "resolves store_deps src w (rm_Resource sample_mapping)" for src w
    by (simp add: resolves_def store_deps_def sample_mapping_def)
  have taken: "takes_away store_deps src stored_live w out w' \<Longrightarrow> stored_live w' =
      (stored_live w)(rm_Resource sample_mapping := {x \<in> stored_live w (rm_Resource sample_mapping). \<not> out x})"
    for src w out w'
    using here by (auto simp: takes_away_def)
  have del: "m_DeletionTimestamp (sample_deleting m f) \<noteq> None"
    "f \<in> set (m_Finalizers (sample_deleting m f))" for m f
    by (simp_all add: sample_deleting_def)
  show ?thesis
    unfolding Let_def
    by (intro conjI;
        rule wp_mono [OF released [THEN conjunct1, THEN mp]] wp_mono [OF released [THEN conjunct2, THEN mp]])
      (use del in \<open>auto dest: taken\<close>)
qed

end
