(* ===== verification/Idempotence.thy ===== *)
theory Idempotence
  imports Completeness
begin

text \<open>
  A reconcile that succeeded is final: as long as the source, the policy and the Projection's
  specification stay as they are, reconciling again changes no object. This lifts the finality
  of a write to the reconcile function, whose other calls do not touch the destination.
\<close>

text \<open>Two readings of a Projection that ask for the same destination.\<close>

definition same_request :: "projection \<Rightarrow> projection \<Rightarrow> bool" where
  "same_request p q \<longleftrightarrow> p_Spec p = p_Spec q \<and> m_Name (p_ObjectMeta p) = m_Name (p_ObjectMeta q) \<and>
     m_Namespace (p_ObjectMeta p) = m_Namespace (p_ObjectMeta q) \<and>
     m_UID (p_ObjectMeta p) = m_UID (p_ObjectMeta q)"

lemma same_request_destination:
  assumes "same_request p q"
  shows "buildDestination L source p ns = buildDestination L source q ns"
    and "isOwnedBy L x p = isOwnedBy L x q"
  using assms
  by (simp_all add: same_request_def buildDestination_def isOwnedBy_def ownerKey_def
      destinationCoords_def Let_def cong: if_cong)

text \<open>Status updates and watches store no object.\<close>

definition frame_ok :: "'w deps \<Rightarrow> 'w held_by \<Rightarrow> bool" where
  "frame_ok D held \<longleftrightarrow>
     (\<forall>p w. held (snd (client_StatusUpdate_Projection D p w)) = held w) \<and>
     (\<forall>t k g w. held (snd (controller_Watch D t k g w)) = held w)"

lemma frameD:
  assumes "frame_ok D held"
  shows "client_StatusUpdate_Projection D p w = (r, w') \<Longrightarrow> held w' = held w"
    and "controller_Watch D t k g w = (e, w') \<Longrightarrow> held w' = held w"
  using assms unfolding frame_ok_def by (metis snd_conv)+

lemma keeps_mode_write: "keeps (\<lambda>s. pr_SourceMode (np s) = mode) (writeDestination D proj source)"
  unfolding writeDestination_def Let_def emit_def call_defs metric_defs
  by (intro keeps_rules) (auto simp: keeps_def wp_rules split: prod.splits)

lemma ready_frame:
  fixes s :: "'w sys"
  assumes "frame_ok D held"
  shows "wp (State_Monad.bind (ensureNamespacedDestWatch D g) (\<lambda>_.
      State_Monad.bind (markAllReady D proj v) (\<lambda>err. State_Monad.return (Result_empty, err))))
    (\<lambda>_ t. held (world t) = held (world s) \<and> pr_SourceMode (np t) = pr_SourceMode (np s)) s"
  using frameD [OF assms]
  by (auto simp: ensureNamespacedDestWatch_def ensureDestWatch_def markAllReady_def wp_rules call_defs
      metric_defs Let_def split: prod.splits sum.splits option.splits if_splits)

abbreviation np_slot :: "lib \<Rightarrow> projection \<Rightarrow> obj \<Rightarrow> (gvk \<times> objectKey \<Rightarrow> obj option) \<Rightarrow> slot" where
  "np_slot L proj source h \<equiv>
     (let dst = buildDestination L source proj (m_Namespace (p_ObjectMeta proj))
      in slot_of L (\<lambda>x. isOwnedBy L x proj) dst (h (id_of L dst)))"

definition allowed :: "lib \<Rightarrow> obj \<Rightarrow> string \<Rightarrow> bool" where
  "allowed L source mode = snd (snd (checkProjectable L source mode))"

lemma np_slot_same: "same_request p q \<Longrightarrow> np_slot L p source h = np_slot L q source h"
  by (simp add: same_request_destination [of p q]) (simp add: same_request_def)

lemma success_in_sync_after:
  fixes D :: "'w deps" and s :: "'w sys"
  assumes ok: "lib_ok (library D)" and m: "metadata_of source = Some m" and srv: "server_ok D held"
    and frame: "frame_ok D held"
  shows "wp (Reconcile_fetched D proj g v source) (\<lambda>_ t.
    successes kindProjection t = successes kindProjection s \<or>
    allowed (library D) source (pr_SourceMode (np s)) \<and> pr_SourceMode (np t) = pr_SourceMode (np s) \<and>
    np_slot (library D) proj source (held (world t)) = InSync) s"
proof -
  let ?L = "library D" and ?mode = "pr_SourceMode (np s)"
  let ?Q = "\<lambda>_ t. successes kindProjection t = successes kindProjection s \<or>
    allowed ?L source ?mode \<and> pr_SourceMode (np t) = ?mode \<and> np_slot ?L proj source (held (world t)) = InSync"
  obtain reason msg ok' where c: "checkProjectable ?L source ?mode = (reason, msg, ok')"
    by (metis surj_pair)
  show ?thesis
  proof (cases ok')
    case False
    have "wp (State_Monad.bind (deleteDestination D proj)
        (\<lambda>_. failSource D proj reason ''Validate'' msg)) ?Q s"
      by (rule quiet_then_success [OF quiet_deleteDestination(2), where kind = kindProjection])
        (rule wp_mono [OF fail_no_success(1)], simp)
    with False show ?thesis
      by (simp add: Reconcile_fetched_def checkSourceProjectable_def wp_rules c)
  next
    case True
    then have al: "allowed ?L source ?mode" by (simp add: allowed_def c)
    have after: "wp (if reason \<noteq> '''' then failDestination D proj v reason msg
        else State_Monad.bind (ensureNamespacedDestWatch D g) (\<lambda>_.
          State_Monad.bind (markAllReady D proj v) (\<lambda>err.
            State_Monad.return (Result_empty, err)))) ?Q t"
      if "successes kindProjection t = successes kindProjection s" "pr_SourceMode (np t) = ?mode"
        "reason = '''' \<Longrightarrow> np_slot ?L proj source (held (world t)) = InSync"
      for reason msg and t :: "'w sys"
      using that al
      by (auto intro: wp_mono [OF fail_no_success(2)] wp_mono [OF ready_frame [OF frame]])
    have "wp (writeDestination D proj source) (\<lambda>(reason, msg) t.
        successes kindProjection t = successes kindProjection s \<and> pr_SourceMode (np t) = ?mode \<and>
        (reason = '''' \<longrightarrow> np_slot ?L proj source (held (world t)) = InSync)) s"
    proof -
      have refines: "wp (writeDestination D proj source) (\<lambda>(reason, msg) t.
          slot_refines ?L (\<lambda>x. isOwnedBy ?L x proj)
            (buildDestination ?L source proj (m_Namespace (p_ObjectMeta proj)))
            (held (world s)) reason (held (world t))) s"
        using np_writer.write_refines [OF ok m srv refl, of proj s] by simp
      have "wp (writeDestination D proj source) (\<lambda>r t.
        (case r of (reason, msg) \<Rightarrow> \<lambda>t. slot_refines ?L (\<lambda>x. isOwnedBy ?L x proj)
            (buildDestination ?L source proj (m_Namespace (p_ObjectMeta proj)))
            (held (world s)) reason (held (world t))) t \<and>
        successes kindProjection t = successes kindProjection s \<and> pr_SourceMode (np t) = ?mode) s"
        unfolding wp_conj
        by (intro conjI refines quiet_success quiet_writeDestination
            keeps_mode_write [unfolded keeps_def, rule_format]) simp_all
      then show ?thesis
        by (rule wp_mono) (auto simp: slot_refines_def Let_def dest: success_in_sync)
    qed
    then have "wp (State_Monad.bind (writeDestination D proj source) (\<lambda>(reason, msg).
        if reason \<noteq> '''' then failDestination D proj v reason msg
        else State_Monad.bind (ensureNamespacedDestWatch D g) (\<lambda>_.
          State_Monad.bind (markAllReady D proj v) (\<lambda>err.
            State_Monad.return (Result_empty, err))))) ?Q s"
      unfolding wp_bind [of "writeDestination D proj source"]
      by (rule wp_mono, simp only: split_paired_all prod.case) (rule after, simp_all)
    with True show ?thesis
      by (simp add: Reconcile_fetched_def checkSourceProjectable_def wp_rules c)
  qed
qed

lemma in_sync_stays:
  fixes D :: "'w deps" and t :: "'w sys"
  assumes ok: "lib_ok (library D)" and m: "metadata_of source = Some m" and srv: "server_ok D held"
    and al: "allowed (library D) source (pr_SourceMode (np t))"
    and sync: "np_slot (library D) proj source (held (world t)) = InSync"
  shows "wp (Reconcile_fetched D proj g v source) (\<lambda>_ u. \<exists>cs. calls u = calls t @ cs \<and>
    filter mutates cs = []) t"
proof -
  let ?L = "library D"
  obtain reason msg where c: "checkProjectable ?L source (pr_SourceMode (np t)) = (reason, msg, True)"
    using al by (metis (full_types) allowed_def snd_conv surj_pair)
  have rest: "harmless (if reason \<noteq> '''' then failDestination D proj v reason msg
        else State_Monad.bind (ensureNamespacedDestWatch D g) (\<lambda>_.
          State_Monad.bind (markAllReady D proj v) (\<lambda>err.
            State_Monad.return (Result_empty, err))))" for reason msg
    by (intro makes_rules harmless_watches)
  have after: "wp (case r of (reason, msg) \<Rightarrow> if reason \<noteq> '''' then failDestination D proj v reason msg
        else State_Monad.bind (ensureNamespacedDestWatch D g) (\<lambda>_.
          State_Monad.bind (markAllReady D proj v) (\<lambda>err.
            State_Monad.return (Result_empty, err))))
      (\<lambda>_ u. \<exists>cs. calls u = calls t @ cs \<and> filter mutates cs = []) u"
    if "\<exists>cs. calls u = calls t @ cs \<and> filter mutates cs = []" for r :: "string \<times> string" and u :: "'w sys"
  proof -
    from that obtain cs where cs: "calls u = calls t @ cs" "filter mutates cs = []" by blast
    show ?thesis
      unfolding case_prod_beta
      by (rule wp_mono [OF rest [unfolded makes_def, rule_format]])
        (use cs in \<open>auto simp: list_all_iff\<close>)
  qed
  have "wp (writeDestination D proj source) (\<lambda>(reason, msg) u. \<exists>cs. calls u = calls t @ cs \<and>
      filter mutates cs = [] \<and> reason \<in> {'''', ''DestinationFetchFailed''}) t"
    using np_writer.write_again [OF ok m srv refl, of proj t] sync by (simp add: Let_def)
  then have "wp (writeDestination D proj source) (\<lambda>r.
      wp (case r of (reason, msg) \<Rightarrow> if reason \<noteq> '''' then failDestination D proj v reason msg
        else State_Monad.bind (ensureNamespacedDestWatch D g) (\<lambda>_.
          State_Monad.bind (markAllReady D proj v) (\<lambda>err.
            State_Monad.return (Result_empty, err))))
      (\<lambda>_ u. \<exists>cs. calls u = calls t @ cs \<and> filter mutates cs = [])) t"
    by (rule wp_mono) (rule after, auto)
  then show ?thesis
    by (simp add: Reconcile_fetched_def checkSourceProjectable_def wp_bind wp_rules c)
qed

text \<open>
  C9: reconciling converges. When a reconcile from the fetched source was counted as a success, then
  reconciling any later reading of the same request with the same source makes no create, update
  or delete call, over any API server that stores what it accepts and whose status updates and
  watches store no object.
\<close>

theorem reconcile_converges:
  fixes D :: "'w deps" and s :: "'w sys"
  assumes "lib_ok (library D)" and "metadata_of source = Some m" and "server_ok D held"
    and "frame_ok D held" and "same_request proj proj'"
  shows "wp (Reconcile_fetched D proj g v source) (\<lambda>_ t.
    reconcileTotal t (kindProjection, resultSuccess) \<noteq> reconcileTotal s (kindProjection, resultSuccess) \<longrightarrow>
    wp (Reconcile_fetched D proj' g v source) (\<lambda>_ u. \<exists>cs. calls u = calls t @ cs \<and>
      filter mutates cs = []) t) s"
  by (rule wp_mono [OF success_in_sync_after [OF assms(1-4), of proj g v s]])
    (intro impI in_sync_stays [OF assms(1-3)],
      simp_all add: successes_def np_slot_same [OF assms(5), symmetric])

definition memory_projection :: projection where
  "memory_projection = sample_projection\<lparr>p_Status := (p_Status sample_projection)
     \<lparr>pst_DestinationName := ''app-config''\<rparr>\<rparr>"

lemma memory_frame_ok: "frame_ok memory_deps id"
  by (simp add: frame_ok_def memory_deps_def)

theorem reconcile_converges_witness:
  "wp (Reconcile_fetched memory_deps sample_projection (rm_GroupVersionKind sample_mapping) ''v1''
      sample_source) (\<lambda>_ t.
    reconcileTotal t (kindProjection, resultSuccess) \<noteq>
      reconcileTotal memory_sys (kindProjection, resultSuccess) \<longrightarrow>
    wp (Reconcile_fetched memory_deps memory_projection (rm_GroupVersionKind sample_mapping) ''v1''
      sample_source) (\<lambda>_ u. \<exists>cs. calls u = calls t @ cs \<and> filter mutates cs = []) t) memory_sys"
  by (rule reconcile_converges [OF memory_library_ok memory_source memory_server_ok memory_frame_ok])
    (simp add: same_request_def memory_projection_def)

end
