(* ===== verification/Fan_Out_Refinement.thy ===== *)
theory Fan_Out_Refinement
  imports Idempotence
begin

text \<open>
  The fan-out over an API server that stores what it accepts. However its workers interleave, what
  it does to the cluster is one abstract write per target: each destination takes one step
  between absent, foreign, stale and in sync, with the outcome that the fan-out reports for its
  namespace, and no other object changes.
\<close>

section \<open>The destinations of a ClusterProjection\<close>

definition cluster_id :: "lib \<Rightarrow> clusterProjection \<Rightarrow> obj \<Rightarrow> string \<Rightarrow> gvk \<times> objectKey" where
  "cluster_id L cp src ns = id_of L (buildClusterDestination L src cp ns)"

definition cluster_slot ::
  "lib \<Rightarrow> clusterProjection \<Rightarrow> obj \<Rightarrow> (gvk \<times> objectKey \<Rightarrow> obj option) \<Rightarrow> string \<Rightarrow> slot" where
  "cluster_slot L cp src h ns = slot_of L (\<lambda>x. isOwnedByCluster L x cp)
     (buildClusterDestination L src cp ns) (h (cluster_id L cp src ns))"

lemma cluster_id_inject:
  assumes "lib_ok L" and "metadata_of src = Some m" and "cluster_id L cp src ns = cluster_id L cp src ns'"
  shows "ns = ns'"
  using assms(3)
  by (simp add: cluster_id_def id_of_def key_of_def cp_tier.build_facts [OF assms(1,2)])

lemma cluster_id_fetched:
  assumes "lib_ok L" and "metadata_of src = Some m"
  shows "cluster_id L cp src ns = (GroupVersionKind L src, clusterDestinationKey L src cp ns)"
  by (simp add: cluster_id_def id_of_def cp_tier.build_gvk [OF assms] clusterDestinationKey_eq)

section \<open>Where a target is\<close>

definition places :: "'w pool \<Rightarrow> string list" where
  "places p = unsent p @ jobs p @ concat (map holds (workers p)) @ map r_ns (results p)"

lemma pool_inv_places:
  assumes "pool_inv targets n p" and "distinct targets"
  shows "distinct (places p)" and "set (places p) \<subseteq> set targets"
proof -
  from assms(1) obtain got :: "result list" where got: "mset targets = mset (unsent p) + mset (jobs p) +
      mset (concat (map holds (workers p))) + mset (map r_ns (results p)) + mset (map r_ns got)"
    unfolding pool_inv_def by blast
  then have eq: "mset targets = mset (places p @ map r_ns got)" by (simp add: places_def)
  then have "distinct (places p @ map r_ns got)" using assms(2) by (metis mset_eq_imp_distinct_iff)
  then show "distinct (places p)" by simp
  from eq have "set targets = set (places p @ map r_ns got)" by (metis set_mset_mset)
  then show "set (places p) \<subseteq> set targets" by simp
qed

lemma places_Worker:
  assumes i: "i < length (workers p)" and upd: "workers q = (workers p)[i := w]" "unsent q = unsent p"
    and moved: "mset (jobs q) + mset (holds w) + mset (map r_ns (results q)) =
      mset (jobs p) + mset (holds (workers p ! i)) + mset (map r_ns (results p))"
  shows "set (places q) = set (places p)"
proof -
  let ?held = "\<lambda>p. mset (concat (map holds (workers p)))"
  have held: "?held q + mset (holds (workers p ! i)) = ?held p + mset (holds w)"
    unfolding upd(1) by (rule mset_concat_update [OF i])
  have "(mset (jobs q) + ?held q + mset (map r_ns (results q))) + mset (holds (workers p ! i)) =
      (mset (jobs q) + mset (holds w) + mset (map r_ns (results q))) + ?held p"
    using held by (simp only: add_ac)
  also have "\<dots> = (mset (jobs p) + ?held p + mset (map r_ns (results p))) + mset (holds (workers p ! i))"
    unfolding moved by (simp only: add_ac)
  finally have "mset (jobs q) + ?held q + mset (map r_ns (results q)) =
      mset (jobs p) + ?held p + mset (map r_ns (results p))"
    by (simp only: add_right_cancel)
  then have "mset (places q) = mset (places p)"
    by (simp add: places_def upd(2) add_ac)
  then show ?thesis by (metis set_mset_mset)
qed

lemma held_once:
  "distinct (concat (map f ws)) \<Longrightarrow> i < length ws \<Longrightarrow> j < length ws \<Longrightarrow> i \<noteq> j \<Longrightarrow>
   x \<in> set (f (ws ! i)) \<Longrightarrow> x \<notin> set (f (ws ! j))"
proof (induction ws arbitrary: i j)
  case (Cons w ws)
  have elsewhere: "set (f (ws ! k)) \<inter> set (f w) = {}" if "k < length ws" for k
    using Cons.prems(1) nth_mem [OF that] by auto
  show ?case
  proof (cases i)
    case 0
    with Cons.prems obtain k where "j = Suc k" "k < length ws" by (cases j) auto
    with elsewhere [of k] Cons.prems(5) 0 show ?thesis by auto
  next
    case (Suc k)
    show ?thesis
    proof (cases j)
      case 0
      with elsewhere [of k] Cons.prems Suc show ?thesis by auto
    next
      case (Suc l)
      with \<open>i = Suc k\<close> Cons.prems Cons.IH [of k l] show ?thesis by auto
    qed
  qed
qed simp

text \<open>What a worker holds, nobody else does.\<close>

lemma held_alone:
  assumes "distinct (places p)" and "i < length (workers p)" and "ns \<in> set (holds (workers p ! i))"
  shows "ns \<notin> set (unsent p)" and "ns \<notin> set (jobs p)" and "ns \<notin> r_ns ` set (results p)"
    and "j < length (workers p) \<Longrightarrow> j \<noteq> i \<Longrightarrow> ns \<notin> set (holds (workers p ! j))"
    and "ns \<in> set (places p)"
proof -
  have c: "ns \<in> set (concat (map holds (workers p)))" using assms(2,3) by (auto intro: nth_mem)
  with assms(1) show "ns \<notin> set (unsent p)" "ns \<notin> set (jobs p)" "ns \<notin> r_ns ` set (results p)"
    by (auto simp: places_def)
  from c show "ns \<in> set (places p)" by (simp add: places_def)
  show "ns \<notin> set (holds (workers p ! j))" if "j < length (workers p)" "j \<noteq> i"
    using held_once [of holds "workers p" i j ns] assms that by (simp add: places_def)
qed

section \<open>The simulation invariant\<close>

fun queued :: "worker \<Rightarrow> string list" where
  "queued (Working ns) = [ns]"
| "queued (Fetched ns _) = [ns]"
| "queued _ = []"

definition seen :: "lib \<Rightarrow> ('k \<Rightarrow> obj option) \<Rightarrow> 'k \<Rightarrow> error + obj \<Rightarrow> bool" where
  "seen L h k r \<longleftrightarrow> (case r of Inr x \<Rightarrow> h k = Some x | Inl e \<Rightarrow> IsNotFound L e \<longrightarrow> h k = None)"

text \<open>
  \<open>h\<close> is what the server held at the start, \<open>h'\<close> what it holds now. A target not yet written is
  as it was; one whose result is known has taken the abstract step with that reason.
\<close>

definition stepped ::
  "lib \<Rightarrow> clusterProjection \<Rightarrow> obj \<Rightarrow> (gvk \<times> objectKey \<Rightarrow> obj option) \<Rightarrow>
   (gvk \<times> objectKey \<Rightarrow> obj option) \<Rightarrow> string \<Rightarrow> string \<Rightarrow> bool" where
  "stepped L cp src h h' ns reason \<longleftrightarrow>
     slot_step (cluster_slot L cp src h ns) reason (cluster_slot L cp src h' ns)"

definition refine_inv ::
  "lib \<Rightarrow> clusterProjection \<Rightarrow> obj \<Rightarrow> 'w held_by \<Rightarrow> (gvk \<times> objectKey \<Rightarrow> obj option) \<Rightarrow>
   string list \<Rightarrow> 'w pool \<Rightarrow> bool" where
  "refine_inv L cp src held h targets p \<longleftrightarrow>
     (\<forall>k. k \<notin> cluster_id L cp src ` set targets \<longrightarrow> held (world (psys p)) k = h k) \<and>
     (\<forall>ns \<in> set (unsent p) \<union> set (jobs p) \<union> set (concat (map queued (workers p))).
        held (world (psys p)) (cluster_id L cp src ns) = h (cluster_id L cp src ns)) \<and>
     (\<forall>ns r. Fetched ns r \<in> set (workers p) \<longrightarrow> seen L h (cluster_id L cp src ns) r) \<and>
     (\<forall>res. Sending res \<in> set (workers p) \<or> res \<in> set (results p) \<longrightarrow>
        stepped L cp src h (held (world (psys p))) (r_ns res) (r_reason res)) \<and>
     (\<forall>ns \<in> set targets - set (places p). \<exists>reason.
        stepped L cp src h (held (world (psys p))) ns reason \<and>
        (reason = '''' \<longleftrightarrow> ns |\<notin>| fmdom (failureMsgs p))) \<and>
     (\<forall>ns. ns |\<in>| fmdom (failureMsgs p) \<longrightarrow> ns \<notin> set (places p))"

lemma stepped_cong:
  "h1 (cluster_id L cp src ns) = h2 (cluster_id L cp src ns) \<Longrightarrow>
   stepped L cp src h h1 ns reason = stepped L cp src h h2 ns reason"
  by (simp add: stepped_def cluster_slot_def)

lemma refine_parts:
  assumes "refine_inv L cp src held h targets p"
  shows "k \<notin> cluster_id L cp src ` set targets \<Longrightarrow> held (world (psys p)) k = h k"
    and "ns \<in> set (unsent p) \<union> set (jobs p) \<union> set (concat (map queued (workers p))) \<Longrightarrow>
      held (world (psys p)) (cluster_id L cp src ns) = h (cluster_id L cp src ns)"
    and "Fetched ns r \<in> set (workers p) \<Longrightarrow> seen L h (cluster_id L cp src ns) r"
    and "Sending res \<in> set (workers p) \<or> res \<in> set (results p) \<Longrightarrow>
      stepped L cp src h (held (world (psys p))) (r_ns res) (r_reason res)"
    and "ns \<in> set targets - set (places p) \<Longrightarrow> \<exists>reason.
      stepped L cp src h (held (world (psys p))) ns reason \<and>
      (reason = [] \<longleftrightarrow> ns |\<notin>| fmdom (failureMsgs p))"
    and "ns |\<in>| fmdom (failureMsgs p) \<Longrightarrow> ns \<notin> set (places p)"
  using assms unfolding refine_inv_def by blast+

text \<open>A worker moves, and changes the server at most under the target it holds.\<close>

lemma refine_inv_Worker:
  fixes p q :: "'w pool"
  assumes inv: "refine_inv L cp src held h targets p" and uniq: "distinct (places p)"
    and i: "i < length (workers p)"
    and upd: "workers q = (workers p)[i := w]" "unsent q = unsent p" "failureMsgs q = failureMsgs p"
      "set (jobs q) \<subseteq> set (jobs p)"
    and moved: "mset (jobs q) + mset (holds w) + mset (map r_ns (results q)) =
      mset (jobs p) + mset (holds (workers p ! i)) + mset (map r_ns (results p))"
    and frame: "\<And>k. k \<notin> cluster_id L cp src ` set touched \<Longrightarrow>
      held (world (psys q)) k = held (world (psys p)) k"
    and inj: "\<And>ns ns'. cluster_id L cp src ns = cluster_id L cp src ns' \<Longrightarrow> ns = ns'"
    and touched: "set touched \<subseteq> set (holds (workers p ! i))" "set touched \<subseteq> set targets"
      "set touched \<inter> set (queued w) = {}"
    and queued: "\<And>ns. ns \<in> set (queued w) \<Longrightarrow>
      held (world (psys p)) (cluster_id L cp src ns) = h (cluster_id L cp src ns)"
    and fetched: "\<And>ns r. w = Fetched ns r \<Longrightarrow> seen L h (cluster_id L cp src ns) r"
    and sending: "\<And>res. w = Sending res \<or> res \<in> set (results q) - set (results p) \<Longrightarrow>
      stepped L cp src h (held (world (psys q))) (r_ns res) (r_reason res)"
  shows "refine_inv L cp src held h targets q"
proof -
  let ?now = "held (world (psys p))" and ?then = "held (world (psys q))" and ?id = "cluster_id L cp src"
  have places: "set (places q) = set (places p)" by (rule places_Worker [OF i upd(1,2) moved])
  have set_q: "x \<in> set (workers q) \<Longrightarrow> x = w \<or> (\<exists>j < length (workers p). j \<noteq> i \<and> x = workers p ! j)" for x
    unfolding upd(1) by (metis in_set_conv_nth length_list_update nth_list_update_eq nth_list_update_neq)
  have still: "?then (?id ns) = ?now (?id ns)" if "ns \<notin> set touched" for ns
    by (rule frame) (use that inj in blast)
  have alone: "ns \<notin> set (unsent p)" "ns \<notin> set (jobs p)" "ns \<notin> r_ns ` set (results p)"
      "\<And>j. j < length (workers p) \<Longrightarrow> j \<noteq> i \<Longrightarrow> ns \<notin> set (holds (workers p ! j))" "ns \<in> set (places p)"
    if "ns \<in> set touched" for ns
    using held_alone [OF uniq i] that touched(1) by blast+
  have queue_holds: "set (queued x) \<subseteq> set (holds x)" for x by (cases x) simp_all
  have queued_at: "set (queued (workers p ! j)) \<subseteq> set (concat (map queued (workers p)))"
    if "j < length (workers p)" for j using nth_mem [OF that] by auto
  note parts = refine_parts [OF inv]
  show ?thesis
    unfolding refine_inv_def
  proof (intro conjI allI ballI impI)
    fix k
    assume k: "k \<notin> ?id ` set targets"
    with touched(2) have "k \<notin> ?id ` set touched" by blast
    with parts(1) [OF k] show "?then k = h k" using frame by simp
  next
    fix ns
    assume ns: "ns \<in> set (unsent q) \<union> set (jobs q) \<union> set (concat (map queued (workers q)))"
    then consider "ns \<in> set (unsent p) \<union> set (jobs p)" | "ns \<in> set (queued w)"
      | j where "j < length (workers p)" "j \<noteq> i" "ns \<in> set (queued (workers p ! j))"
      using upd(2,4) by (auto dest!: set_q)
    then show "?then (?id ns) = h (?id ns)"
    proof cases
      case 1
      then have "ns \<notin> set touched" using alone(1,2) by blast
      with 1 parts(2) [of ns] still show ?thesis by simp
    next
      case 2
      then have "ns \<notin> set touched" using touched(3) by blast
      with 2 queued still show ?thesis by simp
    next
      case 3
      then have "ns \<notin> set touched" using alone(4) queue_holds by blast
      moreover have "?now (?id ns) = h (?id ns)" using 3 queued_at parts(2) [of ns] by blast
      ultimately show ?thesis using still by simp
    qed
  next
    fix ns r
    assume "Fetched ns r \<in> set (workers q)"
    then show "seen L h (?id ns) r" using set_q [of "Fetched ns r"] fetched parts(3) by (metis nth_mem)
  next
    fix res
    assume res: "Sending res \<in> set (workers q) \<or> res \<in> set (results q)"
    show "stepped L cp src h ?then (r_ns res) (r_reason res)"
    proof (cases "w = Sending res \<or> res \<in> set (results q) - set (results p)")
      case False
      with res consider j where "j < length (workers p)" "j \<noteq> i" "Sending res = workers p ! j"
        | "res \<in> set (results p)" using set_q [of "Sending res"] by blast
      then have "stepped L cp src h ?now (r_ns res) (r_reason res) \<and> r_ns res \<notin> set touched"
      proof cases
        case 1
        then have "r_ns res \<in> set (holds (workers p ! j))" by (metis holds.simps(3) list.set_intros(1))
        with 1 alone(4) parts(4) show ?thesis by (metis nth_mem)
      next
        case 2
        with alone(3) parts(4) show ?thesis by blast
      qed
      with still show ?thesis using stepped_cong by metis
    qed (rule sending)
  next
    fix ns
    assume "ns \<in> set targets - set (places q)"
    with places have ns: "ns \<in> set targets - set (places p)" by simp
    with alone(5) have "ns \<notin> set touched" by blast
    then have "stepped L cp src h ?then ns reason = stepped L cp src h ?now ns reason" for reason
      using still stepped_cong by metis
    with parts(5) [OF ns] show "\<exists>reason. stepped L cp src h ?then ns reason \<and>
        (reason = '''' \<longleftrightarrow> ns |\<notin>| fmdom (failureMsgs q))"
      by (simp add: upd(3))
  next
    fix ns
    assume "ns |\<in>| fmdom (failureMsgs q)"
    with parts(6) show "ns \<notin> set (places q)" by (simp add: upd(3) places)
  qed
qed

lemma refine_inv_receive:
  assumes inv: "refine_inv L cp src held h targets p" and uniq: "distinct (places p)"
    and res: "results p = res # rest"
  shows "refine_inv L cp src held h targets (collect res (p\<lparr>results := rest\<rparr>))"
proof -
  let ?q = "collect res (p\<lparr>results := rest\<rparr>)"
  have same: "psys ?q = psys p" "workers ?q = workers p" "unsent ?q = unsent p" "jobs ?q = jobs p"
      "results ?q = rest"
    by (simp_all add: collect_def)
  have q: "set (places p) = insert (r_ns res) (set (places ?q))" "r_ns res \<notin> set (places ?q)"
    using uniq by (auto simp: places_def same res)
  have msgs: "ns |\<in>| fmdom (failureMsgs ?q) \<longleftrightarrow> ns |\<in>| fmdom (failureMsgs p) \<or>
      (ns = r_ns res \<and> r_reason res \<noteq> '''')" for ns
    by (auto simp: collect_def)
  note parts = refine_parts [OF inv]
  show ?thesis
    unfolding refine_inv_def same
  proof (intro conjI allI ballI impI)
    fix ns
    assume ns: "ns \<in> set targets - set (places ?q)"
    show "\<exists>reason. stepped L cp src h (held (world (psys p))) ns reason \<and>
        (reason = [] \<longleftrightarrow> ns |\<notin>| fmdom (failureMsgs ?q))"
    proof (cases "ns = r_ns res")
      case True
      with parts(6) [of ns] q(1) have "ns |\<notin>| fmdom (failureMsgs p)" by blast
      moreover have "stepped L cp src h (held (world (psys p))) ns (r_reason res)"
        using parts(4) [of res] res True by simp
      ultimately show ?thesis using True msgs by blast
    next
      case False
      with ns q(1) have "ns \<in> set targets - set (places p)" by blast
      from parts(5) [OF this] False show ?thesis by (simp add: msgs)
    qed
  next
    fix ns
    assume "ns |\<in>| fmdom (failureMsgs ?q)"
    with parts(6) [of ns] q msgs show "ns \<notin> set (places ?q)" by blast
  qed (use parts res in auto)
qed

lemma refine_inv_perform:
  fixes D :: "'w deps"
  assumes ok: "lib_ok (library D)" and m: "metadata_of src = Some m" and srv: "server_ok D held"
    and inv: "refine_inv (library D) cp src held h targets p" and uniq: "distinct (places p)"
    and targets: "set (places p) \<subseteq> set targets" and can: "can p a"
  shows "refine_inv (library D) cp src held h targets (perform D cp src a p)"
proof (cases a)
  case Main
  with can have "can p Main" by simp
  then show ?thesis
  proof (cases rule: main_cases [where D = D and cp = cp and src = src])
    case send
    with Main inv show ?thesis by (simp add: refine_inv_def places_def)
  next
    case receive
    with Main refine_inv_receive [OF inv uniq] show ?thesis by simp
  next
    case control
    with Main inv show ?thesis by (simp add: refine_inv_def places_def)
  qed
next
  case Closer
  with inv show ?thesis by (simp add: refine_inv_def places_def)
next
  case (Worker i)
  let ?L = "library D"
  from Worker can have i: "i < length (workers p)" by simp
  note parts = refine_parts [OF inv]
  note move = refine_inv_Worker [OF inv uniq i _ _ _ _ _ _ cluster_id_inject [OF ok m]]
  show ?thesis
  proof (cases "workers p ! i")
    case Ready
    show ?thesis
    proof (cases "jobs p")
      case Nil
      show ?thesis
        by (rule move [where w = Exited and touched = "[]"])
          (simp_all add: Worker work_def Ready Nil)
    next
      case (Cons ns js)
      show ?thesis
        by (rule move [where w = "Working ns" and touched = "[]"])
          (use parts(2) [of ns] Cons in \<open>auto simp: Worker work_def Ready\<close>)
    qed
  next
    case (Working ns)
    let ?key = "clusterDestinationKey ?L src cp ns" and ?g = "GroupVersionKind ?L src"
    obtain r w where got: "client_Get D ?g ?key (world (psys p)) = (r, w)" by fastforce
    note f = fetchD [OF server_parts(1) [OF srv] got, folded cluster_id_fetched [OF ok m]]
    have same: "held (world (psys p)) (cluster_id ?L cp src ns) = h (cluster_id ?L cp src ns)"
      by (rule parts(2)) (use nth_mem [OF i] in \<open>force simp: Working\<close>)
    show ?thesis
      by (rule move [where w = "Fetched ns r" and touched = "[]"])
        (use f same in \<open>auto simp: Worker work_def Working get_Object_def api_call_def got seen_def
          split: sum.splits\<close>)
  next
    case (Fetched ns r)
    let ?id = "cluster_id ?L cp src ns"
    have mem: "Fetched ns r \<in> set (workers p)" using i Fetched by (metis nth_mem)
    have same: "held (world (psys p)) ?id = h ?id"
      by (rule parts(2)) (use mem in force)
    obtain reason msg s where run:
      "run_state (writeClusterDestination_switch D cp src ns r) (psys p) = ((reason, msg), s)"
      by (metis surj_pair)
    have "wp (write_finish D cp_ops cp src ns r) (\<lambda>(reason, msg) t.
        slot_refines ?L (\<lambda>x. isOwnedByCluster ?L x cp) (buildClusterDestination ?L src cp ns)
          (held (world (psys p))) reason (held (world t))) (psys p)"
      using cp_writer.finish_refines [OF ok m srv, where fetched = r and s = "psys p" and c = cp and ns = ns] parts(3) [OF mem] same
      by (cases r) (simp_all add: seen_def cluster_id_def)
    then have ref: "slot_refines ?L (\<lambda>x. isOwnedByCluster ?L x cp) (buildClusterDestination ?L src cp ns)
        (held (world (psys p))) reason (held (world s))"
      using run by (simp add: switch_template wp_def)
    have frame: "held (world s) k = held (world (psys p)) k" if "k \<noteq> ?id" for k
      using ref that unfolding slot_refines_def cluster_id_def by blast
    have step: "stepped ?L cp src h (held (world s)) ns reason"
      using ref same by (simp add: slot_refines_def stepped_def cluster_slot_def cluster_id_def)
    have "ns \<in> set (places p)" using held_alone(5) [OF uniq i] by (simp add: Fetched)
    with targets have ns: "ns \<in> set targets" by blast
    show ?thesis
      by (rule move [where w = "Sending \<lparr>r_ns = ns, r_reason = reason, r_msg = msg\<rparr>" and
            touched = "[ns]"])
        (use frame step ns in \<open>auto simp: Worker work_def Fetched run\<close>)
  next
    case (Sending res)
    then have mem: "Sending res \<in> set (workers p)" using i by (metis nth_mem)
    show ?thesis
      by (rule move [where w = Ready and touched = "[]"])
        (use parts(4) [of res] mem in \<open>auto simp: Worker work_def Sending\<close>)
  qed (use Worker can in auto)
qed

section \<open>The fan-out\<close>

text \<open>One abstract write for each target, with the outcome that is reported for it.\<close>

definition fan_out_refines ::
  "lib \<Rightarrow> clusterProjection \<Rightarrow> obj \<Rightarrow> string list \<Rightarrow> (gvk \<times> objectKey \<Rightarrow> obj option) \<Rightarrow> str_map \<Rightarrow>
   (gvk \<times> objectKey \<Rightarrow> obj option) \<Rightarrow> bool" where
  "fan_out_refines L cp src targets before msgs after \<longleftrightarrow>
     (\<forall>ns \<in> set targets. \<exists>reason. stepped L cp src before after ns reason \<and>
        (reason = '''' \<longleftrightarrow> ns |\<notin>| fmdom msgs)) \<and>
     (\<forall>k. k \<notin> cluster_id L cp src ` set targets \<longrightarrow> after k = before k)"

lemma fanOut_refines:
  fixes D :: "'w deps" and s :: "'w sys"
  assumes ok: "lib_ok (library D)" and m: "metadata_of src = Some m" and srv: "server_ok D held"
    and dist: "distinct targets"
  shows "wp (fanOut D sched cp src targets) (\<lambda>(w, f, msgs) t.
    fan_out_refines (library D) cp src targets (held (world s)) msgs (held (world t))) s"
proof (rule fanOut_cases)
  fix p
  let ?p = "pool_start targets (cpr_SelectorWriteConcurrency (cpr s)) s"
  let ?n = "length (workers ?p)" and ?h = "held (world s)" and ?L = "library D"
  let ?I = "\<lambda>p. pool_inv targets ?n p \<and> refine_inv ?L cp src held ?h targets p"
  assume ne: "targets \<noteq> []" and steps: "pool_steps D cp src ?p p"
    and fin: "finished_pool p" "unsent p = []" "jobs p = []"
  have "refine_inv ?L cp src held ?h targets ?p"
    by (auto simp: refine_inv_def pool_start_def Let_def places_def)
  with ne have "?I ?p" by (simp add: pool_start_inv)
  then have "?I p"
  proof (rule pool_invariant [OF steps, where I = ?I])
    fix p a
    assume "?I p" and can: "can p a"
    then show "?I (perform D cp src a p)"
      using refine_inv_perform [OF ok m srv _ pool_inv_places [OF _ dist] can] pool_inv_perform
      by blast
  qed
  then have inv: "refine_inv ?L cp src held ?h targets p" by simp
  have "set (places p) = {}"
    using fin by (auto simp: places_def finished_pool_def list_all_iff)
  with refine_parts(1,5) [OF inv]
  show "(case (written p, failed p, failureMsgs p) of (w, f, msgs) \<Rightarrow> \<lambda>t.
    fan_out_refines ?L cp src targets ?h msgs (held (world t))) (psys p)"
    by (simp add: fan_out_refines_def)
qed (simp add: fan_out_refines_def)

lemma fan_out_in_sync:
  assumes "fan_out_refines L cp src targets h msgs h'" and "ns \<in> set targets" and "ns |\<notin>| fmdom msgs"
  shows "cluster_slot L cp src h' ns = InSync"
proof -
  from assms obtain reason where "stepped L cp src h h' ns reason" "reason = []"
    unfolding fan_out_refines_def by blast
  then show ?thesis by (simp add: stepped_def success_in_sync)
qed

text \<open>
  C8: the concurrent fan-out refines independent atomic writes: over any API server that stores what it
  accepts and under every interleaving of the workers, the destination of each target takes one
  abstract step, which is a success exactly if its namespace is not reported as failed, and no
  other object changes. In particular a destination that is someone else's is left as it is and
  reported, and every target that is not reported is in sync afterwards.
\<close>

theorem fanOut_refines_slot_steps:
  assumes "lib_ok (library D)" and "metadata_of src = Some m" and "server_ok D held"
    and "distinct targets"
  shows "wp (fanOut D sched cp src targets) (\<lambda>(w, f, msgs) t.
    fan_out_refines (library D) cp src targets (held (world s)) msgs (held (world t)) \<and>
    (\<forall>ns \<in> set targets. ns |\<notin>| fmdom msgs \<longrightarrow>
       cluster_slot (library D) cp src (held (world t)) ns = InSync)) s"
  by (rule wp_mono [OF fanOut_refines [OF assms]])
    (simp only: split_paired_all prod.case, blast intro: fan_out_in_sync)

theorem fanOut_refines_slot_steps_witness:
  "wp (fanOut memory_deps (\<lambda>_. 0) sample_clusterProjection sample_source [''a'', ''b'']) (\<lambda>(w, f, msgs) t.
    fan_out_refines ref_lib sample_clusterProjection sample_source [''a'', ''b''] (world memory_sys) msgs
      (world t) \<and>
    list_all (\<lambda>ns. ns |\<notin>| fmdom msgs \<longrightarrow>
       cluster_slot ref_lib sample_clusterProjection sample_source (world t) ns = InSync) [''a'', ''b'']) memory_sys"
  using fanOut_refines_slot_steps [OF memory_library_ok memory_source memory_server_ok, of "[''a'', ''b'']"
      "\<lambda>_. 0" sample_clusterProjection memory_sys]
  by (simp add: memory_library)

section \<open>A second fan-out\<close>

context destination_writer
begin

lemma finish_still:
  fixes D :: "'w deps" and s :: "'w sys"
  assumes srv: "server_ok D held"
    and fetched: "seen (library D) (held (world s))
      (id_of (library D) (t_build T (library D) source c ns)) fetched"
    and sync: "slot_of (library D) (\<lambda>x. t_owned T (library D) x c) (t_build T (library D) source c ns)
      (held (world s) (id_of (library D) (t_build T (library D) source c ns))) = InSync"
  shows "wp (write_finish D T c source ns fetched) (\<lambda>_ t. held (world t) = held (world s) \<and>
    (\<exists>cs. calls t = calls s @ cs \<and> filter mutates cs = [])) s"
proof (cases fetched)
  case (Inl e)
  with fetched sync have "\<not> IsNotFound (library D) e" by (auto simp: seen_def slot_of_def)
  with Inl show ?thesis
    using server_events [OF srv]
    by (auto simp: write_finish_def write_failed_def Let_def wp_rules split: option.splits)
next
  case (Inr x)
  with fetched sync have "t_owned T (library D) x c"
    "\<not> needsUpdate (library D) x (preserveAPIServerAllocatedFields (library D) x
      (t_build T (library D) source c ns))"
    by (auto simp: seen_def slot_of_def split: if_splits)
  with Inr show ?thesis by (simp add: write_finish_def Let_def wp_rules)
qed

end

text \<open>While every target is in sync, no step of the pool changes anything.\<close>

definition still_inv ::
  "lib \<Rightarrow> clusterProjection \<Rightarrow> obj \<Rightarrow> 'w held_by \<Rightarrow> (gvk \<times> objectKey \<Rightarrow> obj option) \<Rightarrow> call list \<Rightarrow>
   'w pool \<Rightarrow> bool" where
  "still_inv L cp src held h before p \<longleftrightarrow> held (world (psys p)) = h \<and>
     (\<exists>cs. calls (psys p) = before @ cs \<and> filter mutates cs = []) \<and>
     (\<forall>ns r. Fetched ns r \<in> set (workers p) \<longrightarrow> seen L h (cluster_id L cp src ns) r)"

lemma still_inv_perform:
  fixes D :: "'w deps"
  assumes ok: "lib_ok (library D)" and m: "metadata_of src = Some m" and srv: "server_ok D held"
    and sync: "\<And>ns. ns \<in> set targets \<Longrightarrow> cluster_slot (library D) cp src h ns = InSync"
    and inv: "still_inv (library D) cp src held h before p" and pool: "pool_inv targets n p"
    and can: "can p a"
  shows "still_inv (library D) cp src held h before (perform D cp src a p)"
proof (cases a)
  case (Worker i)
  let ?L = "library D"
  from Worker can have i: "i < length (workers p)" by simp
  have other: "Fetched ns r \<in> set ((workers p)[i := w]) \<Longrightarrow> Fetched ns r \<noteq> w \<Longrightarrow>
      Fetched ns r \<in> set (workers p)" for ns r w
    using set_update_subset_insert [of "workers p" i w] by auto
  from inv obtain cs where now: "held (world (psys p)) = h"
      "calls (psys p) = before @ cs" "filter mutates cs = []"
    and fetched: "\<And>ns r. Fetched ns r \<in> set (workers p) \<Longrightarrow> seen ?L h (cluster_id ?L cp src ns) r"
    unfolding still_inv_def by blast
  show ?thesis
  proof (cases "workers p ! i")
    case (Working ns)
    obtain r w where got: "client_Get D (GroupVersionKind ?L src) (clusterDestinationKey ?L src cp ns)
        (world (psys p)) = (r, w)" by fastforce
    note f = fetchD [OF server_parts(1) [OF srv] got, folded cluster_id_fetched [OF ok m]]
    have "seen ?L h (cluster_id ?L cp src ns) r"
      using f now(1) by (auto simp: seen_def split: sum.splits)
    with Worker Working f(1) now fetched show ?thesis
      by (auto simp: still_inv_def work_def get_Object_def api_call_def got dest!: other)
  next
    case (Fetched ns r)
    have mem: "Fetched ns r \<in> set (workers p)" using i Fetched by (metis nth_mem)
    then have "ns \<in> set targets" by (rule pool_inv_holds [OF pool]) simp
    then have "wp (write_finish D cp_ops cp src ns r) (\<lambda>_ t. held (world t) = held (world (psys p)) \<and>
        (\<exists>cs. calls t = calls (psys p) @ cs \<and> filter mutates cs = [])) (psys p)"
      using cp_writer.finish_still [OF srv, where fetched = r and s = "psys p" and c = cp and ns = ns
          and source = src] fetched [OF mem] sync now(1)
      by (simp add: cluster_id_def cluster_slot_def)
    with Worker Fetched now fetched show ?thesis
      by (auto simp: still_inv_def work_def switch_template wp_def split: prod.splits dest!: other)
  qed (use Worker can inv in \<open>auto simp: work_def still_inv_def split: list.splits dest!: other\<close>)
qed (use inv in \<open>auto simp: still_inv_def collect_def main_step_def split: phase.splits list.splits\<close>)

lemma fanOut_still:
  fixes D :: "'w deps" and s :: "'w sys"
  assumes ok: "lib_ok (library D)" and m: "metadata_of src = Some m" and srv: "server_ok D held"
    and sync: "\<And>ns. ns \<in> set targets \<Longrightarrow> cluster_slot (library D) cp src (held (world s)) ns = InSync"
  shows "wp (fanOut D sched cp src targets) (\<lambda>_ t. \<exists>cs. calls t = calls s @ cs \<and>
    filter mutates cs = []) s"
proof (rule fanOut_cases)
  fix p
  let ?p = "pool_start targets (cpr_SelectorWriteConcurrency (cpr s)) s"
  let ?n = "length (workers ?p)" and ?h = "held (world s)" and ?L = "library D"
  let ?I = "\<lambda>p. pool_inv targets ?n p \<and> still_inv ?L cp src held ?h (calls s) p"
  assume ne: "targets \<noteq> []" and steps: "pool_steps D cp src ?p p"
  have "still_inv ?L cp src held ?h (calls s) ?p"
    by (auto simp: still_inv_def pool_start_def Let_def)
  with ne have "?I ?p" by (simp add: pool_start_inv)
  then have "?I p"
    by (rule pool_invariant [OF steps, where I = ?I])
      (use still_inv_perform [OF ok m srv sync] pool_inv_perform in blast)
  then show "\<exists>cs. calls (psys p) = calls s @ cs \<and> filter mutates cs = []"
    by (simp add: still_inv_def)
qed simp

text \<open>
  C10: a fan-out that reports no failure is final: fanning out the same source to the same targets again,
  under whatever interleaving, makes no create, update or delete call.
\<close>

theorem fanOut_converges:
  fixes D :: "'w deps" and s :: "'w sys"
  assumes "lib_ok (library D)" and "metadata_of src = Some m" and "server_ok D held"
    and "distinct targets"
  shows "wp (fanOut D sched cp src targets) (\<lambda>(w, f, msgs) t. f = 0 \<longrightarrow>
    wp (fanOut D sched' cp src targets) (\<lambda>_ u. \<exists>cs. calls u = calls t @ cs \<and>
      filter mutates cs = []) t) s"
proof -
  let ?again = "\<lambda>t. wp (fanOut D sched' cp src targets) (\<lambda>_ u. \<exists>cs. calls u = calls t @ cs \<and>
      filter mutates cs = []) t"
  have again: "?again t" if "fan_out_refines (library D) cp src targets h fmempty (held (world t))"
    for h and t :: "'w sys"
    by (rule fanOut_still [OF assms(1-3)]) (rule fan_out_in_sync [OF that], simp_all)
  have "wp (fanOut D sched cp src targets) (\<lambda>r t.
    (case r of (w, f, msgs) \<Rightarrow> \<lambda>t. fan_out_refines (library D) cp src targets (held (world s)) msgs
      (held (world t))) t \<and>
    (case r of (w, f, msgs) \<Rightarrow> \<lambda>t. w + f = length targets \<and> fset (fmdom msgs) \<subseteq> set targets \<and>
      (f = 0 \<longleftrightarrow> msgs = fmempty) \<and> (distinct targets \<longrightarrow> fcard (fmdom msgs) = f)) t) s"
    unfolding wp_conj by (rule conjI [OF fanOut_refines [OF assms] fanOut_counts])
  then show ?thesis
    by (rule wp_mono) (simp only: split_paired_all prod.case, blast intro: again)
qed

theorem fanOut_converges_witness:
  "wp (fanOut memory_deps (\<lambda>_. 0) sample_clusterProjection sample_source [''a'', ''b'']) (\<lambda>(w, f, msgs) t.
    f = 0 \<longrightarrow> wp (fanOut memory_deps (\<lambda>_. 1) sample_clusterProjection sample_source [''a'', ''b''])
      (\<lambda>_ u. \<exists>cs. calls u = calls t @ cs \<and> filter mutates cs = []) t) memory_sys"
  by (rule fanOut_converges [OF memory_library_ok memory_source memory_server_ok]) simp

end
