(* ===== verification/Bench_Stamp.thy ===== *)
theory Bench_Stamp
  imports Idempotence
begin

text \<open>
  \<^verbatim>\<open>logBenchStampLatency\<close> of \<^verbatim>\<open>projection_controller.go\<close>: the line that it logs when the source
  carries the stamp of the benchmark harness, as a value. It reads a 64-bit integer from an
  annotation and subtracts times, both with Go's bounds: a number out of range is no stamp, and a
  duration saturates.
\<close>

definition benchStampAnnotation :: string where
  "benchStampAnnotation = ''bench.projection.sh/stamp''"

definition minInt64 :: int where "minInt64 = - (2 ^ 63)"
definition maxInt64 :: int where "maxInt64 = 2 ^ 63 - 1"

text \<open>\<^verbatim>\<open>strconv.ParseInt(v, 10, 64)\<close>: an optional sign and decimal digits, in range.\<close>

definition ParseInt64 :: "string \<Rightarrow> int option" where
  "ParseInt64 v =
     (let negative = (v \<noteq> [] \<and> hd v = CHR ''-'');
          ds = (if v \<noteq> [] \<and> (hd v = CHR ''-'' \<or> hd v = CHR ''+'') then tl v else v);
          i = (if negative then - int (read_nat ds) else int (read_nat ds))
      in if ds = [] \<or> \<not> list_all is_digit ds \<or> i < minInt64 \<or> maxInt64 < i then None else Some i)"

text \<open>
  \<^verbatim>\<open>time.Since\<close> of \<^verbatim>\<open>time.Unix(0, nanos)\<close>, and \<^verbatim>\<open>Milliseconds\<close>, which truncates toward zero.
\<close>

definition Since :: "int \<Rightarrow> int \<Rightarrow> int" where
  "Since now nanos = max minInt64 (min maxInt64 (now - nanos))"

definition Milliseconds :: "int \<Rightarrow> int" where
  "Milliseconds d = (if d < 0 then - (- d div 1000000) else d div 1000000)"

record benchLine =
  bl_phase :: string
  bl_delta_ms :: int
  bl_name :: string
  bl_namespace :: string

definition logBenchStampLatency :: "lib \<Rightarrow> int \<Rightarrow> obj \<Rightarrow> string \<Rightarrow> benchLine option" where
  "logBenchStampLatency L now source phase =
     (let v = (case fmlookup (nil_map (GetAnnotations L source)) benchStampAnnotation of
            None \<Rightarrow> '''' | Some v \<Rightarrow> v)
      in if v = '''' then None
         else case ParseInt64 v of
             None \<Rightarrow> None
           | Some nanos \<Rightarrow> Some \<lparr>bl_phase = phase, bl_delta_ms = Milliseconds (Since now nanos),
               bl_name = GetName L source, bl_namespace = GetNamespace L source\<rparr>)"

section \<open>Reading back what was written\<close>

lemma is_digit_char: "d < 10 \<Longrightarrow> is_digit (digit_char d)"
  by (simp add: is_digit_def digit_char_def less_eq_char_def)

lemma show_nat_digits: "list_all is_digit (show_nat n)"
proof (induction n rule: show_nat.induct)
  case (1 n)
  then show ?case by (subst show_nat.simps) (simp add: is_digit_char)
qed

lemma show_nat_nonempty: "show_nat n \<noteq> []"
  by (subst show_nat.simps) simp

lemma digit_no_sign: "is_digit c \<Longrightarrow> c \<noteq> CHR ''-'' \<and> c \<noteq> CHR ''+''"
  by (auto simp: is_digit_def less_eq_char_def)

lemma show_nat_no_sign: "hd (show_nat n) \<noteq> CHR ''-'' \<and> hd (show_nat n) \<noteq> CHR ''+''"
  using show_nat_digits [of n] show_nat_nonempty [of n] digit_no_sign
  by (cases "show_nat n") auto

lemma ParseInt64_show_int:
  "minInt64 \<le> i \<Longrightarrow> i \<le> maxInt64 \<Longrightarrow> ParseInt64 (show_int i) = Some i"
  using show_nat_no_sign [of "nat i"]
  by (auto simp: ParseInt64_def show_int_def Let_def show_nat_digits show_nat_nonempty)

lemma show_int_nonempty: "show_int i \<noteq> ''''"
  by (simp add: show_int_def show_nat_nonempty)

lemma Milliseconds_bounds:
  "minInt64 \<le> d \<Longrightarrow> d \<le> maxInt64 \<Longrightarrow> \<bar>Milliseconds d\<bar> * 1000000 \<le> \<bar>d\<bar> \<and>
     \<bar>d\<bar> < (\<bar>Milliseconds d\<bar> + 1) * 1000000"
  by (simp add: Milliseconds_def) linarith

text \<open>
  The bench stamp is read back as it was written: for a source annotated with the decimal digits of
  any 64-bit number of nanoseconds, the logged latency is the time since then in whole
  milliseconds, rounded toward zero, with the duration saturating at the bounds of 64 bits; and
  without the annotation, with an empty one, or with one that is no 64-bit number, nothing is
  logged.
\<close>

lemma bench_stamp_read_back:
  defines "stamp \<equiv> \<lambda>L source. fmlookup (nil_map (GetAnnotations L source)) benchStampAnnotation"
  shows "(\<forall>i. stamp L source = Some (show_int i) \<longrightarrow> minInt64 \<le> i \<longrightarrow> i \<le> maxInt64 \<longrightarrow>
      (\<exists>line. logBenchStampLatency L now source phase = Some line \<and> bl_phase line = phase \<and>
         bl_name line = GetName L source \<and> bl_namespace line = GetNamespace L source \<and>
         bl_delta_ms line = Milliseconds (Since now i) \<and>
         (minInt64 \<le> now - i \<and> now - i \<le> maxInt64 \<longrightarrow>
            \<bar>bl_delta_ms line\<bar> * 1000000 \<le> \<bar>now - i\<bar> \<and>
            \<bar>now - i\<bar> < (\<bar>bl_delta_ms line\<bar> + 1) * 1000000))) \<and>
    ((case stamp L source of None \<Rightarrow> True | Some v \<Rightarrow> v = '''' \<or> ParseInt64 v = None) \<longrightarrow>
      logBenchStampLatency L now source phase = None)"
  using Milliseconds_bounds
  by (auto simp: stamp_def logBenchStampLatency_def Let_def ParseInt64_show_int show_int_nonempty
      Since_def split: option.splits)

definition stamped_source :: obj where
  "stamped_source = fmap_of_list
     [(''metadata'', JObject (fmap_of_list
        [(''name'', JString ''app-config''), (''namespace'', JString ''platform''),
         (''annotations'', JObject (fmap_of_list
            [(''bench.projection.sh/stamp'', JString (show_int 1700000000000000000))]))]))]"

lemma bench_stamp_read_back_example:
  "\<exists>line. logBenchStampLatency ref_lib 1700000000123999999 stamped_source ''source-fetched'' = Some line \<and>
     bl_delta_ms line = 123"
proof -
  have "fmlookup (nil_map (GetAnnotations ref_lib stamped_source)) benchStampAnnotation =
      Some (show_int 1700000000000000000)"
    by (auto simp: stamped_source_def ref_lib_def ref_get_def metadata_of_def read_str_map_def
        benchStampAnnotation_def fmlookup_of_list fmpred_iff is_str_def un_str_def split: if_splits)
  with bench_stamp_read_back [of ref_lib stamped_source 1700000000123999999 "''source-fetched''"]
  have "\<exists>line. logBenchStampLatency ref_lib 1700000000123999999 stamped_source ''source-fetched'' = Some line \<and>
     bl_delta_ms line = Milliseconds (Since 1700000000123999999 1700000000000000000)"
    by (fastforce simp: minInt64_def maxInt64_def)
  then show ?thesis by (simp add: Milliseconds_def Since_def minInt64_def maxInt64_def)
qed

end
