(* ===== verification/Deep_Copy.thy ===== *)
theory Deep_Copy
  imports Idempotence
begin

text \<open>
  \<^verbatim>\<open>api/v1/zz_generated.deepcopy.go\<close>: the copies that the cache of the client library hands to a
  reconciler, which then changes them in place. Here, unlike in the rest of the development, maps,
  slices and pointers are addresses in a heap, since what matters is what a copy shares with
  its original: nothing.
\<close>

section \<open>Go values\<close>

type_synonym addr = nat

text \<open>
  The resource types with references where Go has them; \<open>None\<close> is nil. The embedded types of the
  API machinery are values of the type parameter, whatever references they hold.
\<close>

record gOverlay =
  go_Labels :: "addr option"
  go_Annotations :: "addr option"

record gProjectionSpec =
  gps_Source :: sourceRef
  gps_Destination :: projectionDestination
  gps_Overlay :: gOverlay

record gProjectionStatus =
  gpt_Conditions :: "addr option"
  gpt_DestinationName :: string

record 'x gProjection =
  gp_TypeMeta :: "string \<times> string"
  gp_ObjectMeta :: 'x
  gp_Spec :: gProjectionSpec
  gp_Status :: gProjectionStatus

record gClusterProjectionDestination =
  gcd_Namespaces :: "addr option"
  gcd_NamespaceSelector :: "addr option"
  gcd_Name :: string

record gClusterProjectionSpec =
  gcs_Source :: sourceRef
  gcs_Destination :: gClusterProjectionDestination
  gcs_Overlay :: gOverlay

record gClusterProjectionStatus =
  gct_Conditions :: "addr option"
  gct_DestinationName :: string
  gct_NamespacesWritten :: "32 word"
  gct_NamespacesFailed :: "32 word"

record 'x gClusterProjection =
  gc_TypeMeta :: "string \<times> string"
  gc_ObjectMeta :: 'x
  gc_Spec :: gClusterProjectionSpec
  gc_Status :: gClusterProjectionStatus

text \<open>The two list types differ in the type of their items.\<close>

record 'x gList =
  gl_TypeMeta :: "string \<times> string"
  gl_ListMeta :: 'x
  gl_Items :: "addr option"

text \<open>What can be allocated: maps, the arrays of slices, and the structs that pointers point to.\<close>

datatype 'x cell =
    MapCell str_map
  | StringsCell "string list"
  | ConditionsCell "condition list"
  | ProjectionsCell "'x gProjection list"
  | ClusterProjectionsCell "'x gClusterProjection list"
  | LabelSelectorCell 'x
  | SourceRefCell sourceRef
  | OverlayCell gOverlay
  | ProjectionDestinationCell projectionDestination
  | ProjectionSpecCell gProjectionSpec
  | ProjectionStatusCell gProjectionStatus
  | ProjectionCell "'x gProjection"
  | ProjectionListCell "'x gList"
  | ClusterProjectionDestinationCell gClusterProjectionDestination
  | ClusterProjectionSpecCell gClusterProjectionSpec
  | ClusterProjectionStatusCell gClusterProjectionStatus
  | ClusterProjectionCell "'x gClusterProjection"
  | ClusterProjectionListCell "'x gList"
  | OtherCell 'x

record 'x heap =
  cells :: "addr \<Rightarrow> 'x cell option"
  limit :: addr

definition alloc :: "'x cell \<Rightarrow> ('x heap, addr) state" where
  "alloc c = State (\<lambda>h. (limit h, h\<lparr>cells := (cells h)(limit h \<mapsto> c), limit := Suc (limit h)\<rparr>))"

definition store :: "addr \<Rightarrow> 'x cell \<Rightarrow> ('x heap, unit) state" where
  "store a c = State_Monad.update (\<lambda>h. h\<lparr>cells := (cells h)(a \<mapsto> c)\<rparr>)"

definition load :: "('x cell \<Rightarrow> 'v option) \<Rightarrow> 'x heap \<Rightarrow> addr option \<Rightarrow> 'v option" where
  "load sel h p = (case p of None \<Rightarrow> None | Some a \<Rightarrow>
     (case cells h a of None \<Rightarrow> None | Some c \<Rightarrow> sel c))"

text \<open>
  Copying what a reference points to into a fresh cell; nil stays nil. (A reference to a cell of
  another type cannot occur in Go; it reads as nil here.)
\<close>

definition copy_ref ::
  "('x cell \<Rightarrow> 'v option) \<Rightarrow> ('v \<Rightarrow> 'x cell) \<Rightarrow> ('v \<Rightarrow> ('x heap, 'v) state) \<Rightarrow> addr option \<Rightarrow>
   ('x heap, addr option) state" where
  "copy_ref sel mk into p = do {
     h \<leftarrow> State_Monad.get;
     case load sel h p of
       None \<Rightarrow> State_Monad.return None
     | Some x \<Rightarrow> do {
         a \<leftarrow> alloc (mk x);
         y \<leftarrow> into x;
         store a (mk y);
         State_Monad.return (Some a)
       }
   }"

text \<open>A copy by \<^verbatim>\<open>range\<close> over a map, and the element-wise copy of a slice.\<close>

definition range_copy :: "str_map \<Rightarrow> str_map" where
  "range_copy m = fold (\<lambda>(key, val) out. fmupd key val out) (sorted_list_of_fmap m) fmempty"

primrec copy_all :: "('v \<Rightarrow> ('x heap, 'v) state) \<Rightarrow> 'v list \<Rightarrow> ('x heap, 'v list) state" where
  "copy_all into [] = State_Monad.return []"
| "copy_all into (x # xs) = do {
     y \<leftarrow> into x;
     ys \<leftarrow> copy_all into xs;
     State_Monad.return (y # ys)
   }"

fun mapCell :: "'x cell \<Rightarrow> str_map option" where
  "mapCell (MapCell m) = Some m" | "mapCell _ = None"
fun stringsCell :: "'x cell \<Rightarrow> string list option" where
  "stringsCell (StringsCell xs) = Some xs" | "stringsCell _ = None"
fun conditionsCell :: "'x cell \<Rightarrow> condition list option" where
  "conditionsCell (ConditionsCell xs) = Some xs" | "conditionsCell _ = None"
fun projectionsCell :: "'x cell \<Rightarrow> 'x gProjection list option" where
  "projectionsCell (ProjectionsCell xs) = Some xs" | "projectionsCell _ = None"
fun clusterProjectionsCell :: "'x cell \<Rightarrow> 'x gClusterProjection list option" where
  "clusterProjectionsCell (ClusterProjectionsCell xs) = Some xs" | "clusterProjectionsCell _ = None"
fun labelSelectorCell :: "'x cell \<Rightarrow> 'x option" where
  "labelSelectorCell (LabelSelectorCell x) = Some x" | "labelSelectorCell _ = None"
fun sourceRefCell :: "'x cell \<Rightarrow> sourceRef option" where
  "sourceRefCell (SourceRefCell x) = Some x" | "sourceRefCell _ = None"
fun overlayCell :: "'x cell \<Rightarrow> gOverlay option" where
  "overlayCell (OverlayCell x) = Some x" | "overlayCell _ = None"
fun projectionDestinationCell :: "'x cell \<Rightarrow> projectionDestination option" where
  "projectionDestinationCell (ProjectionDestinationCell x) = Some x" | "projectionDestinationCell _ = None"
fun projectionSpecCell :: "'x cell \<Rightarrow> gProjectionSpec option" where
  "projectionSpecCell (ProjectionSpecCell x) = Some x" | "projectionSpecCell _ = None"
fun projectionStatusCell :: "'x cell \<Rightarrow> gProjectionStatus option" where
  "projectionStatusCell (ProjectionStatusCell x) = Some x" | "projectionStatusCell _ = None"
fun projectionCell :: "'x cell \<Rightarrow> 'x gProjection option" where
  "projectionCell (ProjectionCell x) = Some x" | "projectionCell _ = None"
fun projectionListCell :: "'x cell \<Rightarrow> 'x gList option" where
  "projectionListCell (ProjectionListCell x) = Some x" | "projectionListCell _ = None"
fun clusterProjectionDestinationCell :: "'x cell \<Rightarrow> gClusterProjectionDestination option" where
  "clusterProjectionDestinationCell (ClusterProjectionDestinationCell x) = Some x"
| "clusterProjectionDestinationCell _ = None"
fun clusterProjectionSpecCell :: "'x cell \<Rightarrow> gClusterProjectionSpec option" where
  "clusterProjectionSpecCell (ClusterProjectionSpecCell x) = Some x" | "clusterProjectionSpecCell _ = None"
fun clusterProjectionStatusCell :: "'x cell \<Rightarrow> gClusterProjectionStatus option" where
  "clusterProjectionStatusCell (ClusterProjectionStatusCell x) = Some x"
| "clusterProjectionStatusCell _ = None"
fun clusterProjectionCell :: "'x cell \<Rightarrow> 'x gClusterProjection option" where
  "clusterProjectionCell (ClusterProjectionCell x) = Some x" | "clusterProjectionCell _ = None"
fun clusterProjectionListCell :: "'x cell \<Rightarrow> 'x gList option" where
  "clusterProjectionListCell (ClusterProjectionListCell x) = Some x" | "clusterProjectionListCell _ = None"

section \<open>What a deep copy is\<close>

definition heap_ok :: "'x heap \<Rightarrow> bool" where
  "heap_ok h \<longleftrightarrow> (\<forall>a. limit h \<le> a \<longrightarrow> cells h a = None)"

definition extends :: "'x heap \<Rightarrow> 'x heap \<Rightarrow> bool" where
  "extends h h' \<longleftrightarrow> limit h \<le> limit h' \<and> (\<forall>a < limit h. cells h' a = cells h a)"

text \<open>
  \<open>copies into val reach\<close>: the operation returns a value with the same content, changes nothing
  that was allocated before, and the result reaches fresh cells only. The content of a value
  depends on the cells it reaches and on no others.
\<close>

definition copies ::
  "('v \<Rightarrow> ('x heap, 'v) state) \<Rightarrow> ('x heap \<Rightarrow> 'v \<Rightarrow> 'c) \<Rightarrow> ('x heap \<Rightarrow> 'v \<Rightarrow> addr set) \<Rightarrow> bool" where
  "copies into val reach \<longleftrightarrow>
     (\<forall>x h. heap_ok h \<longrightarrow> reach h x \<subseteq> {..<limit h} \<longrightarrow>
        (case run_state (into x) h of (y, h') \<Rightarrow>
           heap_ok h' \<and> extends h h' \<and> val h' y = val h x \<and> reach h' y \<subseteq> {limit h..<limit h'})) \<and>
     (\<forall>x h h'. (\<forall>a \<in> reach h x. cells h' a = cells h a) \<longrightarrow>
        val h' x = val h x \<and> reach h' x = reach h x)"

lemma copiesD:
  assumes "copies into val reach"
  shows "heap_ok h \<Longrightarrow> reach h x \<subseteq> {..<limit h} \<Longrightarrow> run_state (into x) h = (y, h') \<Longrightarrow>
      heap_ok h' \<and> extends h h' \<and> val h' y = val h x \<and> reach h' y \<subseteq> {limit h..<limit h'}"
    and "(\<And>a. a \<in> reach h x \<Longrightarrow> cells h' a = cells h a) \<Longrightarrow> val h' x = val h x"
    and "(\<And>a. a \<in> reach h x \<Longrightarrow> cells h' a = cells h a) \<Longrightarrow> reach h' x = reach h x"
proof -
  show "heap_ok h' \<and> extends h h' \<and> val h' y = val h x \<and> reach h' y \<subseteq> {limit h..<limit h'}"
    if "heap_ok h" "reach h x \<subseteq> {..<limit h}" "run_state (into x) h = (y, h')"
    using assms [unfolded copies_def, THEN conjunct1, THEN spec, THEN spec, THEN mp, THEN mp, OF that(1,2)]
    by (simp only: that(3) prod.case)
  note local = assms [unfolded copies_def, THEN conjunct2, THEN spec [of _ x], THEN spec [of _ h],
      THEN spec [of _ h'], THEN mp]
  show "val h' x = val h x" if "\<And>a. a \<in> reach h x \<Longrightarrow> cells h' a = cells h a"
    by (rule local [THEN conjunct1]) (use that in blast)
  show "reach h' x = reach h x" if "\<And>a. a \<in> reach h x \<Longrightarrow> cells h' a = cells h a"
    by (rule local [THEN conjunct2]) (use that in blast)
qed

lemma copiesI:
  fixes into :: "'v \<Rightarrow> ('x heap, 'v) state"
  assumes "\<And>x h y h'. heap_ok h \<Longrightarrow> reach h x \<subseteq> {..<limit h} \<Longrightarrow> run_state (into x) h = (y, h') \<Longrightarrow>
      heap_ok h' \<and> extends h h' \<and> val h' y = val h x \<and> reach h' y \<subseteq> {limit h..<limit h'}"
    and "\<And>x h h'. (\<And>a. a \<in> reach h x \<Longrightarrow> cells h' a = cells h a) \<Longrightarrow>
      val h' x = val h x \<and> reach h' x = reach h x"
  shows "copies into val reach"
  unfolding copies_def
proof (intro conjI allI impI)
  fix x and h :: "'x heap"
  assume h: "heap_ok h" "reach h x \<subseteq> {..<limit h}"
  obtain y h' where run: "run_state (into x) h = (y, h')" by fastforce
  show "case run_state (into x) h of (y, h') \<Rightarrow>
      heap_ok h' \<and> extends h h' \<and> val h' y = val h x \<and> reach h' y \<subseteq> {limit h..<limit h'}"
    unfolding run prod.case by (rule assms(1) [OF h run])
next
  fix x and h h' :: "'x heap"
  assume "\<forall>a \<in> reach h x. cells h' a = cells h a"
  then show "val h' x = val h x" "reach h' x = reach h x" using assms(2) [of h x h'] by blast+
qed

lemma extends_trans: "extends h h' \<Longrightarrow> extends h' h'' \<Longrightarrow> extends h h''"
  by (auto simp: extends_def)

text \<open>What was allocated before keeps its content through any copy.\<close>

lemma copies_stays:
  assumes "copies into val reach" and "extends h h'" and "reach h x \<subseteq> {..<limit h}"
  shows "val h' x = val h x" and "reach h' x = reach h x"
proof -
  have same: "cells h' a = cells h a" if "a \<in> reach h x" for a
    using assms(2,3) that by (auto simp: extends_def)
  show "val h' x = val h x" using same by (rule copiesD(2) [OF assms(1)])
  show "reach h' x = reach h x" using same by (rule copiesD(3) [OF assms(1)])
qed

lemma copies_value: "copies State_Monad.return (\<lambda>h x. f x) (\<lambda>h x. {})"
  by (rule copiesI) (auto simp: extends_def)

text \<open>A struct is copied field by field.\<close>

lemma copies_struct:
  fixes into :: "'v \<Rightarrow> ('x heap, 'v) state"
  assumes a: "copies into1 val1 reach1" and b: "copies into2 val2 reach2" and c: "copies into3 val3 reach3"
    and into: "\<And>x. into x = State_Monad.bind (into1 (geta x)) (\<lambda>y1.
        State_Monad.bind (into2 (getb x)) (\<lambda>y2.
          State_Monad.bind (into3 (getc x)) (\<lambda>y3. State_Monad.return (put x y1 y2 y3))))"
    and val: "\<And>h x. val h x = f (rest x) (val1 h (geta x)) (val2 h (getb x)) (val3 h (getc x))"
    and reach: "\<And>h x. reach h x = reach1 h (geta x) \<union> reach2 h (getb x) \<union> reach3 h (getc x)"
    and put: "\<And>x y1 y2 y3. geta (put x y1 y2 y3) = y1" "\<And>x y1 y2 y3. getb (put x y1 y2 y3) = y2"
      "\<And>x y1 y2 y3. getc (put x y1 y2 y3) = y3" "\<And>x y1 y2 y3. rest (put x y1 y2 y3) = rest x"
  shows "copies into val reach"
proof (rule copiesI)
  fix x y and h h' :: "'x heap"
  assume ok: "heap_ok h" and r: "reach h x \<subseteq> {..<limit h}" and run: "run_state (into x) h = (y, h')"
  obtain y1 h1 where r1: "run_state (into1 (geta x)) h = (y1, h1)" by fastforce
  obtain y2 h2 where r2: "run_state (into2 (getb x)) h1 = (y2, h2)" by fastforce
  obtain y3 h3 where r3: "run_state (into3 (getc x)) h2 = (y3, h3)" by fastforce
  have res: "y = put x y1 y2 y3" "h' = h3" using run by (simp_all add: into r1 r2 r3)
  have in_h: "reach1 h (geta x) \<subseteq> {..<limit h}" "reach2 h (getb x) \<subseteq> {..<limit h}"
    "reach3 h (getc x) \<subseteq> {..<limit h}" using r by (simp_all add: reach)
  note c1 = copiesD(1) [OF a ok in_h(1) r1]
  then have e1: "extends h h1" by simp
  note s2 = copies_stays [OF b e1 in_h(2)] and s3 = copies_stays [OF c e1 in_h(3)]
  have in_h1: "reach2 h1 (getb x) \<subseteq> {..<limit h1}" "reach3 h1 (getc x) \<subseteq> {..<limit h1}"
    using s2 s3 in_h e1 by (auto simp: extends_def)
  have c2: "heap_ok h2 \<and> extends h1 h2 \<and> val2 h2 y2 = val2 h1 (getb x) \<and>
      reach2 h2 y2 \<subseteq> {limit h1..<limit h2}"
    using c1 by (intro copiesD(1) [OF b _ in_h1(1) r2]) simp
  then have e2: "extends h1 h2" by simp
  note t3 = copies_stays [OF c e2 in_h1(2)]
  have in_h2: "reach3 h2 (getc x) \<subseteq> {..<limit h2}" using t3 in_h1 e2 by (auto simp: extends_def)
  have c3: "heap_ok h3 \<and> extends h2 h3 \<and> val3 h3 y3 = val3 h2 (getc x) \<and>
      reach3 h3 y3 \<subseteq> {limit h2..<limit h3}"
    using c2 by (intro copiesD(1) [OF c _ in_h2 r3]) simp
  then have e3: "extends h2 h3" by simp
  have y1: "val1 h3 y1 = val1 h (geta x)" "reach1 h3 y1 \<subseteq> {limit h..<limit h1}"
    using c1 copies_stays [OF a extends_trans [OF e2 e3], of y1] by force+
  have y2: "val2 h3 y2 = val2 h (getb x)" "reach2 h3 y2 \<subseteq> {limit h1..<limit h2}"
    using c2 s2 copies_stays [OF b e3, of y2] by force+
  have y3: "val3 h3 y3 = val3 h (getc x)" "reach3 h3 y3 \<subseteq> {limit h2..<limit h3}"
    using c3 s3 t3 by simp_all
  have le: "limit h \<le> limit h1" "limit h1 \<le> limit h2" "limit h2 \<le> limit h3"
    using e1 e2 e3 by (simp_all add: extends_def)
  have "reach h3 y \<subseteq> {limit h..<limit h3}"
    using y1(2) y2(2) y3(2) le by (force simp: reach res put)
  moreover have "val h3 y = val h x" by (simp add: val res put y1 y2 y3)
  ultimately show "heap_ok h' \<and> extends h h' \<and> val h' y = val h x \<and> reach h' y \<subseteq> {limit h..<limit h'}"
    using c3 extends_trans [OF e1 extends_trans [OF e2 e3]] by (simp add: res)
next
  fix x and h h' :: "'x heap"
  assume same: "\<And>a. a \<in> reach h x \<Longrightarrow> cells h' a = cells h a"
  have "val1 h' (geta x) = val1 h (geta x) \<and> reach1 h' (geta x) = reach1 h (geta x)"
    using copiesD(2,3) [OF a, of h "geta x" h'] same by (simp add: reach)
  moreover have "val2 h' (getb x) = val2 h (getb x) \<and> reach2 h' (getb x) = reach2 h (getb x)"
    using copiesD(2,3) [OF b, of h "getb x" h'] same by (simp add: reach)
  moreover have "val3 h' (getc x) = val3 h (getc x) \<and> reach3 h' (getc x) = reach3 h (getc x)"
    using copiesD(2,3) [OF c, of h "getc x" h'] same by (simp add: reach)
  ultimately show "val h' x = val h x \<and> reach h' x = reach h x" by (simp add: val reach)
qed

text \<open>A reference is copied with what it refers to, a slice element by element.\<close>

definition ref_val :: "('x cell \<Rightarrow> 'v option) \<Rightarrow> ('x heap \<Rightarrow> 'v \<Rightarrow> 'c) \<Rightarrow> 'x heap \<Rightarrow> addr option \<Rightarrow> 'c option"
where
  "ref_val sel val h p = map_option (val h) (load sel h p)"

definition ref_reach ::
  "('x cell \<Rightarrow> 'v option) \<Rightarrow> ('x heap \<Rightarrow> 'v \<Rightarrow> addr set) \<Rightarrow> 'x heap \<Rightarrow> addr option \<Rightarrow> addr set" where
  "ref_reach sel reach h p = (case p of None \<Rightarrow> {} | Some a \<Rightarrow>
     insert a (case load sel h p of None \<Rightarrow> {} | Some x \<Rightarrow> reach h x))"

lemma copies_ref:
  fixes into :: "'v \<Rightarrow> ('x heap, 'v) state"
  assumes c: "copies into val reach" and sel: "\<And>x. sel (mk x) = Some x"
  shows "copies (copy_ref sel mk into) (ref_val sel val) (ref_reach sel reach)"
proof (rule copiesI)
  fix p q and h h' :: "'x heap"
  assume ok: "heap_ok h" and r: "ref_reach sel reach h p \<subseteq> {..<limit h}"
    and run: "run_state (copy_ref sel mk into p) h = (q, h')"
  show "heap_ok h' \<and> extends h h' \<and> ref_val sel val h' q = ref_val sel val h p \<and>
      ref_reach sel reach h' q \<subseteq> {limit h..<limit h'}"
  proof (cases "load sel h p")
    case None
    with run have "q = None" "h' = h" by (simp_all add: copy_ref_def)
    with None ok show ?thesis by (simp add: extends_def ref_val_def ref_reach_def load_def)
  next
    case (Some x)
    let ?a = "limit h"
    let ?h = "h\<lparr>cells := (cells h)(?a \<mapsto> mk x), limit := Suc ?a\<rparr>"
    obtain y h2 where into: "run_state (into x) ?h = (y, h2)" by fastforce
    have res: "q = Some ?a" "h' = h2\<lparr>cells := (cells h2)(?a \<mapsto> mk y)\<rparr>"
      using run Some into by (simp_all add: copy_ref_def alloc_def store_def State_Monad.update_def)
    have e: "extends h ?h" by (simp add: extends_def)
    have ok1: "heap_ok ?h" using ok by (simp add: heap_ok_def)
    from Some r have rx: "reach h x \<subseteq> {..<limit h}"
      by (cases p) (auto simp: ref_reach_def load_def)
    note stay = copies_stays [OF c e rx]
    have "reach ?h x \<subseteq> {..<limit ?h}" using stay(2) rx by auto
    from copiesD(1) [OF c ok1 this into] have
      c2: "heap_ok h2" "extends ?h h2" "val h2 y = val h x" "reach h2 y \<subseteq> {Suc ?a..<limit h2}"
      using stay by auto
    have lim: "?a < limit h2" using c2(2) by (simp add: extends_def)
    have same: "cells h' b = cells h2 b" if "b \<in> reach h2 y" for b
      using that c2(4) by (auto simp: res)
    have y: "val h' y = val h2 y" "reach h' y = reach h2 y"
      by (rule copiesD(2,3) [OF c], rule same, assumption)+
    have ld: "load sel h' q = Some y" by (simp add: load_def res sel)
    have "heap_ok h'" using c2(1) lim by (simp add: heap_ok_def res)
    moreover have "extends h h'" using c2(2) by (auto simp: extends_def res)
    moreover have "ref_val sel val h' q = ref_val sel val h p"
      by (simp add: ref_val_def ld Some y c2(3))
    moreover have "ref_reach sel reach h' q \<subseteq> {limit h..<limit h'}"
      using c2(4) lim by (auto simp: ref_reach_def res(1) ld [unfolded res(1)] y) (auto simp: res)
    ultimately show ?thesis by blast
  qed
next
  fix p and h h' :: "'x heap"
  assume same: "\<And>a. a \<in> ref_reach sel reach h p \<Longrightarrow> cells h' a = cells h a"
  then have ld: "load sel h' p = load sel h p"
    by (cases p) (simp_all add: ref_reach_def load_def)
  have "val h' x = val h x \<and> reach h' x = reach h x" if "load sel h p = Some x" for x
    using copiesD(2,3) [OF c, of h x h'] same that
    by (cases p) (auto simp: ref_reach_def load_def)
  then show "ref_val sel val h' p = ref_val sel val h p \<and> ref_reach sel reach h' p = ref_reach sel reach h p"
    using ld by (cases p; cases "load sel h p") (simp_all add: ref_val_def ref_reach_def)
qed

lemma copies_all:
  fixes into :: "'v \<Rightarrow> ('x heap, 'v) state"
  assumes c: "copies into val reach"
  shows "copies (copy_all into) (\<lambda>h. map (val h)) (\<lambda>h xs. \<Union>x \<in> set xs. reach h x)"
proof (rule copiesI)
  fix xs ys and h h' :: "'x heap"
  assume "heap_ok h" and "(\<Union>x \<in> set xs. reach h x) \<subseteq> {..<limit h}"
    and "run_state (copy_all into xs) h = (ys, h')"
  then show "heap_ok h' \<and> extends h h' \<and> map (val h') ys = map (val h) xs \<and>
      (\<Union>y \<in> set ys. reach h' y) \<subseteq> {limit h..<limit h'}"
  proof (induction xs arbitrary: h ys)
    case Nil
    then show ?case by (simp add: extends_def)
  next
    case (Cons x xs)
    obtain y h1 where r1: "run_state (into x) h = (y, h1)" by fastforce
    obtain zs h2 where r2: "run_state (copy_all into xs) h1 = (zs, h2)" by fastforce
    have res: "ys = y # zs" "h' = h2" using Cons.prems(3) by (simp_all add: r1 r2)
    have rx: "reach h x \<subseteq> {..<limit h}" and rxs: "\<And>z. z \<in> set xs \<Longrightarrow> reach h z \<subseteq> {..<limit h}"
      using Cons.prems(2) by auto
    note c1 = copiesD(1) [OF c Cons.prems(1) rx r1]
    then have e1: "extends h h1" by simp
    then have le: "limit h \<le> limit h1" by (simp add: extends_def)
    have stay: "val h1 z = val h z" "reach h1 z = reach h z" if "z \<in> set xs" for z
      using copies_stays [OF c e1 rxs [OF that]] by simp_all
    have "(\<Union>z \<in> set xs. reach h1 z) \<subseteq> {..<limit h1}"
      using stay(2) rxs le by fastforce
    with c1 r2 have c2: "heap_ok h2 \<and> extends h1 h2 \<and> map (val h2) zs = map (val h1) xs \<and>
        (\<Union>z \<in> set zs. reach h2 z) \<subseteq> {limit h1..<limit h2}"
      unfolding res(2) [symmetric] by (intro Cons.IH) simp_all
    then have e2: "extends h1 h2" by simp
    have y: "val h2 y = val h x" "reach h2 y \<subseteq> {limit h..<limit h2}"
      using c1 e2 copies_stays [OF c e2, of y] by (force simp: extends_def)+
    have "map (val h2) zs = map (val h) xs" using c2 stay(1) by simp
    moreover have "(\<Union>z \<in> set zs. reach h2 z) \<subseteq> {limit h..<limit h2}" using c2 le by fastforce
    ultimately show ?case
      using c2 y extends_trans [OF e1 e2] by (simp add: res)
  qed
next
  fix xs and h h' :: "'x heap"
  assume same: "\<And>a. a \<in> (\<Union>x \<in> set xs. reach h x) \<Longrightarrow> cells h' a = cells h a"
  have "val h' x = val h x" "reach h' x = reach h x" if "x \<in> set xs" for x
    using copiesD(2,3) [OF c, of h x h'] same that by blast+
  then show "map (val h') xs = map (val h) xs \<and>
      (\<Union>x \<in> set xs. reach h' x) = (\<Union>x \<in> set xs. reach h x)" by simp
qed

section \<open>The generated functions\<close>

text \<open>
  The types of the API machinery bring their own copies: parameters, with the content and the
  cells of their values. A condition is a value: of its fields only the time stamp, which is left out
  here as elsewhere, holds a pointer, and that to an immutable time zone.
\<close>

record 'x apimachinery =
  ObjectMeta_DeepCopyInto :: "'x \<Rightarrow> ('x heap, 'x) state"
  ListMeta_DeepCopyInto :: "'x \<Rightarrow> ('x heap, 'x) state"
  LabelSelector_DeepCopyInto :: "'x \<Rightarrow> ('x heap, 'x) state"
  content :: "'x heap \<Rightarrow> 'x \<Rightarrow> json"
  reaches :: "'x heap \<Rightarrow> 'x \<Rightarrow> addr set"

definition apimachinery_ok :: "'x apimachinery \<Rightarrow> bool" where
  "apimachinery_ok A \<longleftrightarrow> copies (ObjectMeta_DeepCopyInto A) (content A) (reaches A) \<and>
     copies (ListMeta_DeepCopyInto A) (content A) (reaches A) \<and>
     copies (LabelSelector_DeepCopyInto A) (content A) (reaches A)"

abbreviation plain :: "'v \<Rightarrow> ('x heap, 'v) state" where
  "plain \<equiv> State_Monad.return"

text \<open>\<^verbatim>\<open>make\<close> and a loop over the entries; \<^verbatim>\<open>make\<close> and \<^verbatim>\<open>copy\<close>; \<^verbatim>\<open>make\<close> and a loop over the elements.\<close>

definition copy_map :: "addr option \<Rightarrow> ('x heap, addr option) state" where
  "copy_map = copy_ref mapCell MapCell (\<lambda>m. plain (range_copy m))"

definition copy_strings :: "addr option \<Rightarrow> ('x heap, addr option) state" where
  "copy_strings = copy_ref stringsCell StringsCell plain"

definition copy_conditions :: "addr option \<Rightarrow> ('x heap, addr option) state" where
  "copy_conditions = copy_ref conditionsCell ConditionsCell (copy_all plain)"

definition Overlay_DeepCopyInto :: "gOverlay \<Rightarrow> ('x heap, gOverlay) state" where
  "Overlay_DeepCopyInto x = do {
     labels \<leftarrow> copy_map (go_Labels x);
     annotations \<leftarrow> copy_map (go_Annotations x);
     plain (x\<lparr>go_Labels := labels, go_Annotations := annotations\<rparr>)
   }"

definition SourceRef_DeepCopyInto :: "sourceRef \<Rightarrow> ('x heap, sourceRef) state" where
  "SourceRef_DeepCopyInto x = plain x"

definition ProjectionDestination_DeepCopyInto ::
  "projectionDestination \<Rightarrow> ('x heap, projectionDestination) state" where
  "ProjectionDestination_DeepCopyInto x = plain x"

definition ProjectionSpec_DeepCopyInto :: "gProjectionSpec \<Rightarrow> ('x heap, gProjectionSpec) state" where
  "ProjectionSpec_DeepCopyInto x = do {
     overlay \<leftarrow> Overlay_DeepCopyInto (gps_Overlay x);
     plain (x\<lparr>gps_Overlay := overlay\<rparr>)
   }"

definition ProjectionStatus_DeepCopyInto :: "gProjectionStatus \<Rightarrow> ('x heap, gProjectionStatus) state" where
  "ProjectionStatus_DeepCopyInto x = do {
     conditions \<leftarrow> copy_conditions (gpt_Conditions x);
     plain (x\<lparr>gpt_Conditions := conditions\<rparr>)
   }"

definition Projection_DeepCopyInto ::
  "'x apimachinery \<Rightarrow> 'x gProjection \<Rightarrow> ('x heap, 'x gProjection) state" where
  "Projection_DeepCopyInto A x = do {
     meta \<leftarrow> ObjectMeta_DeepCopyInto A (gp_ObjectMeta x);
     spec \<leftarrow> ProjectionSpec_DeepCopyInto (gp_Spec x);
     status \<leftarrow> ProjectionStatus_DeepCopyInto (gp_Status x);
     plain (x\<lparr>gp_ObjectMeta := meta, gp_Spec := spec, gp_Status := status\<rparr>)
   }"

definition ProjectionList_DeepCopyInto :: "'x apimachinery \<Rightarrow> 'x gList \<Rightarrow> ('x heap, 'x gList) state" where
  "ProjectionList_DeepCopyInto A x = do {
     meta \<leftarrow> ListMeta_DeepCopyInto A (gl_ListMeta x);
     items \<leftarrow> copy_ref projectionsCell ProjectionsCell (copy_all (Projection_DeepCopyInto A)) (gl_Items x);
     plain (x\<lparr>gl_ListMeta := meta, gl_Items := items\<rparr>)
   }"

definition ClusterProjectionDestination_DeepCopyInto ::
  "'x apimachinery \<Rightarrow> gClusterProjectionDestination \<Rightarrow> ('x heap, gClusterProjectionDestination) state" where
  "ClusterProjectionDestination_DeepCopyInto A x = do {
     namespaces \<leftarrow> copy_strings (gcd_Namespaces x);
     selector \<leftarrow> copy_ref labelSelectorCell LabelSelectorCell (LabelSelector_DeepCopyInto A)
       (gcd_NamespaceSelector x);
     plain (x\<lparr>gcd_Namespaces := namespaces, gcd_NamespaceSelector := selector\<rparr>)
   }"

definition ClusterProjectionSpec_DeepCopyInto ::
  "'x apimachinery \<Rightarrow> gClusterProjectionSpec \<Rightarrow> ('x heap, gClusterProjectionSpec) state" where
  "ClusterProjectionSpec_DeepCopyInto A x = do {
     destination \<leftarrow> ClusterProjectionDestination_DeepCopyInto A (gcs_Destination x);
     overlay \<leftarrow> Overlay_DeepCopyInto (gcs_Overlay x);
     plain (x\<lparr>gcs_Destination := destination, gcs_Overlay := overlay\<rparr>)
   }"

definition ClusterProjectionStatus_DeepCopyInto ::
  "gClusterProjectionStatus \<Rightarrow> ('x heap, gClusterProjectionStatus) state" where
  "ClusterProjectionStatus_DeepCopyInto x = do {
     conditions \<leftarrow> copy_conditions (gct_Conditions x);
     plain (x\<lparr>gct_Conditions := conditions\<rparr>)
   }"

definition ClusterProjection_DeepCopyInto ::
  "'x apimachinery \<Rightarrow> 'x gClusterProjection \<Rightarrow> ('x heap, 'x gClusterProjection) state" where
  "ClusterProjection_DeepCopyInto A x = do {
     meta \<leftarrow> ObjectMeta_DeepCopyInto A (gc_ObjectMeta x);
     spec \<leftarrow> ClusterProjectionSpec_DeepCopyInto A (gc_Spec x);
     status \<leftarrow> ClusterProjectionStatus_DeepCopyInto (gc_Status x);
     plain (x\<lparr>gc_ObjectMeta := meta, gc_Spec := spec, gc_Status := status\<rparr>)
   }"

definition ClusterProjectionList_DeepCopyInto ::
  "'x apimachinery \<Rightarrow> 'x gList \<Rightarrow> ('x heap, 'x gList) state" where
  "ClusterProjectionList_DeepCopyInto A x = do {
     meta \<leftarrow> ListMeta_DeepCopyInto A (gl_ListMeta x);
     items \<leftarrow> copy_ref clusterProjectionsCell ClusterProjectionsCell
       (copy_all (ClusterProjection_DeepCopyInto A)) (gl_Items x);
     plain (x\<lparr>gl_ListMeta := meta, gl_Items := items\<rparr>)
   }"

text \<open>\<^verbatim>\<open>DeepCopy\<close> on a pointer: nil stays nil, otherwise a new struct is filled by \<^verbatim>\<open>DeepCopyInto\<close>.\<close>

definition SourceRef_DeepCopy :: "addr option \<Rightarrow> ('x heap, addr option) state" where
  "SourceRef_DeepCopy = copy_ref sourceRefCell SourceRefCell SourceRef_DeepCopyInto"

definition Overlay_DeepCopy :: "addr option \<Rightarrow> ('x heap, addr option) state" where
  "Overlay_DeepCopy = copy_ref overlayCell OverlayCell Overlay_DeepCopyInto"

definition ProjectionDestination_DeepCopy :: "addr option \<Rightarrow> ('x heap, addr option) state" where
  "ProjectionDestination_DeepCopy =
     copy_ref projectionDestinationCell ProjectionDestinationCell ProjectionDestination_DeepCopyInto"

definition ProjectionSpec_DeepCopy :: "addr option \<Rightarrow> ('x heap, addr option) state" where
  "ProjectionSpec_DeepCopy = copy_ref projectionSpecCell ProjectionSpecCell ProjectionSpec_DeepCopyInto"

definition ProjectionStatus_DeepCopy :: "addr option \<Rightarrow> ('x heap, addr option) state" where
  "ProjectionStatus_DeepCopy =
     copy_ref projectionStatusCell ProjectionStatusCell ProjectionStatus_DeepCopyInto"

definition Projection_DeepCopy ::
  "'x apimachinery \<Rightarrow> addr option \<Rightarrow> ('x heap, addr option) state" where
  "Projection_DeepCopy A = copy_ref projectionCell ProjectionCell (Projection_DeepCopyInto A)"

definition ProjectionList_DeepCopy ::
  "'x apimachinery \<Rightarrow> addr option \<Rightarrow> ('x heap, addr option) state" where
  "ProjectionList_DeepCopy A =
     copy_ref projectionListCell ProjectionListCell (ProjectionList_DeepCopyInto A)"

definition ClusterProjectionDestination_DeepCopy ::
  "'x apimachinery \<Rightarrow> addr option \<Rightarrow> ('x heap, addr option) state" where
  "ClusterProjectionDestination_DeepCopy A = copy_ref clusterProjectionDestinationCell
     ClusterProjectionDestinationCell (ClusterProjectionDestination_DeepCopyInto A)"

definition ClusterProjectionSpec_DeepCopy ::
  "'x apimachinery \<Rightarrow> addr option \<Rightarrow> ('x heap, addr option) state" where
  "ClusterProjectionSpec_DeepCopy A =
     copy_ref clusterProjectionSpecCell ClusterProjectionSpecCell (ClusterProjectionSpec_DeepCopyInto A)"

definition ClusterProjectionStatus_DeepCopy :: "addr option \<Rightarrow> ('x heap, addr option) state" where
  "ClusterProjectionStatus_DeepCopy = copy_ref clusterProjectionStatusCell
     ClusterProjectionStatusCell ClusterProjectionStatus_DeepCopyInto"

definition ClusterProjection_DeepCopy ::
  "'x apimachinery \<Rightarrow> addr option \<Rightarrow> ('x heap, addr option) state" where
  "ClusterProjection_DeepCopy A =
     copy_ref clusterProjectionCell ClusterProjectionCell (ClusterProjection_DeepCopyInto A)"

definition ClusterProjectionList_DeepCopy ::
  "'x apimachinery \<Rightarrow> addr option \<Rightarrow> ('x heap, addr option) state" where
  "ClusterProjectionList_DeepCopy A =
     copy_ref clusterProjectionListCell ClusterProjectionListCell (ClusterProjectionList_DeepCopyInto A)"

text \<open>\<^verbatim>\<open>DeepCopyObject\<close>: the copy as an interface value, which is nil itself for a nil copy.\<close>

datatype object = ProjectionObject addr | ProjectionListObject addr
  | ClusterProjectionObject addr | ClusterProjectionListObject addr

definition Projection_DeepCopyObject ::
  "'x apimachinery \<Rightarrow> addr option \<Rightarrow> ('x heap, object option) state" where
  "Projection_DeepCopyObject A p = do {
     c \<leftarrow> Projection_DeepCopy A p;
     case c of Some a \<Rightarrow> plain (Some (ProjectionObject a)) | None \<Rightarrow> plain None
   }"

definition ProjectionList_DeepCopyObject ::
  "'x apimachinery \<Rightarrow> addr option \<Rightarrow> ('x heap, object option) state" where
  "ProjectionList_DeepCopyObject A p = do {
     c \<leftarrow> ProjectionList_DeepCopy A p;
     case c of Some a \<Rightarrow> plain (Some (ProjectionListObject a)) | None \<Rightarrow> plain None
   }"

definition ClusterProjection_DeepCopyObject ::
  "'x apimachinery \<Rightarrow> addr option \<Rightarrow> ('x heap, object option) state" where
  "ClusterProjection_DeepCopyObject A p = do {
     c \<leftarrow> ClusterProjection_DeepCopy A p;
     case c of Some a \<Rightarrow> plain (Some (ClusterProjectionObject a)) | None \<Rightarrow> plain None
   }"

definition ClusterProjectionList_DeepCopyObject ::
  "'x apimachinery \<Rightarrow> addr option \<Rightarrow> ('x heap, object option) state" where
  "ClusterProjectionList_DeepCopyObject A p = do {
     c \<leftarrow> ClusterProjectionList_DeepCopy A p;
     case c of Some a \<Rightarrow> plain (Some (ClusterProjectionListObject a)) | None \<Rightarrow> plain None
   }"

section \<open>Content and reach of the types\<close>

abbreviation leaf :: "'x heap \<Rightarrow> 'v \<Rightarrow> 'v" where "leaf \<equiv> \<lambda>h x. x"
abbreviation no_cells :: "'x heap \<Rightarrow> 'v \<Rightarrow> addr set" where "no_cells \<equiv> \<lambda>h x. {}"

definition overlay_val :: "'x heap \<Rightarrow> gOverlay \<Rightarrow> str_map option \<times> str_map option" where
  "overlay_val h x = (ref_val mapCell leaf h (go_Labels x), ref_val mapCell leaf h (go_Annotations x))"

definition overlay_reach :: "'x heap \<Rightarrow> gOverlay \<Rightarrow> addr set" where
  "overlay_reach h x = ref_reach mapCell no_cells h (go_Labels x) \<union>
     ref_reach mapCell no_cells h (go_Annotations x)"

definition projection_val where
  "projection_val A h x = (gp_TypeMeta x, content A h (gp_ObjectMeta x), gps_Source (gp_Spec x),
     gps_Destination (gp_Spec x), overlay_val h (gps_Overlay (gp_Spec x)),
     ref_val conditionsCell leaf h (gpt_Conditions (gp_Status x)), gpt_DestinationName (gp_Status x))"

definition projection_reach :: "'x apimachinery \<Rightarrow> 'x heap \<Rightarrow> 'x gProjection \<Rightarrow> addr set" where
  "projection_reach A h x = reaches A h (gp_ObjectMeta x) \<union> overlay_reach h (gps_Overlay (gp_Spec x)) \<union>
     ref_reach conditionsCell no_cells h (gpt_Conditions (gp_Status x))"

definition cluster_destination_val where
  "cluster_destination_val A h x = (ref_val stringsCell leaf h (gcd_Namespaces x),
     ref_val labelSelectorCell (content A) h (gcd_NamespaceSelector x), gcd_Name x)"

definition cluster_destination_reach ::
  "'x apimachinery \<Rightarrow> 'x heap \<Rightarrow> gClusterProjectionDestination \<Rightarrow> addr set" where
  "cluster_destination_reach A h x = ref_reach stringsCell no_cells h (gcd_Namespaces x) \<union>
     ref_reach labelSelectorCell (reaches A) h (gcd_NamespaceSelector x)"

definition cluster_val where
  "cluster_val A h x = (gc_TypeMeta x, content A h (gc_ObjectMeta x), gcs_Source (gc_Spec x),
     cluster_destination_val A h (gcs_Destination (gc_Spec x)), overlay_val h (gcs_Overlay (gc_Spec x)),
     ref_val conditionsCell leaf h (gct_Conditions (gc_Status x)), gct_DestinationName (gc_Status x),
     gct_NamespacesWritten (gc_Status x), gct_NamespacesFailed (gc_Status x))"

definition cluster_reach :: "'x apimachinery \<Rightarrow> 'x heap \<Rightarrow> 'x gClusterProjection \<Rightarrow> addr set" where
  "cluster_reach A h x = reaches A h (gc_ObjectMeta x) \<union>
     (cluster_destination_reach A h (gcs_Destination (gc_Spec x)) \<union>
      overlay_reach h (gcs_Overlay (gc_Spec x))) \<union>
     ref_reach conditionsCell no_cells h (gct_Conditions (gc_Status x))"

definition list_val where
  "list_val A sel val h x = (gl_TypeMeta x, content A h (gl_ListMeta x),
     ref_val sel (\<lambda>h. map (val h)) h (gl_Items x))"

definition list_reach where
  "list_reach A sel reach h x = reaches A h (gl_ListMeta x) \<union>
     ref_reach sel (\<lambda>h xs. \<Union>y \<in> set xs. reach h y) h (gl_Items x)"

section \<open>The generated functions copy deeply\<close>

lemma range_copied:
  "distinct (map fst xs) \<Longrightarrow>
   fmlookup (fold (\<lambda>(key, val) out. fmupd key val out) xs out) k =
     (case map_of xs k of None \<Rightarrow> fmlookup out k | Some v \<Rightarrow> Some v)"
proof (induction xs arbitrary: out)
  case Nil
  then show ?case by simp
next
  case (Cons x xs)
  have "map_of xs k = None" if "k = fst x"
    using Cons.prems that by (metis distinct.simps(2) list.simps(9) map_of_eq_None_iff list.set_map)
  with Cons show ?case by (cases x) (auto split: option.splits)
qed

lemma range_copy: "range_copy m = m"
proof (rule fmap_ext)
  fix k
  have "distinct (sorted_list_of_fset (fmdom m))"
    by (simp add: sorted_list_of_fset.rep_eq)
  then have "distinct (map fst (sorted_list_of_fmap m))"
    by (simp add: sorted_list_of_fmap_def comp_def)
  then show "fmlookup (range_copy m) k = fmlookup m k"
    by (simp add: range_copy_def range_copied split: option.splits)
qed

lemma copies_map: "copies copy_map (ref_val mapCell leaf) (ref_reach mapCell no_cells)"
  unfolding copy_map_def by (rule copies_ref) (simp_all add: range_copy copies_value)

lemma copies_strings: "copies copy_strings (ref_val stringsCell leaf) (ref_reach stringsCell no_cells)"
  unfolding copy_strings_def by (rule copies_ref) (simp_all add: copies_value)

lemma copies_conditions:
  "copies copy_conditions (ref_val conditionsCell leaf) (ref_reach conditionsCell no_cells)"
proof -
  have "copies (copy_ref conditionsCell ConditionsCell (copy_all plain))
      (ref_val conditionsCell (\<lambda>h. map (leaf h)))
      (ref_reach conditionsCell (\<lambda>h xs. \<Union>x \<in> set xs. no_cells h x))"
    by (rule copies_ref [OF copies_all [OF copies_value]]) simp
  then show ?thesis by (simp add: copy_conditions_def)
qed

lemma copies_overlay: "copies Overlay_DeepCopyInto overlay_val overlay_reach"
  by (rule copies_struct [where geta = go_Labels and getb = go_Annotations and getc = "\<lambda>x. ()"
        and rest = "\<lambda>x. ()" and put = "\<lambda>x a b c. x\<lparr>go_Labels := a, go_Annotations := b\<rparr>"
        and f = "\<lambda>_ a b _. (a, b)", OF copies_map copies_map copies_value [of "\<lambda>x. x"]])
    (simp_all add: Overlay_DeepCopyInto_def overlay_val_def overlay_reach_def)

lemma copies_projection:
  assumes "apimachinery_ok A"
  shows "copies (Projection_DeepCopyInto A) (projection_val A) (projection_reach A)"
  by (rule copies_struct [where geta = gp_ObjectMeta and getb = "\<lambda>x. gps_Overlay (gp_Spec x)"
        and getc = "\<lambda>x. gpt_Conditions (gp_Status x)"
        and rest = "\<lambda>x. (gp_TypeMeta x, gps_Source (gp_Spec x), gps_Destination (gp_Spec x),
          gpt_DestinationName (gp_Status x))"
        and put = "\<lambda>x a b c. x\<lparr>gp_ObjectMeta := a, gp_Spec := (gp_Spec x)\<lparr>gps_Overlay := b\<rparr>,
          gp_Status := (gp_Status x)\<lparr>gpt_Conditions := c\<rparr>\<rparr>"
        and f = "\<lambda>(tm, src, dst, nm) a b c. (tm, a, src, dst, b, c, nm)",
        OF assms [unfolded apimachinery_ok_def, THEN conjunct1] copies_overlay copies_conditions])
    (simp_all add: Projection_DeepCopyInto_def ProjectionSpec_DeepCopyInto_def
       ProjectionStatus_DeepCopyInto_def projection_val_def projection_reach_def)

lemma copies_cluster_destination:
  assumes "apimachinery_ok A"
  shows "copies (ClusterProjectionDestination_DeepCopyInto A) (cluster_destination_val A)
    (cluster_destination_reach A)"
proof -
  have sel: "copies (copy_ref labelSelectorCell LabelSelectorCell (LabelSelector_DeepCopyInto A))
      (ref_val labelSelectorCell (content A)) (ref_reach labelSelectorCell (reaches A))"
    by (rule copies_ref) (use assms in \<open>simp_all add: apimachinery_ok_def\<close>)
  show ?thesis
    by (rule copies_struct [where geta = gcd_Namespaces and getb = gcd_NamespaceSelector and getc = "\<lambda>x. ()"
          and rest = gcd_Name and put = "\<lambda>x a b c. x\<lparr>gcd_Namespaces := a, gcd_NamespaceSelector := b\<rparr>"
          and f = "\<lambda>nm a b _. (a, b, nm)", OF copies_strings sel copies_value [of "\<lambda>x. x"]])
      (simp_all add: ClusterProjectionDestination_DeepCopyInto_def cluster_destination_val_def
         cluster_destination_reach_def)
qed

lemma copies_cluster_spec:
  assumes "apimachinery_ok A"
  shows "copies (ClusterProjectionSpec_DeepCopyInto A)
    (\<lambda>h x. (gcs_Source x, cluster_destination_val A h (gcs_Destination x), overlay_val h (gcs_Overlay x)))
    (\<lambda>h x. cluster_destination_reach A h (gcs_Destination x) \<union> overlay_reach h (gcs_Overlay x))"
  by (rule copies_struct [where geta = gcs_Destination and getb = gcs_Overlay and getc = "\<lambda>x. ()"
        and rest = gcs_Source and put = "\<lambda>x a b c. x\<lparr>gcs_Destination := a, gcs_Overlay := b\<rparr>"
        and f = "\<lambda>src a b _. (src, a, b)",
        OF copies_cluster_destination [OF assms] copies_overlay copies_value [of "\<lambda>x. x"]])
    (simp_all add: ClusterProjectionSpec_DeepCopyInto_def)

lemma copies_cluster:
  assumes "apimachinery_ok A"
  shows "copies (ClusterProjection_DeepCopyInto A) (cluster_val A) (cluster_reach A)"
  by (rule copies_struct [where geta = gc_ObjectMeta and getb = gc_Spec
        and getc = "\<lambda>x. gct_Conditions (gc_Status x)"
        and rest = "\<lambda>x. (gc_TypeMeta x, gct_DestinationName (gc_Status x),
          gct_NamespacesWritten (gc_Status x), gct_NamespacesFailed (gc_Status x))"
        and put = "\<lambda>x a b c. x\<lparr>gc_ObjectMeta := a, gc_Spec := b,
          gc_Status := (gc_Status x)\<lparr>gct_Conditions := c\<rparr>\<rparr>"
        and f = "\<lambda>(tm, nm, w, fl) a (src, d, ov) c. (tm, a, src, d, ov, c, nm, w, fl)",
        OF assms [unfolded apimachinery_ok_def, THEN conjunct1] copies_cluster_spec [OF assms]
          copies_conditions])
    (simp_all add: ClusterProjection_DeepCopyInto_def ClusterProjectionStatus_DeepCopyInto_def
       cluster_val_def cluster_reach_def)

text \<open>The smaller structs, whose own copies no other generated function calls through a pointer.\<close>

lemma copies_projection_spec:
  "copies ProjectionSpec_DeepCopyInto
     (\<lambda>h x. (gps_Source x, gps_Destination x, overlay_val h (gps_Overlay x)))
     (\<lambda>h x. overlay_reach h (gps_Overlay x))"
  by (rule copies_struct [where geta = gps_Overlay and getb = "\<lambda>x. ()" and getc = "\<lambda>x. ()"
        and rest = "\<lambda>x. (gps_Source x, gps_Destination x)" and put = "\<lambda>x a b c. x\<lparr>gps_Overlay := a\<rparr>"
        and f = "\<lambda>(src, dst) a b c. (src, dst, a)",
        OF copies_overlay copies_value [of "\<lambda>x. x"] copies_value [of "\<lambda>x. x"]])
    (simp_all add: ProjectionSpec_DeepCopyInto_def)

lemma copies_projection_status:
  "copies ProjectionStatus_DeepCopyInto
     (\<lambda>h x. (ref_val conditionsCell leaf h (gpt_Conditions x), gpt_DestinationName x))
     (\<lambda>h x. ref_reach conditionsCell no_cells h (gpt_Conditions x))"
  by (rule copies_struct [where geta = gpt_Conditions and getb = "\<lambda>x. ()" and getc = "\<lambda>x. ()"
        and rest = gpt_DestinationName and put = "\<lambda>x a b c. x\<lparr>gpt_Conditions := a\<rparr>"
        and f = "\<lambda>nm a b c. (a, nm)",
        OF copies_conditions copies_value [of "\<lambda>x. x"] copies_value [of "\<lambda>x. x"]])
    (simp_all add: ProjectionStatus_DeepCopyInto_def)

lemma copies_cluster_status:
  "copies ClusterProjectionStatus_DeepCopyInto
     (\<lambda>h x. (ref_val conditionsCell leaf h (gct_Conditions x), gct_DestinationName x,
        gct_NamespacesWritten x, gct_NamespacesFailed x))
     (\<lambda>h x. ref_reach conditionsCell no_cells h (gct_Conditions x))"
  by (rule copies_struct [where geta = gct_Conditions and getb = "\<lambda>x. ()" and getc = "\<lambda>x. ()"
        and rest = "\<lambda>x. (gct_DestinationName x, gct_NamespacesWritten x, gct_NamespacesFailed x)"
        and put = "\<lambda>x a b c. x\<lparr>gct_Conditions := a\<rparr>" and f = "\<lambda>r a b c. (a, r)",
        OF copies_conditions copies_value [of "\<lambda>x. x"] copies_value [of "\<lambda>x. x"]])
    (simp_all add: ClusterProjectionStatus_DeepCopyInto_def)

text \<open>Hence \<^verbatim>\<open>DeepCopy\<close> of each of them copies deeply.\<close>

lemma parts_copied:
  "copies SourceRef_DeepCopy (ref_val sourceRefCell leaf) (ref_reach sourceRefCell no_cells)"
  "copies ProjectionDestination_DeepCopy (ref_val projectionDestinationCell leaf)
     (ref_reach projectionDestinationCell no_cells)"
  "copies Overlay_DeepCopy (ref_val overlayCell overlay_val) (ref_reach overlayCell overlay_reach)"
  "copies ProjectionSpec_DeepCopy
     (ref_val projectionSpecCell (\<lambda>h x. (gps_Source x, gps_Destination x, overlay_val h (gps_Overlay x))))
     (ref_reach projectionSpecCell (\<lambda>h x. overlay_reach h (gps_Overlay x)))"
  "copies ProjectionStatus_DeepCopy
     (ref_val projectionStatusCell
       (\<lambda>h x. (ref_val conditionsCell leaf h (gpt_Conditions x), gpt_DestinationName x)))
     (ref_reach projectionStatusCell (\<lambda>h x. ref_reach conditionsCell no_cells h (gpt_Conditions x)))"
  "copies ClusterProjectionStatus_DeepCopy
     (ref_val clusterProjectionStatusCell
       (\<lambda>h x. (ref_val conditionsCell leaf h (gct_Conditions x), gct_DestinationName x,
          gct_NamespacesWritten x, gct_NamespacesFailed x)))
     (ref_reach clusterProjectionStatusCell
       (\<lambda>h x. ref_reach conditionsCell no_cells h (gct_Conditions x)))"
  "apimachinery_ok A \<Longrightarrow> copies (ClusterProjectionDestination_DeepCopy A)
     (ref_val clusterProjectionDestinationCell (cluster_destination_val A))
     (ref_reach clusterProjectionDestinationCell (cluster_destination_reach A))"
  "apimachinery_ok A \<Longrightarrow> copies (ClusterProjectionSpec_DeepCopy A)
     (ref_val clusterProjectionSpecCell (\<lambda>h x. (gcs_Source x,
        cluster_destination_val A h (gcs_Destination x), overlay_val h (gcs_Overlay x))))
     (ref_reach clusterProjectionSpecCell (\<lambda>h x.
        cluster_destination_reach A h (gcs_Destination x) \<union> overlay_reach h (gcs_Overlay x)))"
  unfolding SourceRef_DeepCopy_def ProjectionDestination_DeepCopy_def Overlay_DeepCopy_def
    ProjectionSpec_DeepCopy_def ProjectionStatus_DeepCopy_def ClusterProjectionStatus_DeepCopy_def
    ClusterProjectionDestination_DeepCopy_def ClusterProjectionSpec_DeepCopy_def
    SourceRef_DeepCopyInto_def [abs_def] ProjectionDestination_DeepCopyInto_def [abs_def]
  by (rule copies_ref, rule copies_value, simp)
    (rule copies_ref, rule copies_value copies_overlay copies_projection_spec copies_projection_status
       copies_cluster_status copies_cluster_destination copies_cluster_spec, assumption?, simp)+

lemma copies_list:
  assumes "apimachinery_ok A" and "copies into val reach" and "\<And>xs. sel (mk xs) = Some xs"
    and "\<And>x. list_into x = State_Monad.bind (ListMeta_DeepCopyInto A (gl_ListMeta x)) (\<lambda>meta.
      State_Monad.bind (copy_ref sel mk (copy_all into) (gl_Items x)) (\<lambda>items.
        plain (x\<lparr>gl_ListMeta := meta, gl_Items := items\<rparr>)))"
  shows "copies list_into (list_val A sel val) (list_reach A sel reach)"
  by (rule copies_struct [where geta = gl_ListMeta and getb = gl_Items and getc = "\<lambda>x. ()"
        and rest = gl_TypeMeta and put = "\<lambda>x a b c. x\<lparr>gl_ListMeta := a, gl_Items := b\<rparr>"
        and f = "\<lambda>tm a b c. (tm, a, b)",
        OF assms(1) [unfolded apimachinery_ok_def, THEN conjunct2, THEN conjunct1]
          copies_ref [OF copies_all [OF assms(2)], of sel mk, OF assms(3)] copies_value [of "\<lambda>x. x"]])
    (simp_all add: assms(4) list_val_def list_reach_def)

lemmas copies_projection_list =
  copies_list [where list_into = "ProjectionList_DeepCopyInto A" for A, OF _ copies_projection _
    ProjectionList_DeepCopyInto_def]

lemmas copies_cluster_list =
  copies_list [where list_into = "ClusterProjectionList_DeepCopyInto A" for A, OF _ copies_cluster _
    ClusterProjectionList_DeepCopyInto_def]

section \<open>Original and copy are independent\<close>

text \<open>
  What the caller of \<^verbatim>\<open>DeepCopy\<close> relies on: nil gives nil; the copy has the content of the original,
  which is left as it was; they have no cell in common, and what is later stored into the cells
  of one, or into cells allocated later, does not show in the other.
\<close>

definition independent_copy ::
  "(addr option \<Rightarrow> ('x heap, addr option) state) \<Rightarrow> ('x heap \<Rightarrow> addr option \<Rightarrow> 'c option) \<Rightarrow>
   ('x heap \<Rightarrow> addr option \<Rightarrow> addr set) \<Rightarrow> 'x heap \<Rightarrow> addr option \<Rightarrow> bool" where
  "independent_copy copy val reach h p \<longleftrightarrow>
     (case run_state (copy p) h of (q, h') \<Rightarrow>
        val h' q = val h p \<and> val h' p = val h p \<and> (p = None \<longrightarrow> q = None \<and> h' = h) \<and>
        reach h' q \<inter> reach h' p = {} \<and>
        (\<forall>g. (\<forall>a. a \<notin> reach h' q \<longrightarrow> a < limit h' \<longrightarrow> cells g a = cells h' a) \<longrightarrow> val g p = val h p) \<and>
        (\<forall>g. (\<forall>a. a \<notin> reach h' p \<longrightarrow> a < limit h' \<longrightarrow> cells g a = cells h' a) \<longrightarrow> val g q = val h p))"

lemma copies_independent:
  assumes c: "copies (copy_ref sel mk into) val reach" and ok: "heap_ok h"
    and r: "reach h p \<subseteq> {..<limit h}"
  shows "independent_copy (copy_ref sel mk into) val reach h p"
proof -
  obtain q h' where run: "run_state (copy_ref sel mk into p) h = (q, h')" by fastforce
  note res = copiesD(1) [OF c ok r run]
  then have ext: "extends h h'" by simp
  note stay = copies_stays [OF c ext r]
  have apart: "reach h' q \<inter> reach h' p = {}" using res r stay by force
  have lim: "limit h \<le> limit h'" using ext by (simp add: extends_def)
  have "val g p = val h p" if "\<forall>a. a \<notin> reach h' q \<longrightarrow> a < limit h' \<longrightarrow> cells g a = cells h' a" for g
    using copiesD(2) [OF c, of h' p g] that apart r stay lim by force
  moreover have "val g q = val h p" if "\<forall>a. a \<notin> reach h' p \<longrightarrow> a < limit h' \<longrightarrow> cells g a = cells h' a" for g
    using copiesD(2) [OF c, of h' q g] that apart res by force
  moreover have "p = None \<longrightarrow> q = None \<and> h' = h" using run by (auto simp: copy_ref_def load_def)
  ultimately show ?thesis
    using res stay apart by (simp add: independent_copy_def run)
qed

text \<open>
  A concrete API machinery: metadata and selectors that consist of one map, behind a reference.
\<close>

definition map_json :: "str_map \<Rightarrow> json" where
  "map_json m = JObject (fmmap JString m)"

definition map_apimachinery :: "addr option apimachinery" where
  "map_apimachinery =
     \<lparr>ObjectMeta_DeepCopyInto = copy_map, ListMeta_DeepCopyInto = copy_map,
      LabelSelector_DeepCopyInto = copy_map,
      content = (\<lambda>h x. case ref_val mapCell leaf h x of None \<Rightarrow> JNull | Some m \<Rightarrow> map_json m),
      reaches = ref_reach mapCell no_cells\<rparr>"

lemma copies_up_to:
  assumes "copies into val reach"
  shows "copies into (\<lambda>h x. f (val h x)) reach"
proof (rule copiesI)
  show "heap_ok h' \<and> extends h h' \<and> f (val h' y) = f (val h x) \<and> reach h' y \<subseteq> {limit h..<limit h'}"
    if "heap_ok h" "reach h x \<subseteq> {..<limit h}" "run_state (into x) h = (y, h')" for x h y h'
    using copiesD(1) [OF assms that] by simp
  show "f (val h' x) = f (val h x) \<and> reach h' x = reach h x"
    if "\<And>a. a \<in> reach h x \<Longrightarrow> cells h' a = cells h a" for x h h'
    using copiesD(2,3) [OF assms that] by simp
qed

lemma map_apimachinery_ok: "apimachinery_ok map_apimachinery"
  unfolding apimachinery_ok_def map_apimachinery_def
  by (simp add: copies_up_to [OF copies_map, of "case_option JNull map_json"])

text \<open>A heap with one resource of each kind and a list of each, which share nothing but maps.\<close>

definition sample_gProjection :: "addr option gProjection" where
  "sample_gProjection =
     \<lparr>gp_TypeMeta = (''Projection'', ''v1''), gp_ObjectMeta = Some 1,
      gp_Spec = \<lparr>gps_Source = sample_source_ref, gps_Destination = \<lparr>pd_Name = ''app''\<rparr>,
        gps_Overlay = \<lparr>go_Labels = Some 0, go_Annotations = None\<rparr>\<rparr>,
      gp_Status = \<lparr>gpt_Conditions = Some 2, gpt_DestinationName = ''app''\<rparr>\<rparr>"

definition sample_gClusterProjection :: "addr option gClusterProjection" where
  "sample_gClusterProjection =
     \<lparr>gc_TypeMeta = (''ClusterProjection'', ''v1''), gc_ObjectMeta = Some 1,
      gc_Spec = \<lparr>gcs_Source = sample_source_ref,
        gcs_Destination = \<lparr>gcd_Namespaces = Some 3, gcd_NamespaceSelector = Some 4, gcd_Name = ''app''\<rparr>,
        gcs_Overlay = \<lparr>go_Labels = Some 0, go_Annotations = None\<rparr>\<rparr>,
      gc_Status = \<lparr>gct_Conditions = None, gct_DestinationName = [], gct_NamespacesWritten = 1,
        gct_NamespacesFailed = 0\<rparr>\<rparr>"

definition sample_heap :: "addr option heap" where
  "sample_heap = \<lparr>cells = map_of
     [(0, MapCell (fmap_of_list [(''team'', ''a'')])), (1, MapCell fmempty), (2, ConditionsCell []),
      (3, StringsCell [''dev'', ''prod'']), (4, LabelSelectorCell (Some 0)),
      (5, ProjectionCell sample_gProjection), (6, ClusterProjectionCell sample_gClusterProjection),
      (7, ProjectionsCell [sample_gProjection]),
      (8, ProjectionListCell \<lparr>gl_TypeMeta = ([], []), gl_ListMeta = None, gl_Items = Some 7\<rparr>),
      (9, ClusterProjectionsCell [sample_gClusterProjection]),
      (10, ClusterProjectionListCell \<lparr>gl_TypeMeta = ([], []), gl_ListMeta = None, gl_Items = Some 9\<rparr>)],
     limit = 11\<rparr>"

text \<open>
  C31: The deep copies of a resource and of a list of resources are independent of the original:
  nil is copied to nil; otherwise the copy is a new object with the same content, and no change made
  in place to one of the two, as the reconcilers make them to what the cache hands out, shows in the
  other. \<^verbatim>\<open>DeepCopyObject\<close> gives the same copy. The embedded types of the API machinery are assumed
  to copy themselves deeply.
\<close>

theorem deep_copies_independent:
  fixes h :: "'x heap"
  assumes "apimachinery_ok A" and "heap_ok h"
  shows "(ref_reach projectionCell (projection_reach A) h p \<subseteq> {..<limit h} \<longrightarrow>
       independent_copy (Projection_DeepCopy A) (ref_val projectionCell (projection_val A))
         (ref_reach projectionCell (projection_reach A)) h p) \<and>
    (ref_reach clusterProjectionCell (cluster_reach A) h p \<subseteq> {..<limit h} \<longrightarrow>
       independent_copy (ClusterProjection_DeepCopy A) (ref_val clusterProjectionCell (cluster_val A))
         (ref_reach clusterProjectionCell (cluster_reach A)) h p) \<and>
    (ref_reach projectionListCell (list_reach A projectionsCell (projection_reach A)) h p \<subseteq> {..<limit h} \<longrightarrow>
       independent_copy (ProjectionList_DeepCopy A)
         (ref_val projectionListCell (list_val A projectionsCell (projection_val A)))
         (ref_reach projectionListCell (list_reach A projectionsCell (projection_reach A))) h p) \<and>
    (ref_reach clusterProjectionListCell (list_reach A clusterProjectionsCell (cluster_reach A)) h p
         \<subseteq> {..<limit h} \<longrightarrow>
       independent_copy (ClusterProjectionList_DeepCopy A)
         (ref_val clusterProjectionListCell (list_val A clusterProjectionsCell (cluster_val A)))
         (ref_reach clusterProjectionListCell (list_reach A clusterProjectionsCell (cluster_reach A))) h p) \<and>
    run_state (Projection_DeepCopyObject A p) h =
       apfst (map_option ProjectionObject) (run_state (Projection_DeepCopy A p) h) \<and>
    run_state (ClusterProjection_DeepCopyObject A p) h =
       apfst (map_option ClusterProjectionObject) (run_state (ClusterProjection_DeepCopy A p) h) \<and>
    run_state (ProjectionList_DeepCopyObject A p) h =
       apfst (map_option ProjectionListObject) (run_state (ProjectionList_DeepCopy A p) h) \<and>
    run_state (ClusterProjectionList_DeepCopyObject A p) h =
       apfst (map_option ClusterProjectionListObject) (run_state (ClusterProjectionList_DeepCopy A p) h)"
proof (intro conjI impI)
  note copied = copies_projection copies_cluster copies_projection_list copies_cluster_list
  show "independent_copy (Projection_DeepCopy A) (ref_val projectionCell (projection_val A))
      (ref_reach projectionCell (projection_reach A)) h p"
    if "ref_reach projectionCell (projection_reach A) h p \<subseteq> {..<limit h}"
    using that assms by (simp add: Projection_DeepCopy_def copies_independent copies_ref copied)
  show "independent_copy (ClusterProjection_DeepCopy A) (ref_val clusterProjectionCell (cluster_val A))
      (ref_reach clusterProjectionCell (cluster_reach A)) h p"
    if "ref_reach clusterProjectionCell (cluster_reach A) h p \<subseteq> {..<limit h}"
    using that assms by (simp add: ClusterProjection_DeepCopy_def copies_independent copies_ref copied)
  show "independent_copy (ProjectionList_DeepCopy A)
      (ref_val projectionListCell (list_val A projectionsCell (projection_val A)))
      (ref_reach projectionListCell (list_reach A projectionsCell (projection_reach A))) h p"
    if "ref_reach projectionListCell (list_reach A projectionsCell (projection_reach A)) h p \<subseteq> {..<limit h}"
    using that assms by (simp add: ProjectionList_DeepCopy_def copies_independent copies_ref copied)
  show "independent_copy (ClusterProjectionList_DeepCopy A)
      (ref_val clusterProjectionListCell (list_val A clusterProjectionsCell (cluster_val A)))
      (ref_reach clusterProjectionListCell (list_reach A clusterProjectionsCell (cluster_reach A))) h p"
    if "ref_reach clusterProjectionListCell (list_reach A clusterProjectionsCell (cluster_reach A)) h p
      \<subseteq> {..<limit h}"
    using that assms by (simp add: ClusterProjectionList_DeepCopy_def copies_independent copies_ref copied)
qed (simp_all add: Projection_DeepCopyObject_def ClusterProjection_DeepCopyObject_def
      ProjectionList_DeepCopyObject_def ClusterProjectionList_DeepCopyObject_def apfst_def map_prod_def
      split: prod.splits option.splits)

lemmas sample_heap_unfold = sample_heap_def sample_gProjection_def sample_gClusterProjection_def
  ref_reach_def load_def projection_reach_def cluster_reach_def cluster_destination_reach_def
  overlay_reach_def list_reach_def map_apimachinery_def

theorem deep_copies_independent_witness:
  "heap_ok sample_heap \<and>
   independent_copy (Projection_DeepCopy map_apimachinery)
     (ref_val projectionCell (projection_val map_apimachinery))
     (ref_reach projectionCell (projection_reach map_apimachinery)) sample_heap (Some 5) \<and>
   independent_copy (ClusterProjection_DeepCopy map_apimachinery)
     (ref_val clusterProjectionCell (cluster_val map_apimachinery))
     (ref_reach clusterProjectionCell (cluster_reach map_apimachinery)) sample_heap (Some 6) \<and>
   independent_copy (ProjectionList_DeepCopy map_apimachinery)
     (ref_val projectionListCell (list_val map_apimachinery projectionsCell (projection_val map_apimachinery)))
     (ref_reach projectionListCell
       (list_reach map_apimachinery projectionsCell (projection_reach map_apimachinery))) sample_heap (Some 8) \<and>
   independent_copy (ClusterProjectionList_DeepCopy map_apimachinery)
     (ref_val clusterProjectionListCell
       (list_val map_apimachinery clusterProjectionsCell (cluster_val map_apimachinery)))
     (ref_reach clusterProjectionListCell
       (list_reach map_apimachinery clusterProjectionsCell (cluster_reach map_apimachinery)))
     sample_heap (Some 10)"
proof (intro conjI)
  show ok: "heap_ok sample_heap" by (auto simp: heap_ok_def sample_heap_def)
  note here = deep_copies_independent [OF map_apimachinery_ok ok]
  note parts = conjunct1 conjunct2 [THEN conjunct1] conjunct2 [THEN conjunct2, THEN conjunct1]
    conjunct2 [THEN conjunct2, THEN conjunct2, THEN conjunct1]
  show "independent_copy (Projection_DeepCopy map_apimachinery)
      (ref_val projectionCell (projection_val map_apimachinery))
      (ref_reach projectionCell (projection_reach map_apimachinery)) sample_heap (Some 5)"
    by (rule here [THEN parts(1), THEN mp]) (simp add: sample_heap_unfold)
  show "independent_copy (ClusterProjection_DeepCopy map_apimachinery)
      (ref_val clusterProjectionCell (cluster_val map_apimachinery))
      (ref_reach clusterProjectionCell (cluster_reach map_apimachinery)) sample_heap (Some 6)"
    by (rule here [THEN parts(2), THEN mp]) (simp add: sample_heap_unfold)
  show "independent_copy (ProjectionList_DeepCopy map_apimachinery)
      (ref_val projectionListCell (list_val map_apimachinery projectionsCell (projection_val map_apimachinery)))
      (ref_reach projectionListCell
        (list_reach map_apimachinery projectionsCell (projection_reach map_apimachinery))) sample_heap (Some 8)"
    by (rule here [THEN parts(3), THEN mp]) (simp add: sample_heap_unfold)
  show "independent_copy (ClusterProjectionList_DeepCopy map_apimachinery)
      (ref_val clusterProjectionListCell
        (list_val map_apimachinery clusterProjectionsCell (cluster_val map_apimachinery)))
      (ref_reach clusterProjectionListCell
        (list_reach map_apimachinery clusterProjectionsCell (cluster_reach map_apimachinery)))
      sample_heap (Some 10)"
    by (rule here [THEN parts(4), THEN mp]) (simp add: sample_heap_unfold)
qed

end
