(* ===== verification/Spec2Isabelle.thy ===== *)
theory Spec2Isabelle
  imports Fan_Out_Refinement Bench_Stamp Deep_Copy
begin

text \<open>
  Verification of the projection operator, a Kubernetes controller that mirrors a source object
  into destinations. A \<^verbatim>\<open>Projection\<close> has one destination in its own namespace, a
  \<^verbatim>\<open>ClusterProjection\<close> one in each of many namespaces. All paths below are under \<^verbatim>\<open>src/\<close>.

  \<^bold>\<open>The parts and how they interact.\<close> \<^verbatim>\<open>cmd/main.go\<close> parses flags, makes one \<^verbatim>\<open>ControllerDeps\<close>
  and sets up two reconcilers on it. Each reconciler is called with a request, reads the resource,
  handles its deletion (finalizers, clean-up), resolves the source kind, reads the source, applies
  the source policy, writes the destination or fans out over the target namespaces, sweeps stale
  destinations, registers watches for kinds it has not seen, and ends in one status update. Watch
  events on sources, destinations and namespaces are mapped back to requests.

  \<^bold>\<open>State.\<close> The record \<open>sys\<close> of \<open>Runtime\<close> is the state of the process: the outside world (a type
  variable), the list of all API calls made so far with their results, the two reconcilers with
  their watch maps, and the metrics. Code is a state monad on it (\<open>action\<close>), and \<open>wp m Q s\<close> says
  that running \<open>m\<close> from \<open>s\<close> ends with \<open>Q\<close>; since actions are functions, this includes
  termination. An error is a value: \<open>error + 'a\<close> where Go returns a value and an error,
  \<open>error option\<close> where it returns an error only.

  \<^bold>\<open>Third-party code\<close> is a parameter: the record \<open>lib\<close> has the pure functions of the API
  machinery (accessors of unstructured objects, finalizer and condition helpers, selectors), the
  record \<open>deps\<close> has the calls to the API server, the RESTMapper, the event recorder, the controller
  and the clock, and the record \<open>manager\<close> with \<open>environment\<close> what start-up asks for. \<open>lib_ok\<close> is
  the documented behaviour of the pure part (the instance \<open>ref_lib\<close> satisfies it); nothing is
  assumed of the API server unless a theorem names it: \<open>objects_ok\<close> (dynamic reads return objects
  with metadata), \<open>server_ok\<close> with \<open>frame_ok\<close> (a server that stores what it accepts, with the
  instance \<open>memory_deps\<close>), \<open>cluster_meets\<close> (what listing, fetching and deleting mean for the live
  objects, with the instance \<open>store_deps\<close>).
\<close>

text \<open>
  \<^bold>\<open>Theories.\<close>

  \<^item> \<open>Prelude\<close>: collections of rules, Go's number formatting, \<open>wp\<close> and \<open>keeps\<close>.
  \<^item> \<open>Api_Types\<close>: \<^verbatim>\<open>api/v1/source_types.go\<close>, \<^verbatim>\<open>projection_types.go\<close>,
    \<^verbatim>\<open>clusterprojection_types.go\<close>, with the admission rules as predicates.
  \<^item> \<open>Kube\<close>, \<open>Library\<close>, \<open>Json_Paths\<close>: JSON objects, errors, calls, the parameter records, the
    laws of the pure library and of paths into objects.
  \<^item> \<open>Runtime\<close>: the process state, \<^verbatim>\<open>internal/controller/deps.go\<close> and \<^verbatim>\<open>metrics.go\<close>.
  \<^item> \<open>Sample\<close>: one concrete cluster, on which the witnesses run. \<open>Trace\<close>: when a mutating call
    is justified by the calls before it.
  \<^item> \<open>Destination\<close>, \<open>Write_Props\<close>: \<^verbatim>\<open>destination.go\<close>. \<open>Source\<close>: \<^verbatim>\<open>source.go\<close>. \<open>Conditions\<close>:
    \<^verbatim>\<open>conditions.go\<close> and the terminal operations of both tiers. \<open>Cleanup\<close>: \<^verbatim>\<open>cleanup.go\<close>.
    \<open>Finalizer\<close>: \<^verbatim>\<open>finalizer.go\<close>. \<open>Watches\<close>, \<open>Namespace_Events\<close>: \<^verbatim>\<open>watches.go\<close> and the event
    mapping of both controllers.
  \<^item> \<open>Reconciler\<close>: the frame that both reconcile functions share. \<open>Projection_Controller\<close>:
    \<^verbatim>\<open>projection_controller.go\<close>. \<open>Fan_Out\<close>, \<open>Fan_Out_Props\<close>: \<^verbatim>\<open>fanOut\<close>. \<open>Cluster_Controller\<close>,
    \<open>Cluster_Props\<close>: the rest of \<^verbatim>\<open>cluster_projection_controller.go\<close>.
  \<^item> \<open>Startup\<close>: \<^verbatim>\<open>SetupWithManager\<close> of both, and \<^verbatim>\<open>cmd/main.go\<close>. \<open>Process\<close>: the running process as
    a step relation.
  \<^item> \<open>Convergence\<close>, \<open>Completeness\<close>, \<open>Idempotence\<close>, \<open>Fan_Out_Refinement\<close>: what the operations mean
    for the cluster.
  \<^item> \<open>Bench_Stamp\<close>: \<^verbatim>\<open>logBenchStampLatency\<close>. \<open>Deep_Copy\<close>: \<^verbatim>\<open>api/v1/zz_generated.deepcopy.go\<close>.

  Definitions have the names of the Go functions. Where the two reconcilers have a method of the
  same name, that of the cluster tier is prefixed \<open>cluster_\<close>; where a Go function is long, its tail
  is a definition of its own (\<open>Reconcile_live\<close>, \<open>Reconcile_fetched\<close>, \<open>cluster_Reconcile_targets\<close>,
  \<open>main_run\<close>). The two tiers repeat each other's code with other names and messages; what they
  promise alike is proved once in a locale and interpreted for both: \<open>condition_carrier\<close>,
  \<open>destination_tier\<close>, \<open>destination_writer\<close>, \<open>sweeper\<close>, \<open>finalizer_tier\<close>, \<open>reconciler\<close>.
\<close>

text \<open>
  \<^bold>\<open>What is shown.\<close>

  \<^item> Safety of calls: whatever the API server answers, and however the workers interleave, a reconcile
    creates only what was reported missing, updates only what was read and is owned, with that
    resource version, deletes only what was read and is owned, and stays within the namespaces and
    the name the resource asks for.
  \<^item> Outcome: every reconcile of a live resource ends in one status update whose conditions agree
    with each other, with the counts and with the one counter that is incremented; success
    implies that the source was allowed and the destinations are in place; transient errors
    change nothing; a vanished source is swept and reported.
  \<^item> The cluster: a write refines a step of an abstract destination that is absent, foreign,
    stale or in sync; a fan-out refines one such step per target, in whatever order its workers
    run; a successful reconcile and a successful fan-out are final; a successful sweep leaves
    nothing behind and takes nothing else; a handled deletion takes exactly the destinations it can
    locate: none if the source kind no longer resolves, and for a Projection only the one under
    its current name.
  \<^item> The worker pool: with its bounded channels, their closing and the wait group, it terminates under
    any scheduler, cannot block and does not panic, and returns only when all its goroutines have
    ended; it never has more writes in flight than allowed, attempts every target once, and
    reports each as written or failed.
  \<^item> Transformation: what a destination carries, at every depth, and what is stripped. A
    destination is a stranger to the other tier exactly if it inherits no stamp of it, which fails
    for sources that are themselves destinations; built objects are well formed.
  \<^item> Aliasing: the controllers change in place what the cache hands out, which is safe because it is
    a deep copy. In \<open>Deep_Copy\<close>, and only there, maps, slices and pointers are addresses in a heap;
    the generated copies share no cell with their original, so that no change of one shows in
    the other. This is why the records everywhere else may be values.
  \<^item> Events: each kind of event enqueues exactly the resources concerned, and none whose targets do
    not resolve. The process: watches are
    registered once per kind in every reachable state, and the counter accounts for the status
    updates. Start-up: flags are validated before anything is registered, and a running process
    is wired as the controllers assume.

  \<^bold>\<open>Bounds and fuel.\<close> No definition uses fuel. The only loop that is not structural is the pool,
  which runs until no goroutine is enabled and terminates by the measure \<open>pool_size\<close>: the
  remaining steps of every target, worker and of the two control goroutines. The channels have the
  capacities of the code, one place per target. The interleaving is that of an arbitrary function
  \<open>sched\<close> from pool states to goroutines. Go's \<^verbatim>\<open>int\<close> is unbounded here; it only counts targets,
  seconds and flag values. The status counts are \<open>32 word\<close>, exact below \<open>2 ^ 31\<close> targets. The
  bound on failure messages is in terms of the longest failed name, since listed namespaces are
  not validated. Only \<open>Bench_Stamp\<close> computes near the bounds of 64 bits, and writes them out.
\<close>

text \<open>
  \<^bold>\<open>Not modelled.\<close> \<^verbatim>\<open>groupversion_info.go\<close> and the \<^verbatim>\<open>init\<close> of \<^verbatim>\<open>main.go\<close>
  only register types with the client library. Log lines change no state and are left out of the
  operations; the one line that is computed, the latency of \<^verbatim>\<open>logBenchStampLatency\<close>, is a value in
  \<open>Bench_Stamp\<close>. The deep copies of the API machinery's types are parameters. Command lines are
  taken as lexed, and the flags of the logger are a parameter. The mutexes of the watch maps make a registration atomic, as a
  step is here. Contexts are never cancelled: a cancelled call is one that returns an error. The
  steps of \<open>Process\<close> are whole reconciles and event handlers: two reconciles interleave at
  that grain only, while the goroutines of one fan-out interleave freely. What other clients do
  meanwhile is covered where nothing is assumed of the API server's answers; the theorems under
  \<open>server_ok\<close>, \<open>frame_ok\<close> and \<open>cluster_meets\<close> describe a cluster that no one else writes to during
  the operation. Deletion by the API server is asynchronous there: an object leaves the live ones
  when it is marked.
\<close>

end
